(* ===== verification/Yaf_Prelude.thy ===== *)
theory Yaf_Prelude
  imports Main "HOL-Library.Sublist"
begin

text \<open>
  The prelude of the development: the C string functions the extension is written with
  (\<open>strlen\<close>, \<open>strstr\<close>, \<open>strncmp\<close>, \<open>strncasecmp\<close>, \<open>toupper\<close>, the re-entrant tokenizer
  of PHP) over \<^typ>\<open>string\<close>, the collections of facts the component theories share, and
  generic lemmas on lists.  A \<^typ>\<open>string\<close> is the byte sequence of a \<open>zend_string\<close>; it may
  hold the NUL byte, and \<open>cstr\<close> is what a \<open>char *\<close> reader sees of it.
\<close>

named_theorems strtok_simps \<open>evaluation of the tokenizer on segments\<close>
named_theorems yaf_props \<open>definitions of the small property setters and getters\<close>

text \<open>What C leaves undefined is a result of its own.\<close>

datatype mem_error = OutOfBounds | NullDeref | WildRead

section \<open>Bytes\<close>

abbreviation NUL :: char where "NUL \<equiv> CHR 0x00"
abbreviation SLASH :: char where "SLASH \<equiv> CHR ''/''"

definition zend_tolower_ascii :: "char \<Rightarrow> char" where
  "zend_tolower_ascii c =
     (let n = (of_char c :: nat) in if 65 \<le> n \<and> n \<le> 90 then char_of (n + 32) else c)"

definition toupper :: "char \<Rightarrow> char" where
  "toupper c =
     (let n = (of_char c :: nat) in if 97 \<le> n \<and> n \<le> 122 then char_of (n - 32) else c)"

definition zend_str_tolower :: "string \<Rightarrow> string" where
  "zend_str_tolower s = map zend_tolower_ascii s"

definition ucfirst :: "string \<Rightarrow> string" where
  \<comment> \<open>\<open>*p = toupper(*p)\<close>; on an empty string it rewrites the terminating NUL by itself.\<close>
  "ucfirst s = (case s of [] \<Rightarrow> [] | c # cs \<Rightarrow> toupper c # cs)"

lemma length_zend_str_tolower [simp]: "length (zend_str_tolower s) = length s"
  by (simp add: zend_str_tolower_def)

lemma zend_str_tolower_append [simp]:
  "zend_str_tolower (a @ b) = zend_str_tolower a @ zend_str_tolower b"
  by (simp add: zend_str_tolower_def)

lemma length_ucfirst [simp]: "length (ucfirst s) = length s"
  by (cases s) (simp_all add: ucfirst_def)

lemma of_char_lt_256: "(of_char c :: nat) < 256"
  by (cases c) (simp add: of_char_def horner_sum_simps)

lemma of_char_tolower:
  "(of_char (zend_tolower_ascii c) :: nat) =
     (let n = of_char c in if 65 \<le> n \<and> n \<le> 90 then n + 32 else n)"
  using of_char_lt_256 [of c]
  by (auto simp: zend_tolower_ascii_def Let_def of_char_of)

lemma of_char_toupper:
  "(of_char (toupper c) :: nat) =
     (let n = of_char c in if 97 \<le> n \<and> n \<le> 122 then n - 32 else n)"
  using of_char_lt_256 [of c]
  by (auto simp: toupper_def Let_def of_char_of)

lemma char_eq_iff_nat: "c = d \<longleftrightarrow> (of_char c :: nat) = of_char d"
  by simp

lemma zend_tolower_idem [simp]:
  "zend_tolower_ascii (zend_tolower_ascii c) = zend_tolower_ascii c"
  unfolding char_eq_iff_nat [of "zend_tolower_ascii (zend_tolower_ascii c)"]
  by (auto simp only: of_char_tolower Let_def split: if_splits)

lemma zend_str_tolower_idem [simp]: "zend_str_tolower (zend_str_tolower s) = zend_str_tolower s"
  by (simp add: zend_str_tolower_def)

lemma tolower_toupper [simp]: "zend_tolower_ascii (toupper c) = zend_tolower_ascii c"
  unfolding char_eq_iff_nat [of "zend_tolower_ascii (toupper c)"]
  by (auto simp only: of_char_tolower of_char_toupper Let_def split: if_splits)

lemma toupper_tolower [simp]: "toupper (zend_tolower_ascii c) = toupper c"
  unfolding char_eq_iff_nat [of "toupper (zend_tolower_ascii c)"]
  by (auto simp only: of_char_tolower of_char_toupper Let_def split: if_splits)

lemma toupper_idem [simp]: "toupper (toupper c) = toupper c"
  unfolding char_eq_iff_nat [of "toupper (toupper c)"]
  by (auto simp only: of_char_toupper Let_def split: if_splits)

lemma zend_tolower_fixes:
  "\<not> (65 \<le> (of_char c :: nat) \<and> of_char c \<le> (90 :: nat)) \<Longrightarrow> zend_tolower_ascii c = c"
  by (auto simp: zend_tolower_ascii_def Let_def)

lemma zend_tolower_eq_iff:
  assumes "\<not> (65 \<le> (of_char d :: nat) \<and> of_char d \<le> (90 :: nat))"
    and "\<not> (97 \<le> (of_char d :: nat) \<and> of_char d \<le> (122 :: nat))"
  shows "zend_tolower_ascii c = d \<longleftrightarrow> c = d"
  unfolding char_eq_iff_nat [of "zend_tolower_ascii c"] char_eq_iff_nat [of c]
  using assms by (auto simp only: of_char_tolower Let_def split: if_splits)

lemma toupper_eq_iff:
  assumes "\<not> (65 \<le> (of_char d :: nat) \<and> of_char d \<le> (90 :: nat))"
    and "\<not> (97 \<le> (of_char d :: nat) \<and> of_char d \<le> (122 :: nat))"
  shows "toupper c = d \<longleftrightarrow> c = d"
  unfolding char_eq_iff_nat [of "toupper c"] char_eq_iff_nat [of c]
  using assms by (auto simp only: of_char_toupper Let_def split: if_splits)

lemma tolower_special [simp]:
  "zend_tolower_ascii c = NUL \<longleftrightarrow> c = NUL"
  "zend_tolower_ascii c = SLASH \<longleftrightarrow> c = SLASH"
  "zend_tolower_ascii c = CHR ''_'' \<longleftrightarrow> c = CHR ''_''"
  "zend_tolower_ascii c = CHR 0x5C \<longleftrightarrow> c = CHR 0x5C"
  by (rule zend_tolower_eq_iff; simp)+

lemma tolower_NUL [simp]: "zend_tolower_ascii NUL = NUL"
  using tolower_special(1) [of NUL] by simp

lemma NUL_tolower [simp]: "NUL = zend_tolower_ascii c \<longleftrightarrow> c = NUL"
  using tolower_special(1) [of c] by metis

lemma toupper_special [simp]:
  "toupper c = NUL \<longleftrightarrow> c = NUL"
  "toupper c = SLASH \<longleftrightarrow> c = SLASH"
  "toupper c = CHR ''_'' \<longleftrightarrow> c = CHR ''_''"
  "toupper c = CHR 0x5C \<longleftrightarrow> c = CHR 0x5C"
  by (rule toupper_eq_iff; simp)+

section \<open>C strings\<close>

definition cstr :: "string \<Rightarrow> string" where
  "cstr s = takeWhile (\<lambda>c. c \<noteq> NUL) s"

definition chd :: "string \<Rightarrow> char" where
  \<comment> \<open>\<open>*p\<close>: the terminator stands behind the last byte.\<close>
  "chd s = (case s of [] \<Rightarrow> NUL | c # _ \<Rightarrow> c)"

fun strstr :: "string \<Rightarrow> string \<Rightarrow> nat option" where
  "strstr [] n = (if n = [] then Some 0 else None)"
| "strstr (c # cs) n = (if prefix n (c # cs) then Some 0 else map_option Suc (strstr cs n))"

fun strncasecmp0 :: "string \<Rightarrow> string \<Rightarrow> nat \<Rightarrow> bool" where
  \<comment> \<open>\<open>strncasecmp(a, b, n) == 0\<close>, reading the terminators\<close>
  "strncasecmp0 a b 0 = True"
| "strncasecmp0 a b (Suc n) =
     (zend_tolower_ascii (chd a) = zend_tolower_ascii (chd b)
      \<and> (chd a = NUL \<or> strncasecmp0 (tl a) (tl b) n))"

fun strncmp0 :: "string \<Rightarrow> string \<Rightarrow> nat \<Rightarrow> bool" where
  \<comment> \<open>\<open>strncmp(a, b, n) == 0\<close>\<close>
  "strncmp0 a b 0 = True"
| "strncmp0 a b (Suc n) = (chd a = chd b \<and> (chd a = NUL \<or> strncmp0 (tl a) (tl b) n))"

lemma cstr_id [simp]: "NUL \<notin> set s \<Longrightarrow> cstr s = s"
  by (simp add: cstr_def takeWhile_eq_all_conv) (metis)

lemma NUL_notin_cstr [simp]: "NUL \<notin> set (cstr s)"
  by (auto simp: cstr_def dest: set_takeWhileD)

lemma cstr_idem [simp]: "cstr (cstr s) = cstr s"
  by simp

lemma set_cstr_subset: "set (cstr s) \<subseteq> set s"
  by (auto simp: cstr_def dest: set_takeWhileD)

lemma strstr_Some_prefix: "strstr h n = Some i \<Longrightarrow> prefix n (drop i h) \<and> i + length n \<le> length h"
  by (induction h arbitrary: i) (auto split: if_splits dest: prefix_length_le)

lemma strstr_first: "prefix n (drop j h) \<Longrightarrow> \<exists>i. strstr h n = Some i \<and> i \<le> j"
proof (induction h arbitrary: j)
  case (Cons c h)
  show ?case
  proof (cases "prefix n (c # h)")
    case False
    with Cons.prems obtain j' where "j = Suc j'" "prefix n (drop j' h)" by (cases j) auto
    with False Cons.IH [of j'] show ?thesis by auto
  qed simp
qed simp

lemma strstr_char_None: "strstr h [c] = None \<longleftrightarrow> c \<notin> set h"
  by (induction h) auto

lemma strstr_char_Some:
  "strstr h [c] = Some i \<Longrightarrow> h = take i h @ c # drop (Suc i) h \<and> c \<notin> set (take i h)"
  by (induction h arbitrary: i) (auto split: if_splits)

lemma strstr_char_append [simp]:
  "c \<notin> set a \<Longrightarrow> strstr (a @ c # b) [c] = Some (length a)"
  by (induction a) auto

lemma strncmp0_prefix:
  "NUL \<notin> set a \<Longrightarrow> NUL \<notin> set b \<Longrightarrow> strncmp0 a b (length b) \<longleftrightarrow> prefix b a"
proof (induction b arbitrary: a)
  case Nil
  then show ?case by simp
next
  case (Cons c cs)
  then show ?case by (cases a) (auto simp: chd_def)
qed

lemma strncasecmp0_prefix:
  "NUL \<notin> set a \<Longrightarrow> NUL \<notin> set b \<Longrightarrow>
     strncasecmp0 a b (length b) \<longleftrightarrow> prefix (zend_str_tolower b) (zend_str_tolower a)"
proof (induction b arbitrary: a)
  case Nil
  then show ?case by (simp add: zend_str_tolower_def)
next
  case (Cons c cs)
  then show ?case
    by (cases a) (auto simp: chd_def zend_str_tolower_def)
qed

section \<open>The tokenizer\<close>

text \<open>
  \<open>php_strtok_r\<close> of PHP's \<open>main/reentrancy.c\<close>.  Its cursor is the string argument of the
  first call and the saved pointer of the later ones; \<^const>\<open>None\<close> is the null pointer.  The
  function returns the token, if there is one, and the new cursor.
\<close>

definition php_strtok_r :: "string \<Rightarrow> string option \<Rightarrow> string option \<times> string option" where
  "php_strtok_r delim cur =
     (case cur of
        None \<Rightarrow> (None, None)
      | Some s \<Rightarrow>
          (case dropWhile (\<lambda>c. c \<in> set delim) s of
             [] \<Rightarrow> (None, None)
           | t \<Rightarrow>
               (let tok = takeWhile (\<lambda>c. c \<notin> set delim) t;
                    r = dropWhile (\<lambda>c. c \<notin> set delim) t
                in (Some tok, if r = [] then None else Some (tl r)))))"

definition cursor_size :: "string option \<Rightarrow> nat" where
  "cursor_size cur = (case cur of None \<Rightarrow> 0 | Some s \<Rightarrow> Suc (length s))"

lemma strtok_decreases: "php_strtok_r d cur = (Some t, cur') \<Longrightarrow> cursor_size cur' < cursor_size cur"
proof -
  assume a: "php_strtok_r d cur = (Some t, cur')"
  then obtain s where s: "cur = Some s"
    by (auto simp: php_strtok_r_def split: option.splits)
  have l1: "length (dropWhile (\<lambda>c. c \<in> set d) s) \<le> length s"
    by (rule length_dropWhile_le)
  obtain x xs where x: "dropWhile (\<lambda>c. c \<in> set d) s = x # xs"
    using a s by (auto simp: php_strtok_r_def split: list.splits)
  have l2: "length (dropWhile (\<lambda>c. c \<notin> set d) (x # xs)) \<le> length (x # xs)"
    by (rule length_dropWhile_le)
  show ?thesis
    using a s x l1 l2 by (auto simp: php_strtok_r_def cursor_size_def Let_def split: if_splits)
qed

lemma strtok_None [simp, strtok_simps]: "php_strtok_r d None = (None, None)"
  by (simp add: php_strtok_r_def)

lemma strtok_Nil [simp, strtok_simps]: "php_strtok_r d (Some []) = (None, None)"
  by (simp add: php_strtok_r_def)

lemma strtok_skip [strtok_simps]:
  "c \<in> set d \<Longrightarrow> php_strtok_r d (Some (c # s)) = php_strtok_r d (Some s)"
  by (simp add: php_strtok_r_def)

lemma strtok_last [strtok_simps]:
  "seg \<noteq> [] \<Longrightarrow> set seg \<inter> set d = {} \<Longrightarrow> php_strtok_r d (Some seg) = (Some seg, None)"
proof -
  assume a: "seg \<noteq> []" "set seg \<inter> set d = {}"
  then have "dropWhile (\<lambda>c. c \<in> set d) seg = seg"
    by (cases seg) auto
  moreover have "takeWhile (\<lambda>c. c \<notin> set d) seg = seg" "dropWhile (\<lambda>c. c \<notin> set d) seg = []"
    using a by (auto simp: takeWhile_eq_all_conv)
  ultimately show ?thesis
    using a by (cases seg) (auto simp: php_strtok_r_def)
qed

lemma strtok_seg [strtok_simps]:
  "seg \<noteq> [] \<Longrightarrow> set seg \<inter> set d = {} \<Longrightarrow> c \<in> set d \<Longrightarrow>
     php_strtok_r d (Some (seg @ c # s)) = (Some seg, Some s)"
proof -
  assume a: "seg \<noteq> []" "set seg \<inter> set d = {}" "c \<in> set d"
  have "dropWhile (\<lambda>c. c \<in> set d) (seg @ c # s) = seg @ c # s"
    using a by (cases seg) auto
  moreover have "takeWhile (\<lambda>c. c \<notin> set d) (seg @ c # s) = seg"
    using a by (subst takeWhile_append2) auto
  moreover have "dropWhile (\<lambda>c. c \<notin> set d) (seg @ c # s) = c # s"
    using a by (subst dropWhile_append2) auto
  moreover obtain x xs where "seg @ c # s = x # xs"
    by (cases "seg @ c # s") auto
  ultimately show ?thesis
    by (auto simp: php_strtok_r_def split: list.splits)
qed

lemma strtok_token:
  assumes "php_strtok_r d cur = (Some t, cur')"
  shows "t \<noteq> [] \<and> set t \<inter> set d = {}"
proof -
  obtain s x xs where s: "cur = Some s" "dropWhile (\<lambda>c. c \<in> set d) s = x # xs"
    using assms by (auto simp: php_strtok_r_def split: option.splits list.splits)
  then have "x \<notin> set d"
    by (metis dropWhile_eq_Cons_conv)
  then show ?thesis
    using assms s by (auto simp: php_strtok_r_def Let_def split: if_splits dest: set_takeWhileD)
qed

text \<open>All tokens of a string, the loop \<open>while ((seg = php_strtok_r(...)))\<close> in the abstract.\<close>

function strtok_all :: "string \<Rightarrow> string option \<Rightarrow> string list" where
  "strtok_all d cur =
     (case php_strtok_r d cur of (None, _) \<Rightarrow> [] | (Some t, cur') \<Rightarrow> t # strtok_all d cur')"
  by pat_completeness auto
termination
  by (relation "measure (\<lambda>(d, cur). cursor_size cur)") (auto dest: strtok_decreases [OF sym])

declare strtok_all.simps [simp del]

lemma strtok_all_tokens: "t \<in> set (strtok_all d cur) \<Longrightarrow> t \<noteq> [] \<and> set t \<inter> set d = {}"
proof (induction d cur rule: strtok_all.induct)
  case (1 d cur)
  then show ?case
    by (subst (asm) (2) strtok_all.simps)
       (fastforce split: prod.splits option.splits dest: strtok_token [OF sym])
qed

lemma strtok_all_None [simp]: "strtok_all d None = []"
  by (simp add: strtok_all.simps)

text \<open>Joining segments with a delimiter and splitting them again.\<close>

fun join :: "char \<Rightarrow> string list \<Rightarrow> string" where
  "join c [] = []"
| "join c [s] = s"
| "join c (s # ss) = s @ c # join c ss"

lemma strtok_all_join:
  assumes "\<forall>s \<in> set ss. s \<noteq> [] \<and> c \<notin> set s"
  shows "strtok_all [c] (Some (join c ss)) = ss"
  using assms
proof (induction c ss rule: join.induct)
  case (1 c)
  then show ?case by (simp add: strtok_all.simps)
next
  case (2 c s)
  then show ?case by (subst strtok_all.simps) (auto simp: strtok_last)
next
  case (3 c s s' ss)
  then show ?case
    by (subst strtok_all.simps) (auto simp: strtok_seg)
qed

section \<open>Lists\<close>

lemma dropWhile_hd_False [simp]: "s \<noteq> [] \<Longrightarrow> \<not> P (hd s) \<Longrightarrow> dropWhile P s = s"
  by (cases s) auto

lemma butlast_snoc_eq: "butlast (xs @ [x]) = xs"
  by simp

end
