(* ===== verification/Zend_Values.thy ===== *)
theory Zend_Values
  imports Yaf_Prelude "HOL-Library.Word"
begin

text \<open>
  The values of the PHP runtime the extension handles: keys and ordered hash tables, the
  tagged union \<open>zval\<close>, its conversions to string and to bool, and the numeric-string rule
  that makes \<open>zend_symtable_*\<close> turn a decimal key into an integer key.  A hash table is the
  association list of its live buckets in insertion order.  \<open>symtab\<close> is the interface the
  components with a table inside (parameters, registry, session, configuration, headers)
  rely on.
\<close>

section \<open>Keys and tables\<close>

type_synonym zlong = "64 word"

datatype zkey = KInt zlong | KStr string

type_synonym 'v htab = "(zkey \<times> 'v) list"

definition hfind :: "'v htab \<Rightarrow> zkey \<Rightarrow> 'v option" where
  "hfind h k = map_of h k"

fun hupdate :: "zkey \<Rightarrow> 'v \<Rightarrow> 'v htab \<Rightarrow> 'v htab" where
  \<comment> \<open>overwrites in place, or appends at the end\<close>
  "hupdate k v [] = [(k, v)]"
| "hupdate k v ((k', v') # h) = (if k' = k then (k, v) # h else (k', v') # hupdate k v h)"

definition hdel :: "zkey \<Rightarrow> 'v htab \<Rightarrow> 'v htab" where
  "hdel k h = filter (\<lambda>e. fst e \<noteq> k) h"

definition hexists :: "'v htab \<Rightarrow> zkey \<Rightarrow> bool" where
  "hexists h k \<longleftrightarrow> hfind h k \<noteq> None"

fun hcopy :: "'v htab \<Rightarrow> 'v htab \<Rightarrow> 'v htab" where
  \<comment> \<open>\<open>zend_hash_copy(target, source)\<close>: each source element overwrites\<close>
  "hcopy h [] = h"
| "hcopy h ((k, v) # src) = hcopy (hupdate k v h) src"

fun hnext_free :: "'v htab \<Rightarrow> zlong" where
  \<comment> \<open>\<open>nNextFreeElement\<close> of a table nothing was deleted from\<close>
  "hnext_free [] = 0"
| "hnext_free ((KInt i, _) # h) =
     (let n = hnext_free h
      in if sint n \<le> sint i then (if sint i < 2 ^ 63 - 1 then i + 1 else i) else n)"
| "hnext_free ((KStr _, _) # h) = hnext_free h"

definition happend :: "'v \<Rightarrow> 'v htab \<Rightarrow> 'v htab" where
  \<comment> \<open>\<open>zend_hash_next_index_insert\<close>; it fails where the next index is taken\<close>
  "happend v h =
     (let i = hnext_free h in if hexists h (KInt i) then h else h @ [(KInt i, v)])"

definition hwf :: "'v htab \<Rightarrow> bool" where
  "hwf h \<longleftrightarrow> distinct (map fst h)"

lemma hfind_Nil [simp]: "hfind [] k = None"
  by (simp add: hfind_def)

lemma hfind_Cons [simp]: "hfind ((k', v) # h) k = (if k' = k then Some v else hfind h k)"
  by (simp add: hfind_def)

lemma hfind_hupdate [simp]: "hfind (hupdate k v h) k' = (if k' = k then Some v else hfind h k')"
  by (induction k v h rule: hupdate.induct) (auto simp: hfind_def)

lemma fst_hupdate: "fst ` set (hupdate k v h) = insert k (fst ` set h)"
  by (induction k v h rule: hupdate.induct) auto

lemma hwf_Nil [simp, intro]: "hwf []"
  by (simp add: hwf_def)

lemma hwf_hupdate [simp, intro]: "hwf h \<Longrightarrow> hwf (hupdate k v h)"
proof (induction k v h rule: hupdate.induct)
  case (1 k v)
  then show ?case by (simp add: hwf_def)
next
  case (2 k v k' v' h)
  then show ?case
    using fst_hupdate [of k v h] by (auto simp: hwf_def)
qed

lemma hwf_hdel [simp, intro]: "hwf h \<Longrightarrow> hwf (hdel k h)"
  by (simp add: hwf_def hdel_def distinct_map_filter)

lemma hfind_hdel [simp]: "hfind (hdel k h) k' = (if k' = k then None else hfind h k')"
  by (induction h) (auto simp: hdel_def hfind_def)

lemma hupdate_fresh: "hfind h k = None \<Longrightarrow> hupdate k v h = h @ [(k, v)]"
  by (induction k v h rule: hupdate.induct) (auto split: if_splits)

lemma hwf_hcopy [simp, intro]: "hwf h \<Longrightarrow> hwf (hcopy h src)"
  by (induction h src rule: hcopy.induct) auto

lemma hfind_hcopy:
  "hwf src \<Longrightarrow> hfind (hcopy h src) k = (case hfind src k of Some v \<Rightarrow> Some v | None \<Rightarrow> hfind h k)"
proof (induction h src rule: hcopy.induct)
  case (1 h)
  then show ?case by simp
next
  case (2 h k' v src)
  then have "k' \<notin> fst ` set src" "hwf src"
    by (auto simp: hwf_def)
  then have "hfind src k' = None"
    by (simp add: hfind_def map_of_eq_None_iff)
  with 2 \<open>hwf src\<close> show ?case
    by (auto split: option.splits)
qed

lemma hcopy_Nil: "hwf src \<Longrightarrow> hcopy [] src = src"
proof -
  have "hwf (h @ src) \<Longrightarrow> hcopy h src = h @ src" for h
  proof (induction h src rule: hcopy.induct)
    case (1 h)
    then show ?case by simp
  next
    case (2 h k v src)
    then have "hfind h k = None"
      by (auto simp: hwf_def hfind_def map_of_eq_None_iff)
    with 2 show ?case by (simp add: hupdate_fresh)
  qed
  from this [of "[]"] show "hwf src \<Longrightarrow> hcopy [] src = src" by simp
qed

lemma hwf_happend [simp, intro]: "hwf h \<Longrightarrow> hwf (happend v h)"
  by (auto simp: hwf_def happend_def Let_def hexists_def hfind_def map_of_eq_None_iff image_iff)

lemma hexists_hupdate [simp]: "hexists (hupdate k v h) k' \<longleftrightarrow> k' = k \<or> hexists h k'"
  by (simp add: hexists_def)

lemma hexists_hdel [simp]: "hexists (hdel k h) k' \<longleftrightarrow> k' \<noteq> k \<and> hexists h k'"
  by (simp add: hexists_def)

section \<open>The table interfaces\<close>

text \<open>
  A component that keeps named values promises the laws of a store: what a lookup returns
  after a value is put, and that putting keeps the invariant of the state.  Where values can
  be removed it is a symbol table.
\<close>

locale store =
  fixes inv :: "'s \<Rightarrow> bool"
    and get :: "'s \<Rightarrow> string \<Rightarrow> 'v option"
    and put :: "string \<Rightarrow> 'v \<Rightarrow> 's \<Rightarrow> 's"
  assumes inv_put: "inv s \<Longrightarrow> inv (put k v s)"
    and get_put: "inv s \<Longrightarrow> get (put k v s) k' = (if k' = k then Some v else get s k')"
begin

definition put_all :: "(string \<times> 'v) list \<Rightarrow> 's \<Rightarrow> 's" where
  "put_all kvs s = fold (\<lambda>(k, v). put k v) kvs s"

lemma put_all_Cons: "put_all ((k, v) # kvs) s = put_all kvs (put k v s)"
  by (simp add: put_all_def)

lemma inv_put_all: "inv s \<Longrightarrow> inv (put_all kvs s)"
  by (induction kvs arbitrary: s) (auto simp: put_all_def inv_put)

lemma get_put_all:
  "inv s \<Longrightarrow> get (put_all kvs s) k = (case map_of (rev kvs) k of Some v \<Rightarrow> Some v | None \<Rightarrow> get s k)"
proof (induction kvs arbitrary: s)
  case Nil
  then show ?case by (simp add: put_all_def)
next
  case (Cons kv kvs)
  obtain a b where kv: "kv = (a, b)" by (cases kv)
  have "get (put_all (kv # kvs) s) k = get (put_all kvs (put a b s)) k"
    by (simp add: kv put_all_Cons)
  also have "\<dots> = (case map_of (rev kvs) k of Some v \<Rightarrow> Some v | None \<Rightarrow> get (put a b s) k)"
    using Cons by (simp add: inv_put)
  also have "\<dots> = (case map_of (rev (kv # kvs)) k of Some v \<Rightarrow> Some v | None \<Rightarrow> get s k)"
    using Cons.prems by (auto simp: kv get_put map_add_def split: option.splits)
  finally show ?case .
qed

lemma put_put: "inv s \<Longrightarrow> get (put k v' (put k v s)) k' = get (put k v' s) k'"
  by (simp add: get_put inv_put)

end

locale symtab = store +
  fixes del :: "string \<Rightarrow> 'a \<Rightarrow> 'a"
  assumes inv_del: "inv s \<Longrightarrow> inv (del k s)"
    and get_del: "inv s \<Longrightarrow> get (del k s) k' = (if k' = k then None else get s k')"
begin

lemma put_del_other: "inv s \<Longrightarrow> k \<noteq> k' \<Longrightarrow> get (del k (put k' v s)) k' = Some v"
  by (simp add: get_del get_put inv_put)

lemma del_absorbs_put: "inv s \<Longrightarrow> get (del k (put k v s)) k' = get (del k s) k'"
  by (simp add: get_del get_put inv_put)

end

interpretation zend_hash: symtab hwf "\<lambda>h k. hfind h (KStr k)"
    "\<lambda>k. hupdate (KStr k)" "\<lambda>k. hdel (KStr k)"
  by unfold_locales auto

section \<open>Values\<close>

text \<open>
  A double carries the text PHP prints for it.  An object carries its handle, its class and
  the text its \<open>__toString\<close> gives; its class table is a parameter of the components that
  look into it.  References and indirect slots are dereferenced.  A thrown object keeps its
  class with all the ancestors of the class, its code, its message and the exception it was
  thrown over (\<open>previous\<close>); its text stands for the trace, which names files and lines.
\<close>

datatype php_exc =
  PhpExc (exc_classes: "string list") (exc_code: zlong) (exc_msg: string) (exc_prev: "php_exc option")

datatype zobj = ZObj (obj_handle: nat) (obj_class: string) (obj_str: string)

datatype zval =
    ZUndef
  | ZNull
  | ZFalse
  | ZTrue
  | ZLong zlong
  | ZDouble string
  | ZString string
  | ZArray "(zkey \<times> zval) list"
  | ZObject zobj
  | ZExc php_exc

fun is_string :: "zval \<Rightarrow> bool" where
  "is_string (ZString _) = True"
| "is_string _ = False"

fun is_array :: "zval \<Rightarrow> bool" where
  "is_array (ZArray _) = True"
| "is_array _ = False"

fun is_object :: "zval \<Rightarrow> bool" where
  "is_object (ZObject _) = True"
| "is_object (ZExc _) = True"
| "is_object _ = False"

definition ZBool :: "bool \<Rightarrow> zval" where
  "ZBool b = (if b then ZTrue else ZFalse)"

fun nat_to_str :: "nat \<Rightarrow> string" where
  "nat_to_str n =
     (if n < 10 then [char_of (48 + n)] else nat_to_str (n div 10) @ [char_of (48 + n mod 10)])"

declare nat_to_str.simps [simp del]

definition zend_long_to_str :: "zlong \<Rightarrow> string" where
  "zend_long_to_str n =
     (if sint n < 0 then ''-'' @ nat_to_str (nat (- sint n)) else nat_to_str (nat (sint n)))"

fun zval_get_string :: "zval \<Rightarrow> string" where
  "zval_get_string ZUndef = []"
| "zval_get_string ZNull = []"
| "zval_get_string ZFalse = []"
| "zval_get_string ZTrue = ''1''"
| "zval_get_string (ZLong n) = zend_long_to_str n"
| "zval_get_string (ZDouble t) = t"
| "zval_get_string (ZString s) = s"
| "zval_get_string (ZArray _) = ''Array''"
| "zval_get_string (ZObject z) = obj_str z"
| "zval_get_string (ZExc e) = hd (exc_classes e @ [[]]) @ '': '' @ exc_msg e"

definition quoted :: "string \<Rightarrow> string" where
  \<comment> \<open>for the messages that print a text between apostrophes\<close>
  "quoted s = CHR 0x27 # s @ [CHR 0x27]"

fun zend_zval_type_name :: "zval \<Rightarrow> string" where
  "zend_zval_type_name ZUndef = ''unknown''"
| "zend_zval_type_name ZNull = ''null''"
| "zend_zval_type_name ZFalse = ''boolean''"
| "zend_zval_type_name ZTrue = ''boolean''"
| "zend_zval_type_name (ZLong _) = ''integer''"
| "zend_zval_type_name (ZDouble _) = ''float''"
| "zend_zval_type_name (ZString _) = ''string''"
| "zend_zval_type_name (ZArray _) = ''array''"
| "zend_zval_type_name (ZObject _) = ''object''"
| "zend_zval_type_name (ZExc _) = ''object''"

fun zend_is_true :: "zval \<Rightarrow> bool" where
  "zend_is_true ZUndef = False"
| "zend_is_true ZNull = False"
| "zend_is_true ZFalse = False"
| "zend_is_true ZTrue = True"
| "zend_is_true (ZLong n) = (n \<noteq> 0)"
| "zend_is_true (ZDouble t) = (t \<noteq> ''0'' \<and> t \<noteq> ''-0'')"
| "zend_is_true (ZString s) = (s \<noteq> [] \<and> s \<noteq> ''0'')"
| "zend_is_true (ZArray h) = (h \<noteq> [])"
| "zend_is_true (ZObject _) = True"
| "zend_is_true (ZExc _) = True"

lemma nat_to_str_nonempty [simp]: "nat_to_str n \<noteq> []"
  by (subst nat_to_str.simps) simp

section \<open>Numeric string keys\<close>

text \<open>
  \<open>ZEND_HANDLE_NUMERIC_STR\<close>: a key that is the canonical decimal form of a 64-bit integer
  is stored under the integer (at most \<open>MAX_LENGTH_OF_LONG - 1\<close>, that is 19, digits).
\<close>

definition is_digit :: "char \<Rightarrow> bool" where
  "is_digit c \<longleftrightarrow> 48 \<le> (of_char c :: nat) \<and> of_char c \<le> (57 :: nat)"

definition digit_val :: "char \<Rightarrow> zlong" where
  "digit_val c = word_of_nat (of_char c - 48)"

fun numeric_scan :: "zlong \<Rightarrow> string \<Rightarrow> zlong option" where
  \<comment> \<open>the loop over the digits behind the first one; the accumulator wraps\<close>
  "numeric_scan idx [] = Some idx"
| "numeric_scan idx (c # cs) =
     (if is_digit c then numeric_scan (idx * 10 + digit_val c) cs else None)"

definition zend_long_max :: zlong where
  "zend_long_max = 0x7FFFFFFFFFFFFFFF"

definition zend_handle_numeric_str_ex :: "string \<Rightarrow> zlong option" where
  "zend_handle_numeric_str_ex key =
     (let neg = (chd key = CHR ''-''); tmp = (if neg then tl key else key)
      in if (chd tmp = CHR ''0'' \<and> length key > 1) \<or> length tmp > 19 then None
         else case numeric_scan (digit_val (chd tmp)) (tl tmp) of
                None \<Rightarrow> None
              | Some idx \<Rightarrow>
                  if neg then (if idx - 1 > zend_long_max then None else Some (0 - idx))
                  else if idx > zend_long_max then None else Some idx)"

definition zend_handle_numeric_str :: "string \<Rightarrow> zlong option" where
  "zend_handle_numeric_str key =
     (if is_digit (chd key) then zend_handle_numeric_str_ex key
      else if chd key = CHR ''-'' \<and> is_digit (chd (tl key)) then zend_handle_numeric_str_ex key
      else None)"

definition symkey :: "string \<Rightarrow> zkey" where
  "symkey s = (case zend_handle_numeric_str s of None \<Rightarrow> KStr s | Some i \<Rightarrow> KInt i)"

lemma symkey_nondigit:
  "\<not> is_digit (chd s) \<Longrightarrow> chd s \<noteq> CHR ''-'' \<Longrightarrow> symkey s = KStr s"
  by (simp add: symkey_def zend_handle_numeric_str_def)

section \<open>Replacing in strings\<close>

text \<open>
  \<open>php_str_to_str\<close>: every occurrence of a non-empty needle, left to right, without overlap.
\<close>

function php_str_to_str :: "string \<Rightarrow> string \<Rightarrow> string \<Rightarrow> string" where
  "php_str_to_str hay needle rep =
     (if needle = [] then hay
      else case strstr hay needle of
             None \<Rightarrow> hay
           | Some i \<Rightarrow> take i hay @ rep @ php_str_to_str (drop (i + length needle) hay) needle rep)"
  by pat_completeness auto
termination
proof (relation "measure (\<lambda>(hay, needle, rep). length hay)", goal_cases)
  case 1
  then show ?case by simp
next
  case (2 hay needle rep i)
  then have "i + length needle \<le> length hay" "needle \<noteq> []"
    by (auto dest: strstr_Some_prefix)
  then show ?case by (cases needle) auto
qed

declare php_str_to_str.simps [simp del]

lemma php_str_to_str_None: "strstr hay needle = None \<Longrightarrow> php_str_to_str hay needle rep = hay"
  by (subst php_str_to_str.simps) simp

end
