(* ===== verification/Yaf_Runtime.thy ===== *)
theory Yaf_Runtime
  imports Zend_Values
begin

text \<open>
  What every component of the extension shares: the module globals \<open>YAF_G(...)\<close> of
  \<open>php_yaf.h\<close> with their request start and shutdown (\<open>yaf.c\<close>), the application singleton,
  the executor state (\<open>EG(exception)\<close>, the error log, the written output), the superglobals,
  and the error reporting of \<open>yaf_exception.c\<close>: the error codes, the class an error code is
  thrown as, and the choice between throwing and recording.
\<close>

unbundle bit_operations_syntax

section \<open>Error codes\<close>

datatype yaf_err =
    ERR_STARTUP_FAILED
  | ERR_ROUTE_FAILED
  | ERR_DISPATCH_FAILED
  | ERR_NOTFOUND_MODULE
  | ERR_NOTFOUND_CONTROLLER
  | ERR_NOTFOUND_ACTION
  | ERR_NOTFOUND_VIEW
  | ERR_CALL_FAILED
  | ERR_AUTOLOAD_FAILED
  | ERR_TYPE_ERROR
  | E_ERROR \<comment> \<open>PHP's own level 1, which the configuration reader passes as a type\<close>

fun err_code :: "yaf_err \<Rightarrow> zlong" where
  "err_code ERR_STARTUP_FAILED = 512"
| "err_code ERR_ROUTE_FAILED = 513"
| "err_code ERR_DISPATCH_FAILED = 514"
| "err_code ERR_NOTFOUND_MODULE = 515"
| "err_code ERR_NOTFOUND_CONTROLLER = 516"
| "err_code ERR_NOTFOUND_ACTION = 517"
| "err_code ERR_NOTFOUND_VIEW = 518"
| "err_code ERR_CALL_FAILED = 519"
| "err_code ERR_AUTOLOAD_FAILED = 520"
| "err_code ERR_TYPE_ERROR = 521"
| "err_code E_ERROR = 1"

lemma err_code_inj: "err_code a = err_code b \<Longrightarrow> a = b"
  by (cases a; cases b) simp_all

text \<open>Errors are ordered by their codes.\<close>

instantiation yaf_err :: linorder
begin

definition less_eq_yaf_err :: "yaf_err \<Rightarrow> yaf_err \<Rightarrow> bool" where
  "less_eq_yaf_err a b \<longleftrightarrow> err_code a \<le> err_code b"

definition less_yaf_err :: "yaf_err \<Rightarrow> yaf_err \<Rightarrow> bool" where
  "less_yaf_err a b \<longleftrightarrow> err_code a < err_code b"

instance
  by intro_classes
    (auto simp: less_eq_yaf_err_def less_yaf_err_def intro: err_code_inj)

end

section \<open>Exceptions\<close>

definition exc_instanceof :: "php_exc \<Rightarrow> string \<Rightarrow> bool" where
  "exc_instanceof e c \<longleftrightarrow> c \<in> set (exc_classes e)"

abbreviation exception_default_ce :: string where
  "exception_default_ce \<equiv> ''Exception''"

definition yaf_exception_ce :: "string list" where
  "yaf_exception_ce = [''Yaf_Exception'', exception_default_ce]"

definition load_failed_ce :: "string list" where
  "load_failed_ce = ''Yaf_Exception_LoadFailed'' # yaf_exception_ce"

definition yaf_buildin_exceptions :: "string list option list" where
  \<comment> \<open>filled by the startup function; the slot of \<open>YAF_ERR_CALL_FAILED\<close> stays empty\<close>
  "yaf_buildin_exceptions =
     [Some (''Yaf_Exception_StartupError'' # yaf_exception_ce),
      Some (''Yaf_Exception_RouterFailed'' # yaf_exception_ce),
      Some (''Yaf_Exception_DispatchFailed'' # yaf_exception_ce),
      Some (''Yaf_Exception_LoadFailed_Module'' # load_failed_ce),
      Some (''Yaf_Exception_LoadFailed_Controller'' # load_failed_ce),
      Some (''Yaf_Exception_LoadFailed_Action'' # load_failed_ce),
      Some (''Yaf_Exception_LoadFailed_View'' # load_failed_ce),
      None,
      Some load_failed_ce,
      Some (''Yaf_Exception_TypeError'' # yaf_exception_ce)]"

definition yaf_exception_offset :: "zlong \<Rightarrow> nat" where
  "yaf_exception_offset code = unat (code AND 127)"

definition exception_base :: "zlong \<Rightarrow> string list" where
  \<comment> \<open>the class \<open>yaf_throw_exception\<close> picks for a code\<close>
  "exception_base code =
     (if code AND 512 = 512 then
        (case yaf_buildin_exceptions ! yaf_exception_offset code of
           Some ce \<Rightarrow> ce | None \<Rightarrow> yaf_exception_ce)
      else yaf_exception_ce)"

section \<open>Globals, application and executor state\<close>

record yaf_globals =
  g_ext :: string
  g_base_uri :: "string option"
  g_directory :: "string option"
  g_local_library :: "string option"
  g_local_namespaces :: "string option"
  g_view_directory :: "string option"
  g_view_ext :: string
  g_default_module :: string
  g_default_controller :: string
  g_default_action :: string
  g_bootstrap :: "string option"
  g_global_library :: string
  g_environ_name :: string
  g_name_separator :: string
  g_lowcase_path :: bool
  g_use_spl_autoload :: bool
  g_throw_exception :: bool
  g_action_prefer :: bool
  g_name_suffix :: bool
  g_in_exception :: bool
  g_catch_exception :: bool
  g_st_compatible :: bool
  g_forward_limit :: zlong
  g_modules :: zval
  g_default_route :: "zval option"

definition yaf_ginit :: yaf_globals where
  \<comment> \<open>zeroed memory, then the defaults of the INI entries\<close>
  "yaf_ginit =
     \<lparr>g_ext = [], g_base_uri = None, g_directory = None, g_local_library = None,
      g_local_namespaces = None, g_view_directory = None, g_view_ext = [],
      g_default_module = [], g_default_controller = [], g_default_action = [],
      g_bootstrap = None, g_global_library = [], g_environ_name = ''product'',
      g_name_separator = [], g_lowcase_path = False, g_use_spl_autoload = False,
      g_throw_exception = False, g_action_prefer = False, g_name_suffix = True,
      g_in_exception = False, g_catch_exception = False, g_st_compatible = False,
      g_forward_limit = 5, g_modules = ZUndef, g_default_route = None\<rparr>"

definition yaf_rinit :: "yaf_globals \<Rightarrow> yaf_globals" where
  "yaf_rinit g =
     g\<lparr>g_throw_exception := True, g_ext := ''php'', g_view_ext := ''phtml'',
       g_default_module := ''Index'', g_default_controller := ''Index'',
       g_default_action := ''index''\<rparr>"

definition yaf_rshutdown :: "yaf_globals \<Rightarrow> yaf_globals" where
  "yaf_rshutdown g =
     g\<lparr>g_in_exception := False, g_catch_exception := False, g_directory := None,
       g_local_library := None, g_local_namespaces := None, g_bootstrap := None,
       g_modules := (if is_array (g_modules g) then ZUndef else g_modules g),
       g_base_uri := None, g_view_directory := None, g_default_route := None\<rparr>"

record yaf_application =
  app_config :: zval
  app_running :: bool
  app_environ :: string
  app_modules :: zval
  app_err_no :: zlong
  app_err_msg :: string

datatype php_error = EWarning string | ERecoverable string | EStrict string

datatype http_var = VARS_POST | VARS_GET | VARS_COOKIE | VARS_SERVER | VARS_ENV | VARS_FILES | VARS_REQUEST

text \<open>
  A class as far as the extension looks into it: its name, the names of the classes above it,
  and its methods, under their lower-case names, with the names of their parameters.
\<close>

record php_class =
  cl_name :: string
  cl_ancestors :: "string list"
  cl_methods :: "(string \<times> string list) list"

record php_rt =
  rt_g :: yaf_globals
  rt_app :: "yaf_application option"
  rt_exception :: "php_exc option"
  rt_log :: "php_error list"
  rt_output :: string
  rt_http :: "http_var \<Rightarrow> zval htab"
  rt_classes :: "(string \<times> php_class) list" \<comment> \<open>\<open>EG(class_table)\<close>, by lower-case name\<close>
  rt_included :: "string list" \<comment> \<open>\<open>EG(included_files)\<close>\<close>
  rt_errno :: string \<comment> \<open>what \<open>strerror(errno)\<close> says\<close>

definition class_find :: "php_rt \<Rightarrow> string \<Rightarrow> php_class option" where
  "class_find rt lc = map_of (rt_classes rt) lc"

definition instanceof_function :: "php_class \<Rightarrow> string \<Rightarrow> bool" where
  "instanceof_function ce base \<longleftrightarrow> cl_name ce = base \<or> base \<in> set (cl_ancestors ce)"

section \<open>Reporting an error\<close>

definition zend_throw_exception :: "string list \<Rightarrow> string \<Rightarrow> zlong \<Rightarrow> php_rt \<Rightarrow> php_rt" where
  "zend_throw_exception ce msg code rt =
     rt\<lparr>rt_exception := Some (PhpExc ce code msg (rt_exception rt))\<rparr>"

definition yaf_throw_exception :: "zlong \<Rightarrow> string \<Rightarrow> php_rt \<Rightarrow> php_rt" where
  "yaf_throw_exception code msg rt = zend_throw_exception (exception_base code) msg code rt"

definition php_error_docref :: "php_error \<Rightarrow> php_rt \<Rightarrow> php_rt" where
  "php_error_docref e rt = rt\<lparr>rt_log := rt_log rt @ [e]\<rparr>"

definition yaf_trigger_error :: "yaf_err \<Rightarrow> string \<Rightarrow> php_rt \<Rightarrow> php_rt" where
  \<comment> \<open>where exceptions are off, a user error handler that returns is assumed; without an
      application the two property writes have no object to go to and are dropped\<close>
  "yaf_trigger_error type msg rt =
     (if g_throw_exception (rt_g rt) then yaf_throw_exception (err_code type) msg rt
      else php_error_docref (ERecoverable msg)
             (rt\<lparr>rt_app := map_option
                 (\<lambda>a. a\<lparr>app_err_no := err_code type, app_err_msg := msg\<rparr>) (rt_app rt)\<rparr>))"

lemma exception_offset_internal:
  "e \<noteq> E_ERROR \<Longrightarrow> yaf_exception_offset (err_code e) < length yaf_buildin_exceptions"
  by (cases e) (simp_all add: yaf_exception_offset_def yaf_buildin_exceptions_def)

lemma exception_base_simps:
  "exception_base (err_code ERR_STARTUP_FAILED) = ''Yaf_Exception_StartupError'' # yaf_exception_ce"
  "exception_base (err_code ERR_ROUTE_FAILED) = ''Yaf_Exception_RouterFailed'' # yaf_exception_ce"
  "exception_base (err_code ERR_DISPATCH_FAILED) = ''Yaf_Exception_DispatchFailed'' # yaf_exception_ce"
  "exception_base (err_code ERR_NOTFOUND_MODULE) = ''Yaf_Exception_LoadFailed_Module'' # load_failed_ce"
  "exception_base (err_code ERR_NOTFOUND_CONTROLLER) = ''Yaf_Exception_LoadFailed_Controller'' # load_failed_ce"
  "exception_base (err_code ERR_NOTFOUND_ACTION) = ''Yaf_Exception_LoadFailed_Action'' # load_failed_ce"
  "exception_base (err_code ERR_NOTFOUND_VIEW) = ''Yaf_Exception_LoadFailed_View'' # load_failed_ce"
  "exception_base (err_code ERR_CALL_FAILED) = yaf_exception_ce"
  "exception_base (err_code ERR_AUTOLOAD_FAILED) = load_failed_ce"
  "exception_base (err_code ERR_TYPE_ERROR) = ''Yaf_Exception_TypeError'' # yaf_exception_ce"
  "exception_base (err_code E_ERROR) = yaf_exception_ce"
  by (simp_all add: exception_base_def yaf_exception_offset_def yaf_buildin_exceptions_def)

lemma exception_base_Exception: "exception_default_ce \<in> set (exception_base (err_code e))"
  by (cases e) (simp_all only: exception_base_simps, simp_all add: yaf_exception_ce_def load_failed_ce_def)

lemma trigger_error_throws:
  "g_throw_exception (rt_g rt) \<Longrightarrow>
     rt_exception (yaf_trigger_error e m rt)
       = Some (PhpExc (exception_base (err_code e)) (err_code e) m (rt_exception rt))"
  by (simp add: yaf_trigger_error_def yaf_throw_exception_def zend_throw_exception_def)

lemma trigger_error_g [simp]: "rt_g (yaf_trigger_error e m rt) = rt_g rt"
  by (simp add: yaf_trigger_error_def yaf_throw_exception_def zend_throw_exception_def
      php_error_docref_def)

lemma trigger_error_output [simp]: "rt_output (yaf_trigger_error e m rt) = rt_output rt"
  by (simp add: yaf_trigger_error_def yaf_throw_exception_def zend_throw_exception_def
      php_error_docref_def)

lemma docref_frame [simp]:
  "rt_g (php_error_docref w rt) = rt_g rt" "rt_app (php_error_docref w rt) = rt_app rt"
  "rt_exception (php_error_docref w rt) = rt_exception rt"
  "rt_output (php_error_docref w rt) = rt_output rt"
  by (simp_all add: php_error_docref_def)

section \<open>Superglobals\<close>

text \<open>\<open>yaf_request_query\<close> with a name: the entry of the superglobal's table.\<close>

definition yaf_request_query :: "php_rt \<Rightarrow> http_var \<Rightarrow> string \<Rightarrow> zval option" where
  "yaf_request_query rt type name = hfind (rt_http rt type) (KStr name)"

section \<open>Module names\<close>

definition zend_string_equals_ci :: "string \<Rightarrow> string \<Rightarrow> bool" where
  "zend_string_equals_ci a b \<longleftrightarrow> length a = length b \<and> zend_str_tolower a = zend_str_tolower b"

definition yaf_application_is_module_name :: "php_rt \<Rightarrow> string \<Rightarrow> bool" where
  "yaf_application_is_module_name rt name =
     (case rt_app rt of
        None \<Rightarrow> False
      | Some app \<Rightarrow>
          (case app_modules app of
             ZArray ms \<Rightarrow>
               list_ex (\<lambda>(_, v). case v of ZString s \<Rightarrow> zend_string_equals_ci s name | _ \<Rightarrow> False) ms
           | _ \<Rightarrow> False))"

lemma is_module_name_cong:
  "zend_str_tolower a = zend_str_tolower b \<Longrightarrow>
     yaf_application_is_module_name rt a = yaf_application_is_module_name rt b"
proof -
  assume a: "zend_str_tolower a = zend_str_tolower b"
  then have "length a = length b"
    by (metis length_zend_str_tolower)
  with a have "zend_string_equals_ci s a = zend_string_equals_ci s b" for s
    by (simp add: zend_string_equals_ci_def)
  then show ?thesis
    by (auto simp: yaf_application_is_module_name_def list_ex_iff split: option.splits zval.splits)
qed

section \<open>Files the engine compiles\<close>

text \<open>
  What \<open>zend_compile_file\<close> gives for a file: the code, if there is any, and what it noted in the
  file handle.  \<open>EG(included_files)\<close> is the list of the paths in the order they came in.
\<close>

record 'run compiled =
  cp_run :: "'run option" \<comment> \<open>the op array: what running it does\<close>
  cp_handle :: bool \<comment> \<open>\<open>handle.stream.handle\<close> is set\<close>
  cp_opened :: "string option" \<comment> \<open>\<open>opened_path\<close>\<close>

definition add_included :: "string \<Rightarrow> php_rt \<Rightarrow> php_rt" where
  "add_included path rt =
     (if path \<in> set (rt_included rt) then rt else rt\<lparr>rt_included := rt_included rt @ [path]\<rparr>)"

definition note_opened :: "string \<Rightarrow> 'run compiled \<Rightarrow> php_rt \<Rightarrow> php_rt" where
  \<comment> \<open>the path the engine opened is noted, else the one that was asked for\<close>
  "note_opened path c rt =
     (if cp_run c \<noteq> None \<and> cp_handle c
      then add_included (case cp_opened c of Some p \<Rightarrow> p | None \<Rightarrow> path) rt else rt)"

lemma add_included_set: "set (rt_included (add_included path rt)) = insert path (set (rt_included rt))"
  by (auto simp: add_included_def)

lemma add_included_frame [simp]:
  "rt_output (add_included p rt) = rt_output rt" "rt_g (add_included p rt) = rt_g rt"
  "rt_exception (add_included p rt) = rt_exception rt"
  by (simp_all add: add_included_def)

lemma note_opened_frame [simp]:
  "rt_output (note_opened p c rt) = rt_output rt" "rt_g (note_opened p c rt) = rt_g rt"
  "rt_exception (note_opened p c rt) = rt_exception rt"
  by (simp_all add: note_opened_def)

section \<open>A sample state\<close>

text \<open>
  The state of a request to an application with two modules, after request start; the
  concrete inputs of the development start from it.
\<close>

definition sample_app :: yaf_application where
  "sample_app =
     \<lparr>app_config = ZNull, app_running = False, app_environ = ''product'',
      app_modules = ZArray [(KInt 0, ZString ''Index''), (KInt 1, ZString ''Admin'')],
      app_err_no = 0, app_err_msg = []\<rparr>"

definition sample_rt :: php_rt where
  "sample_rt =
     \<lparr>rt_g = yaf_rinit yaf_ginit, rt_app = Some sample_app, rt_exception = None,
      rt_log = [], rt_output = [], rt_http = (\<lambda>_. []), rt_classes = [], rt_included = [],
      rt_errno = ''No such file or directory''\<rparr>"

lemma sample_modules:
  "yaf_application_is_module_name sample_rt ''Index''"
  "yaf_application_is_module_name sample_rt ''admin''"
  "\<not> yaf_application_is_module_name sample_rt ''blog''"
  by code_simp+

end
