(* ===== verification/Yaf_Config.thy ===== *)
theory Yaf_Config
  imports Yaf_Runtime
begin

text \<open>
  The configuration (\<open>yaf_config.c\<close>, \<open>configs/\<close>): reading an INI file with sections that
  inherit from each other, looking values up by dotted names, and the configuration made of
  an array.  The INI scanner of PHP is a parameter: it turns a file into a sequence of events,
  which the callbacks of the extension handle one by one.

  The callbacks share arrays between a section and the sections that inherit from it, and
  change some of them in place.  So an array of a configuration being read carries a number;
  arrays with the same number are one array in memory, and a change in place changes all of
  them.
\<close>

section \<open>Numbers in strings\<close>

definition is_space :: "char \<Rightarrow> bool" where
  "is_space c \<longleftrightarrow> c \<in> {CHR '' '', CHR 0x09, CHR 0x0A, CHR 0x0D, CHR 0x0B, CHR 0x0C}"

definition digit_of :: "char \<Rightarrow> nat" where
  \<comment> \<open>the value of a digit of any base, or one that no base has\<close>
  "digit_of c =
     (if is_digit c then of_char c - 48
      else let n = of_char (zend_tolower_ascii c) in if 97 \<le> n \<and> n \<le> 122 then n - 87 else 255)"

definition digits_val :: "int \<Rightarrow> string \<Rightarrow> int" where
  "digits_val base s = foldl (\<lambda>n c. n * base + int (digit_of c)) 0 s"

definition split_sign :: "string \<Rightarrow> bool \<times> string" where
  "split_sign s =
     (if chd s = CHR ''-'' then (True, tl s) else if chd s = CHR ''+'' then (False, tl s) else (False, s))"

definition is_numeric_long :: "string \<Rightarrow> zlong option" where
  \<comment> \<open>\<open>is_numeric_string\<close> where it answers \<open>IS_LONG\<close>\<close>
  "is_numeric_long s =
     (let t = dropWhile is_space s; (neg, d) = split_sign t; n = digits_val 10 d
      in if d = [] \<or> \<not> list_all is_digit d then None
         else if n < 2 ^ 63 \<or> (n = 2 ^ 63 \<and> neg)
              then Some (word_of_int (if neg then - n else n)) else None)"

definition strtol :: "nat \<Rightarrow> string \<Rightarrow> zlong" where
  \<comment> \<open>of the C library, with the base 0 that reads the prefixes; a value too large is clamped\<close>
  "strtol base s =
     (let (neg, d) = split_sign (dropWhile is_space s);
          hex = (chd d = CHR ''0'' \<and> zend_tolower_ascii (chd (tl d)) = CHR ''x'' \<and> digit_of (chd (tl (tl d))) < 16);
          b = (if base \<noteq> 0 then base else if hex then 16 else if chd d = CHR ''0'' then 8 else 10);
          ds = takeWhile (\<lambda>c. digit_of c < b) (if b = 16 \<and> hex then drop 2 d else d);
          n = digits_val (int b) ds
      in word_of_int (if neg then max (- (2 ^ 63)) (- n) else min (2 ^ 63 - 1) n))"

definition zend_atol :: "string \<Rightarrow> zlong" where
  "zend_atol s =
     (let n = strtol 0 (cstr s); u = (if s = [] then NUL else last s)
      in if u \<in> {CHR ''g'', CHR ''G''} then n * 1024 * 1024 * 1024
         else if u \<in> {CHR ''m'', CHR ''M''} then n * 1024 * 1024
         else if u \<in> {CHR ''k'', CHR ''K''} then n * 1024 else n)"

section \<open>Shared arrays\<close>

datatype cfg = CLeaf zval | CArr nat "(zkey \<times> cfg) list"

primrec erase :: "cfg \<Rightarrow> zval" where
  "erase (CLeaf v) = v"
| "erase (CArr t h) = ZArray (map (map_prod id erase) h)"

primrec in_place :: "nat \<Rightarrow> ((zkey \<times> cfg) list \<Rightarrow> (zkey \<times> cfg) list) \<Rightarrow> cfg \<Rightarrow> cfg" where
  \<comment> \<open>a change of the array with the number \<open>t\<close>, wherever it is referred to\<close>
  "in_place t f (CLeaf v) = CLeaf v"
| "in_place t f (CArr u h) = CArr u (if u = t then f h else map (map_prod id (in_place t f)) h)"

primrec find_table :: "nat \<Rightarrow> cfg \<Rightarrow> (zkey \<times> cfg) list option" where
  "find_table t (CLeaf v) = None"
| "find_table t (CArr u h) =
     (if u = t then Some h
      else case filter (\<lambda>e. snd e \<noteq> None) (map (map_prod id (find_table t)) h) of
             [] \<Rightarrow> None | e # _ \<Rightarrow> snd e)"

definition cfg_table :: "nat \<Rightarrow> cfg \<Rightarrow> (zkey \<times> cfg) list" where
  "cfg_table t root = (case find_table t root of Some h \<Rightarrow> h | None \<Rightarrow> [])"

section \<open>Inheritance\<close>

function yaf_deep_copy_section ::
    "nat \<Rightarrow> (zkey \<times> cfg) list \<Rightarrow> (zkey \<times> cfg) list \<Rightarrow> (zkey \<times> cfg) list \<times> nat" where
  \<comment> \<open>into \<open>dst\<close>; the first argument is the next free number.  Where both have an array, a new one
      takes the elements of the old one (the first recursive call of the code, into an empty
      array) and then those of the source; everything else is shared with the source.\<close>
  "yaf_deep_copy_section n dst [] = (dst, n)"
| "yaf_deep_copy_section n dst ((k, CLeaf v) # src) = yaf_deep_copy_section n (hupdate k (CLeaf v) dst) src"
| "yaf_deep_copy_section n dst ((k, CArr t sc) # src) =
     (case hfind dst k of
        Some (CArr u dc) \<Rightarrow>
          (case yaf_deep_copy_section (n + 1) (hcopy [] dc) sc of
             (h, n') \<Rightarrow> yaf_deep_copy_section n' (hupdate k (CArr n h) dst) src)
      | _ \<Rightarrow> yaf_deep_copy_section n (hupdate k (CArr t sc) dst) src)"
  by pat_completeness auto
termination
  by (relation "measure (\<lambda>(n, dst, src). size (CArr 0 src))") auto

section \<open>The callbacks\<close>

type_synonym cfg_tab = "(zkey \<times> cfg) list"

datatype ini_event =
    IniEntry string "zval option"
  | IniPop string "zval option" "string option"
  | IniSection string

datatype parsing_flag = PARSING_START | PARSING_PROCESS | PARSING_END

record ini_state =
  is_root :: cfg
  is_active :: nat \<comment> \<open>the array the entries go to: the active section, or the whole configuration\<close>
  is_flag :: parsing_flag
  is_wanted :: "string option"
  is_next :: nat

fun entry_assign :: "string list \<Rightarrow> zval \<Rightarrow> nat \<Rightarrow> cfg_tab \<Rightarrow> cfg_tab \<times> nat" where
  \<comment> \<open>the loop over the segments of a name; an array that is found is separated, so that it
      may be changed; a value does not take the place of an array\<close>
  "entry_assign [] v n h = (h, n)"
| "entry_assign [k] v n h =
     (case hfind h (symkey k) of
        Some (CArr t c) \<Rightarrow> (hupdate (symkey k) (CArr n c) h, n + 1)
      | _ \<Rightarrow> (hupdate (symkey k) (CLeaf v) h, n))"
| "entry_assign (k # k' # ks) v n h =
     (let c = (case hfind h (symkey k) of Some (CArr t c) \<Rightarrow> c | _ \<Rightarrow> []);
          (c', n') = entry_assign (k' # ks) v (n + 1) c
      in (hupdate (symkey k) (CArr n c') h, n'))"

definition ini_entry :: "string \<Rightarrow> zval \<Rightarrow> ini_state \<Rightarrow> ini_state" where
  "ini_entry key v s =
     (let h = cfg_table (is_active s) (is_root s);
          (h', n') = entry_assign (strtok_all ''.'' (Some (cstr key))) v (is_next s) h
      in s\<lparr>is_root := in_place (is_active s) (\<lambda>_. h') (is_root s), is_next := n'\<rparr>)"

definition new_array :: "nat \<Rightarrow> zkey \<Rightarrow> ini_state \<Rightarrow> nat \<times> ini_state" where
  \<comment> \<open>an empty array in a slot of the array \<open>t\<close>\<close>
  "new_array t k s =
     (is_next s, s\<lparr>is_root := in_place t (hupdate k (CArr (is_next s) [])) (is_root s),
                   is_next := is_next s + 1\<rparr>)"

fun pop_walk :: "zkey list \<Rightarrow> nat \<Rightarrow> ini_state \<Rightarrow> mem_error + (nat \<times> ini_state)" where
  \<comment> \<open>to the array an element is pushed to; nothing on the way is separated\<close>
  "pop_walk [] t s = Inr (t, s)"
| "pop_walk (k # ks) t s =
     (case hfind (cfg_table t (is_root s)) k of
        Some (CArr u _) \<Rightarrow> pop_walk ks u s
      | Some (CLeaf _) \<Rightarrow> if ks = [] then Inr (new_array t k s) else Inl WildRead
      | None \<Rightarrow> (case new_array t k s of (u, s') \<Rightarrow> pop_walk ks u s'))"

definition pop_path :: "string \<Rightarrow> zkey list" where
  "pop_path key =
     (if \<not> (length key > 1 \<and> hd key = CHR ''0'') \<and> is_numeric_long key \<noteq> None
      then [KInt (zend_atol key)]
      else map symkey (strtok_all ''.'' (Some (cstr key))))"

definition ini_pop :: "string \<Rightarrow> zval \<Rightarrow> string option \<Rightarrow> ini_state \<Rightarrow> mem_error + ini_state" where
  \<comment> \<open>a name without a segment is a null pointer for \<open>strlen\<close>\<close>
  "ini_pop key v index s =
     (if pop_path key = [] then Inl NullDeref
      else case pop_walk (pop_path key) (is_active s) s of
             Inl e \<Rightarrow> Inl e
           | Inr (t, s') \<Rightarrow>
               (let put = (case index of
                    Some i \<Rightarrow> if i \<noteq> [] then hupdate (symkey i) (CLeaf v) else happend (CLeaf v)
                  | None \<Rightarrow> happend (CLeaf v))
                in Inr (s'\<lparr>is_root := in_place t put (is_root s')\<rparr>)))"

subsection \<open>Sections\<close>

definition blank_colon :: "char \<Rightarrow> bool" where
  "blank_colon c \<longleftrightarrow> c = CHR '' '' \<or> c = CHR '':''"

definition rtrim :: "string \<Rightarrow> string" where
  "rtrim s = rev (dropWhile blank_colon (rev s))"

definition section_trim :: "string \<Rightarrow> mem_error + string" where
  \<comment> \<open>leading blanks, then trailing blanks and colons; the scan backwards has nothing that
      stops it in a name of blanks and colons only that does not start with a blank\<close>
  "section_trim key =
     (let t = dropWhile (\<lambda>c. c = CHR '' '') key
      in if length t \<le> 1 then Inr t
         else if list_all blank_colon t \<and> t = key then Inl OutOfBounds
         else Inr (rtrim t))"

function parent_names :: "string \<Rightarrow> string list" where
  \<comment> \<open>the names behind the first colon, the last one first\<close>
  "parent_names seg =
     (if CHR '':'' \<in> set seg
      then dropWhile blank_colon (rev (takeWhile (\<lambda>c. c \<noteq> CHR '':'') (rev seg)))
             # parent_names (rtrim (rev (tl (dropWhile (\<lambda>c. c \<noteq> CHR '':'') (rev seg)))))
      else [seg])"
  by pat_completeness auto
termination
proof (relation "measure length", goal_cases)
  case (2 seg)
  let ?d = "dropWhile (\<lambda>c. c \<noteq> CHR '':'') (rev seg)"
  have "?d \<noteq> []" using 2 by (auto simp: dropWhile_eq_Nil_conv)
  moreover have "length ?d \<le> length seg" by (metis length_dropWhile_le length_rev)
  moreover have "length (rtrim t) \<le> length t" for t
    by (metis length_dropWhile_le length_rev rtrim_def)
  ultimately show ?case
    by (metis (no_types, lifting) in_measure le_trans length_rev length_tl diff_less le_neq_implies_less
        length_greater_0_conv less_le_trans not_less zero_less_one)
qed simp

declare parent_names.simps [simp del]

definition section_split :: "string \<Rightarrow> string \<times> string list" where
  \<comment> \<open>the name of the section and the names it inherits from, in the order they are copied\<close>
  "section_split t =
     (if CHR '':'' \<in> set (cstr t)
      then (rtrim (takeWhile (\<lambda>c. c \<noteq> CHR '':'') (cstr t)),
            parent_names (dropWhile blank_colon (dropWhile (\<lambda>c. c \<noteq> CHR '':'') (cstr t))))
      else (t, []))"

fun copy_parents :: "cfg_tab \<Rightarrow> string list \<Rightarrow> nat \<Rightarrow> cfg_tab \<Rightarrow> mem_error + (cfg_tab \<times> nat)" where
  "copy_parents arr [] n active = Inr (active, n)"
| "copy_parents arr (p # ps) n active =
     (case hfind arr (symkey p) of
        None \<Rightarrow> copy_parents arr ps n active
      | Some (CLeaf _) \<Rightarrow> Inl WildRead
      | Some (CArr t h) \<Rightarrow>
          (case yaf_deep_copy_section n active h of (active', n') \<Rightarrow> copy_parents arr ps n' active'))"

definition ini_section :: "string \<Rightarrow> ini_state \<Rightarrow> mem_error + ini_state" where
  "ini_section key s =
     (if is_flag s = PARSING_PROCESS then Inr (s\<lparr>is_flag := PARSING_END\<rparr>)
      else case section_trim key of
             Inl e \<Rightarrow> Inl e
           | Inr t \<Rightarrow>
               (case section_split t of (name, parents) \<Rightarrow>
                 (case copy_parents (cfg_table 0 (is_root s)) parents (is_next s + 1) [] of
                    Inl e \<Rightarrow> Inl e
                  | Inr (h, n') \<Rightarrow>
                      (let found = (case is_wanted s of
                             Some w \<Rightarrow> length w = length name \<and> strncasecmp0 w name (length name)
                           | None \<Rightarrow> False)
                       in Inr (s\<lparr>is_root := in_place 0 (hupdate (symkey name) (CArr (is_next s) h)) (is_root s),
                                 is_active := is_next s, is_next := n',
                                 is_flag := (if found then PARSING_PROCESS else is_flag s)\<rparr>)))))"

definition yaf_config_ini_parser_cb :: "ini_event \<Rightarrow> ini_state \<Rightarrow> mem_error + ini_state" where
  "yaf_config_ini_parser_cb ev s =
     (if is_flag s = PARSING_END then Inr s
      else case ev of
             IniSection key \<Rightarrow> ini_section key s
           | IniEntry key v \<Rightarrow> (case v of None \<Rightarrow> Inr s | Some v \<Rightarrow> Inr (ini_entry key v s))
           | IniPop key v index \<Rightarrow> (case v of None \<Rightarrow> Inr s | Some v \<Rightarrow> ini_pop key v index s))"

fun ini_parse :: "ini_event list \<Rightarrow> ini_state \<Rightarrow> mem_error + ini_state" where
  "ini_parse [] s = Inr s"
| "ini_parse (ev # evs) s =
     (case yaf_config_ini_parser_cb ev s of Inl e \<Rightarrow> Inl e | Inr s' \<Rightarrow> ini_parse evs s')"

definition ini_start :: "string option \<Rightarrow> ini_state" where
  "ini_start wanted =
     \<lparr>is_root = CArr 0 [], is_active = 0, is_flag = PARSING_START, is_wanted = wanted, is_next = 1\<rparr>"

section \<open>Configuration objects\<close>

datatype config_class = ConfigIni | ConfigSimple

record yaf_config =
  cf_class :: config_class
  cf_config :: zval
  cf_readonly :: bool

datatype ini_file = NoFile | NotRegular | Unopenable | IniText "ini_event list option"

definition ini_result :: "string option \<Rightarrow> string \<Rightarrow> cfg \<Rightarrow> php_rt \<Rightarrow> mem_error + (zval option \<times> php_rt)" where
  \<comment> \<open>the whole configuration, or the section that was asked for, by its exact name\<close>
  "ini_result wanted file root rt =
     (case wanted of
        None \<Rightarrow> Inr (Some (erase root), rt)
      | Some w \<Rightarrow>
          (case hfind (cfg_table 0 root) (symkey w) of
             None \<Rightarrow> Inr (None, yaf_trigger_error E_ERROR
                        (''There is no section '' @ quoted (cstr w) @ '' in '' @ quoted (cstr file)) rt)
           | Some (CLeaf _) \<Rightarrow> Inl WildRead
           | Some c \<Rightarrow> Inr (Some (erase c), rt)))"

definition yaf_config_ini_instance ::
    "(string \<Rightarrow> ini_file) \<Rightarrow> zval \<Rightarrow> zval option \<Rightarrow> php_rt \<Rightarrow> mem_error + (yaf_config option \<times> php_rt)" where
  \<comment> \<open>a regular file that cannot be opened leaves the table that is read next undefined\<close>
  "yaf_config_ini_instance files filename section rt =
     (let wanted = (case section of Some (ZString w) \<Rightarrow> if w = [] then None else Some w | _ \<Rightarrow> None);
          make = (\<lambda>v. \<lparr>cf_class = ConfigIni, cf_config = v, cf_readonly = True\<rparr>);
          fail = (\<lambda>msg. Inr (None, yaf_trigger_error E_ERROR msg rt))
      in case filename of
           ZArray h \<Rightarrow> Inr (Some (make (ZArray h)), rt)
         | ZString f \<Rightarrow>
             (case files (cstr f) of
                NoFile \<Rightarrow> fail (''Unable to find config file '' @ quoted (cstr f))
              | NotRegular \<Rightarrow> fail (''Argument is not a valid ini file '' @ quoted (cstr f))
              | Unopenable \<Rightarrow> Inl WildRead
              | IniText None \<Rightarrow> fail (''Parsing ini file '' @ quoted (cstr f) @ '' failed'')
              | IniText (Some evs) \<Rightarrow>
                  (case ini_parse evs (ini_start wanted) of
                     Inl e \<Rightarrow> Inl e
                   | Inr s \<Rightarrow>
                       (case ini_result wanted f (is_root s) rt of
                          Inl e \<Rightarrow> Inl e
                        | Inr (v, rt') \<Rightarrow> Inr (map_option make v, rt'))))
         | _ \<Rightarrow> Inr (None, yaf_trigger_error ERR_TYPE_ERROR
                     ''Invalid parameters provided, must be path of ini file'' rt))"

datatype config_value = CfgSelf | CfgNull | CfgFalse | CfgObject yaf_config | CfgValue zval

definition found_value :: "yaf_config \<Rightarrow> zval \<Rightarrow> config_value" where
  \<comment> \<open>an array comes back as a configuration of the same kind\<close>
  "found_value cf v = (case v of ZArray h \<Rightarrow> CfgObject (cf\<lparr>cf_config := v\<rparr>) | _ \<Rightarrow> CfgValue v)"

definition config_key :: "string \<Rightarrow> zkey" where
  \<comment> \<open>how the names of a lookup are turned to keys\<close>
  "config_key name = (case is_numeric_long name of Some i \<Rightarrow> KInt i | None \<Rightarrow> KStr name)"

fun ini_walk :: "string list \<Rightarrow> zval \<Rightarrow> mem_error + zval option" where
  \<comment> \<open>a value that is no array is read as one where another segment follows\<close>
  "ini_walk [] v = Inr (Some v)"
| "ini_walk (k # ks) (ZArray h) =
     (case hfind h (config_key k) of None \<Rightarrow> Inr None | Some v \<Rightarrow> ini_walk ks v)"
| "ini_walk (k # ks) v = Inl WildRead"

definition config_ini_get :: "yaf_config \<Rightarrow> string option \<Rightarrow> mem_error + config_value" where
  "config_ini_get cf name =
     (case name of
        None \<Rightarrow> Inr CfgSelf
      | Some n \<Rightarrow>
          (case cf_config cf of
             ZArray h \<Rightarrow>
               (let segs = (if CHR ''.'' \<in> set (cstr n) then strtok_all ''.'' (Some (cstr n)) else [n])
                in if segs = [] then Inl WildRead
                   else case ini_walk segs (ZArray h) of
                          Inl e \<Rightarrow> Inl e
                        | Inr None \<Rightarrow> Inr CfgNull
                        | Inr (Some v) \<Rightarrow> Inr (found_value cf v))
           | _ \<Rightarrow> Inr CfgNull))"

definition config_isset :: "yaf_config \<Rightarrow> string \<Rightarrow> mem_error + bool" where
  "config_isset cf name =
     (case cf_config cf of ZArray h \<Rightarrow> Inr (hexists h (KStr name)) | _ \<Rightarrow> Inl WildRead)"

definition config_count :: "yaf_config \<Rightarrow> mem_error + nat" where
  "config_count cf = (case cf_config cf of ZArray h \<Rightarrow> Inr (length h) | _ \<Rightarrow> Inl WildRead)"

definition config_ini_set :: "php_rt \<Rightarrow> bool \<times> php_rt" where
  "config_ini_set rt = (False, php_error_docref (EWarning ''Yaf_Config_Ini is readonly'') rt)"

subsection \<open>Arrays\<close>

definition yaf_config_simple_instance ::
    "zval \<Rightarrow> zval option \<Rightarrow> php_rt \<Rightarrow> yaf_config option \<times> php_rt" where
  \<comment> \<open>without the second argument the declared default, not read-only, stays\<close>
  "yaf_config_simple_instance v readonly rt =
     (case v of
        ZArray h \<Rightarrow> (Some \<lparr>cf_class = ConfigSimple, cf_config = v,
            cf_readonly = (case readonly of Some r \<Rightarrow> zend_is_true r | None \<Rightarrow> False)\<rparr>, rt)
      | _ \<Rightarrow> (None, yaf_trigger_error ERR_TYPE_ERROR ''Invalid parameters provided, must be an array'' rt))"

definition config_simple_get :: "yaf_config \<Rightarrow> string option \<Rightarrow> mem_error + config_value" where
  "config_simple_get cf name =
     (case name of
        None \<Rightarrow> Inr CfgSelf
      | Some n \<Rightarrow>
          (case cf_config cf of
             ZArray h \<Rightarrow>
               (case hfind h (config_key n) of
                  None \<Rightarrow> Inr CfgFalse
                | Some v \<Rightarrow> Inr (found_value cf v))
           | _ \<Rightarrow> Inl WildRead))"

definition config_simple_set :: "string \<Rightarrow> zval \<Rightarrow> yaf_config \<Rightarrow> mem_error + (bool \<times> yaf_config)" where
  "config_simple_set name v cf =
     (if cf_readonly cf then Inr (False, cf)
      else case cf_config cf of
             ZArray h \<Rightarrow> Inr (True, cf\<lparr>cf_config := ZArray (hupdate (KStr name) v h)\<rparr>)
           | _ \<Rightarrow> Inl WildRead)"

definition config_simple_unset :: "string \<Rightarrow> yaf_config \<Rightarrow> bool \<times> yaf_config" where
  "config_simple_unset name cf =
     (if cf_readonly cf then (False, cf)
      else case cf_config cf of
             ZArray h \<Rightarrow>
               if hexists h (KStr name) then (True, cf\<lparr>cf_config := ZArray (hdel (KStr name) h)\<rparr>)
               else (False, cf)
           | _ \<Rightarrow> (False, cf))"

definition yaf_config_instance ::
    "(string \<Rightarrow> ini_file) \<Rightarrow> zval \<Rightarrow> zval option \<Rightarrow> php_rt \<Rightarrow> mem_error + (yaf_config option \<times> php_rt)" where
  \<comment> \<open>the bytes in front of a short string are the high bytes of its length, which are zero\<close>
  "yaf_config_instance files arg1 arg2 rt =
     (case arg1 of
        ZString f \<Rightarrow>
          if length f \<ge> 3 \<and> strncasecmp0 (drop (length f - 3) f) ''ini'' 3
          then yaf_config_ini_instance files arg1 arg2 rt
          else Inr (None, yaf_trigger_error ERR_TYPE_ERROR
                 ''Expects a path to *.ini configuration file as parameter'' rt)
      | ZArray h \<Rightarrow> Inr (yaf_config_simple_instance arg1 (Some ZTrue) rt)
      | _ \<Rightarrow> Inr (None, yaf_trigger_error ERR_TYPE_ERROR ''Expects a string or an array as parameter'' rt))"

section \<open>Paths through a configuration\<close>

fun leaf_at :: "zkey list \<Rightarrow> cfg \<Rightarrow> zval option" where
  "leaf_at [] (CLeaf v) = Some v"
| "leaf_at [] (CArr t h) = None"
| "leaf_at (k # ks) (CLeaf v) = None"
| "leaf_at (k # ks) (CArr t h) = (case hfind h k of None \<Rightarrow> None | Some c \<Rightarrow> leaf_at ks c)"

fun array_at :: "zkey list \<Rightarrow> cfg \<Rightarrow> bool" where
  "array_at [] (CLeaf v) = False"
| "array_at [] (CArr t h) = True"
| "array_at (k # ks) (CLeaf v) = False"
| "array_at (k # ks) (CArr t h) = (case hfind h k of None \<Rightarrow> False | Some c \<Rightarrow> array_at ks c)"

fun silent_at :: "zkey list \<Rightarrow> cfg \<Rightarrow> bool" where
  \<comment> \<open>the path leaves the configuration at an array that does not have its next key\<close>
  "silent_at [] c = False"
| "silent_at (k # ks) (CLeaf v) = False"
| "silent_at (k # ks) (CArr t h) = (case hfind h k of None \<Rightarrow> True | Some c \<Rightarrow> silent_at ks c)"

lemma silent_at_leaf [simp]: "\<not> silent_at ks (CLeaf v)"
  by (cases ks) simp_all

lemma silent_no_leaf: "silent_at ks c \<Longrightarrow> leaf_at ks c = None"
  by (induction ks c rule: silent_at.induct) (auto split: option.splits)

lemma silent_no_leaf_over:
  "silent_at ks c \<Longrightarrow> \<forall>u dc. x \<noteq> CArr u dc \<Longrightarrow> leaf_at ks c = leaf_at ks x"
  by (cases ks; cases x) (auto dest: silent_no_leaf)

primrec cfg_wf :: "cfg \<Rightarrow> bool" where
  "cfg_wf (CLeaf v) = True"
| "cfg_wf (CArr t h) = (hwf h \<and> list_all snd (map (map_prod id cfg_wf) h))"

lemma cfg_wf_arr: "cfg_wf (CArr t h) \<longleftrightarrow> hwf h \<and> (\<forall>(k, c) \<in> set h. cfg_wf c)"
  by (auto simp: list_all_iff)

lemma cfg_wf_hfind: "cfg_wf (CArr t h) \<Longrightarrow> hfind h k = Some c \<Longrightarrow> cfg_wf c"
  unfolding cfg_wf_arr hfind_def by (auto dest: map_of_SomeD)

lemma set_hupdate: "set (hupdate k v h) \<subseteq> insert (k, v) (set h)"
  by (induction k v h rule: hupdate.induct) auto

lemma cfg_wf_hupdate: "cfg_wf (CArr t h) \<Longrightarrow> cfg_wf c \<Longrightarrow> cfg_wf (CArr t (hupdate k c h))"
  using set_hupdate [of k c h] unfolding cfg_wf_arr by auto

lemma cfg_wf_Cons: "cfg_wf (CArr t ((k, c) # h)) \<longleftrightarrow> hfind h k = None \<and> cfg_wf c \<and> cfg_wf (CArr t h)"
  unfolding cfg_wf_arr by (auto simp: hwf_def hfind_def map_of_eq_None_iff image_iff)

lemma cfg_wf_tag: "cfg_wf (CArr t h) \<Longrightarrow> cfg_wf (CArr u h)"
  by simp

declare cfg_wf.simps(2) [simp del]

subsection \<open>A section over the sections it inherits from\<close>

lemma deep_copy_merge:
  "hfind dst k = Some (CArr u dc) \<Longrightarrow> yaf_deep_copy_section (n + 1) (hcopy [] dc) sc = (h, n') \<Longrightarrow>
     yaf_deep_copy_section n dst ((k, CArr t sc) # src)
       = yaf_deep_copy_section n' (hupdate k (CArr n h) dst) src"
  by simp

lemma deep_copy_share:
  "\<nexists>u dc. hfind dst k = Some (CArr u dc) \<Longrightarrow>
     yaf_deep_copy_section n dst ((k, CArr t sc) # src)
       = yaf_deep_copy_section n (hupdate k (CArr t sc) dst) src"
  by (auto split: option.split cfg.split)

lemma deep_copy_induct:
  assumes "\<And>n dst. P n dst []"
    and "\<And>n dst k v src. P n (hupdate k (CLeaf v) dst) src \<Longrightarrow> P n dst ((k, CLeaf v) # src)"
    and "\<And>n dst k t sc src u dc h n'. hfind dst k = Some (CArr u dc) \<Longrightarrow> P (n + 1) (hcopy [] dc) sc \<Longrightarrow>
      yaf_deep_copy_section (n + 1) (hcopy [] dc) sc = (h, n') \<Longrightarrow>
      P n' (hupdate k (CArr n h) dst) src \<Longrightarrow> P n dst ((k, CArr t sc) # src)"
    and "\<And>n dst k t sc src. \<nexists>u dc. hfind dst k = Some (CArr u dc) \<Longrightarrow>
      P n (hupdate k (CArr t sc) dst) src \<Longrightarrow> P n dst ((k, CArr t sc) # src)"
  shows "P n dst src"
proof (induction n dst src rule: yaf_deep_copy_section.induct)
  case (3 n dst k t sc src)
  show ?case
  proof (cases "\<exists>u dc. hfind dst k = Some (CArr u dc)")
    case True
    then obtain u dc where d: "hfind dst k = Some (CArr u dc)" by blast
    obtain h n' where h: "yaf_deep_copy_section (n + 1) (hcopy [] dc) sc = (h, n')" by fastforce
    show ?thesis using assms(3) [OF d _ h] 3(3) [OF d refl] 3(4) [OF d refl h [symmetric]] by simp
  next
    case False
    have "P n (hupdate k (CArr t sc) dst) src"
      using False 3(1,2) by (metis cfg.exhaust option.exhaust)
    with False show ?thesis by (rule assms(4))
  qed
qed (rule assms; assumption)+

lemma deep_copy_wf:
  "cfg_wf (CArr 0 dst) \<Longrightarrow> cfg_wf (CArr 0 src) \<Longrightarrow>
     cfg_wf (CArr 0 (fst (yaf_deep_copy_section n dst src)))"
proof (induction n dst src rule: deep_copy_induct)
  case (3 n dst k t sc src u dc h n')
  have dc: "cfg_wf (CArr 0 dc)" using cfg_wf_hfind [OF "3.prems"(1) "3.hyps"(1)] by (rule cfg_wf_tag)
  then have copy: "hcopy [] dc = dc" by (simp add: cfg_wf_arr hcopy_Nil)
  have "cfg_wf (CArr 0 h)"
    using "3.hyps"(2) "3.IH"(1) "3.prems"(2) dc by (auto simp: copy cfg_wf_Cons intro: cfg_wf_tag)
  then have "cfg_wf (CArr 0 (hupdate k (CArr n h) dst))"
    using "3.prems"(1) by (intro cfg_wf_hupdate) (auto intro: cfg_wf_tag)
  with 3 show ?case by (simp only: deep_copy_merge [OF "3.hyps"(1,2)] cfg_wf_Cons)
next
  case (4 n dst k t sc src)
  then show ?case by (simp only: deep_copy_share [OF "4.hyps"(1)] cfg_wf_Cons) (auto intro: cfg_wf_hupdate)
qed (simp_all add: cfg_wf_Cons cfg_wf_hupdate)

text \<open>
  The copied section wins, at every depth: behind the copy a path leads to what the source says
  there, or, where the source leaves it open, to what was there before; a value stands in the
  place of an array as an array does in the place of a value.
\<close>

theorem deep_copy_inherits:
  assumes "cfg_wf (CArr 0 dst)" "cfg_wf (CArr 0 src)"
  shows "leaf_at ks (CArr t (fst (yaf_deep_copy_section n dst src))) =
    (if silent_at ks (CArr t src) then leaf_at ks (CArr t dst) else leaf_at ks (CArr t src))"
  using assms
proof (induction n dst src arbitrary: ks t rule: deep_copy_induct)
  case (1 n dst)
  then show ?case by (cases ks) simp_all
next
  case (2 n dst k v src)
  then show ?case
    by (cases ks) (auto simp: cfg_wf_Cons cfg_wf_hupdate split: option.split)
next
  case (3 n dst k u' sc src u dc h n')
  have dc: "cfg_wf (CArr 0 dc)" using cfg_wf_hfind [OF "3.prems"(1) "3.hyps"(1)] by (rule cfg_wf_tag)
  then have copy: "hcopy [] dc = dc" by (simp add: cfg_wf_arr hcopy_Nil)
  have sc: "cfg_wf (CArr 0 sc)" "cfg_wf (CArr 0 src)" "hfind src k = None"
    using "3.prems"(2) by (auto simp: cfg_wf_Cons intro: cfg_wf_tag)
  have inner: "leaf_at ks (CArr t h) =
      (if silent_at ks (CArr t sc) then leaf_at ks (CArr t dc) else leaf_at ks (CArr t sc))" for ks t
    using "3.IH"(1) [of ks t] dc sc(1) unfolding copy "3.hyps"(2) [unfolded copy] fst_conv by blast
  have "cfg_wf (CArr 0 h)"
    using deep_copy_wf [OF dc sc(1), of "n + 1"] "3.hyps"(2) by (simp add: copy)
  then have "cfg_wf (CArr 0 (hupdate k (CArr n h) dst))"
    using "3.prems"(1) by (intro cfg_wf_hupdate) (auto intro: cfg_wf_tag)
  note IH = "3.IH"(2) [OF this sc(2)]
  have tag: "leaf_at ks (CArr a x) = leaf_at ks (CArr b x)" "silent_at ks (CArr a x) = silent_at ks (CArr b x)"
    for ks a b x by (cases ks; simp)+
  have inner: "leaf_at ks (CArr n h) =
      (if silent_at ks (CArr u' sc) then leaf_at ks (CArr u dc) else leaf_at ks (CArr u' sc))" for ks
    using inner [of ks 0] by (metis tag)
  show ?case
    unfolding deep_copy_merge [OF "3.hyps"(1,2)] IH
    using sc(3) "3.hyps"(1) inner by (cases ks) (auto split: option.split)
next
  case (4 n dst k u' sc src)
  then show ?case
    unfolding deep_copy_share [OF "4.hyps"(1)]
    by (cases ks)
      (auto simp: cfg_wf_Cons cfg_wf_hupdate split: option.split dest: silent_no_leaf,
        metis silent_no_leaf_over)
qed

end
