(* ===== verification/Yaf_Config_Read.thy ===== *)
theory Yaf_Config_Read
  imports Yaf_Config
begin

text \<open>
  What reading and looking up a configuration guarantees: where an entry puts its value, that
  a lookup by the same name finds it, that the entries of a section stay inside the section,
  and how an array entry leaves it.
\<close>

section \<open>An entry\<close>

lemma leaf_at_tag: "leaf_at ks (CArr a h) = leaf_at ks (CArr b h)"
  by (cases ks) simp_all

lemma array_at_tag: "array_at ks (CArr a h) = array_at ks (CArr b h)"
  by (cases ks) simp_all

lemma leaf_at_empty [simp]: "leaf_at ks (CArr t []) = None"
  by (cases ks) simp_all

lemma array_at_empty [simp]: "array_at ks (CArr t []) \<longleftrightarrow> ks = []"
  by (cases ks) simp_all

definition entry_paths :: "zkey list \<Rightarrow> zval \<Rightarrow> cfg \<Rightarrow> zkey list \<Rightarrow> zval option" where
  \<comment> \<open>the values behind all paths, once \<open>v\<close> is assigned to the path \<open>p\<close>\<close>
  "entry_paths p v c ks =
     (if array_at p c \<and> prefix p ks then leaf_at ks c
      else if ks = p then Some v
      else if prefix p ks \<or> prefix ks p then None
      else leaf_at ks c)"

lemma entry_paths_Cons:
  assumes "p \<noteq> []" "c = CArr t (case hfind h k of Some (CArr u d) \<Rightarrow> d | _ \<Rightarrow> [])"
  shows "entry_paths (k # p) v (CArr t h) (k' # ks) =
    (if k' = k then entry_paths p v c ks else case hfind h k' of None \<Rightarrow> None | Some d \<Rightarrow> leaf_at ks d)"
proof -
  have "leaf_at ks c = (case hfind h k of None \<Rightarrow> None | Some d \<Rightarrow> leaf_at ks d)" if "ks \<noteq> []"
    using that assms(2) by (cases ks) (auto split: option.split cfg.split)
  moreover have "array_at p c = (case hfind h k of None \<Rightarrow> False | Some d \<Rightarrow> array_at p d)"
    using assms by (cases p) (auto split: option.split cfg.split)
  ultimately show ?thesis
    using assms(1) by (cases "ks = []") (auto simp: entry_paths_def)
qed

lemma entry_assign_paths:
  "segs \<noteq> [] \<Longrightarrow>
     leaf_at ks (CArr t (fst (entry_assign segs v n h))) = entry_paths (map symkey segs) v (CArr t h) ks"
proof (induction segs v n h arbitrary: ks t rule: entry_assign.induct)
  case (2 k v n h)
  show ?case
  proof (cases ks)
    case (Cons k' ks')
    then show ?thesis
      by (auto simp: entry_paths_def leaf_at_tag [of ks'] split: option.split cfg.split)
        (cases ks'; simp)+
  qed (simp add: entry_paths_def)
next
  case (3 k k' ks0 v n h)
  let ?c = "case hfind h (symkey k) of Some (CArr u c) \<Rightarrow> c | _ \<Rightarrow> []"
  show ?case
  proof (cases ks)
    case (Cons j js)
    have "leaf_at js (CArr n (fst (entry_assign (k' # ks0) v (n + 1) ?c)))
        = entry_paths (map symkey (k' # ks0)) v (CArr t ?c) js"
      using "3.IH" [OF refl, of js t] by (simp add: leaf_at_tag [of js n _ t])
    then show ?thesis
      using entry_paths_Cons [of "map symkey (k' # ks0)" "CArr t ?c" t h "symkey k" v j js]
      by (simp add: Cons Let_def split_beta)
  qed (simp add: entry_paths_def Let_def split_beta)
qed simp

text \<open>
  C24: An entry \<open>a.b.c = v\<close> of the file puts its value behind the path of the segments of its
  name and nowhere else: arrays are made on the way where there are none, values that stand in
  the way are dropped, every other path keeps its value; only an array at the very place stays
  as it is, and the value is lost.
\<close>

theorem entry_assign_sets:
  assumes "segs \<noteq> []"
  shows "leaf_at ks (CArr t (fst (entry_assign segs v n h))) =
    (let p = map symkey segs
     in if array_at p (CArr t h) \<and> prefix p ks then leaf_at ks (CArr t h)
        else if ks = p then Some v
        else if prefix p ks \<or> prefix ks p then None
        else leaf_at ks (CArr t h))"
  using entry_assign_paths [OF assms] by (simp add: entry_paths_def Let_def)

lemma entry_assign_sets_witness:
  "leaf_at [KStr ''db'', KStr ''port''] (CArr 0 (fst (entry_assign [''db'', ''host''] ZTrue 9
      [(KStr ''db'', CArr 1 [(KStr ''port'', CLeaf (ZLong 3306))])]))) = Some (ZLong 3306)"
  using entry_assign_sets [of "[''db'', ''host'']" "[KStr ''db'', KStr ''port'']" 0 ZTrue 9
      "[(KStr ''db'', CArr 1 [(KStr ''port'', CLeaf (ZLong 3306))])]"]
  by (simp add: symkey_nondigit chd_def is_digit_def)

section \<open>A lookup\<close>

lemma hfind_erase: "hfind (map (map_prod id f) h) k = map_option f (hfind h k)"
  by (induction h) auto

lemma ini_walk_leaf:
  "leaf_at ks c = Some v \<Longrightarrow> map config_key segs = ks \<Longrightarrow> ini_walk segs (erase c) = Inr (Some v)"
proof (induction segs arbitrary: ks c)
  case Nil
  then show ?case by (cases c) auto
next
  case (Cons s segs)
  then show ?case by (cases c) (auto simp: hfind_erase split: option.splits)
qed

definition name_segments :: "string \<Rightarrow> string list" where
  "name_segments key = strtok_all ''.'' (Some (cstr key))"

lemma name_segments_single: "key \<noteq> [] \<Longrightarrow> NUL \<notin> set key \<Longrightarrow> CHR ''.'' \<notin> set key \<Longrightarrow> name_segments key = [key]"
  using strtok_all_join [of "[key]" "CHR ''.''"] by (simp add: name_segments_def)

text \<open>
  C16: What an entry of the file assigns is what \<open>get\<close> with the name of the entry returns, also
  through several levels, if there was no array at that place and no segment of the name is a
  number for one of the two rules (\<open>zend_symtable\<close> in the reader, \<open>is_numeric_string\<close> in the
  lookup) and not for the other.
\<close>

theorem ini_entry_get:
  assumes "name_segments key \<noteq> []" "NUL \<notin> set key"
    and "\<forall>seg \<in> set (name_segments key). config_key seg = symkey seg"
    and "\<not> array_at (map symkey (name_segments key)) (CArr t h)"
    and "cf_config cf = erase (CArr t (fst (entry_assign (name_segments key) v n h)))"
  shows "config_ini_get cf (Some key) = Inr (found_value cf v)"
proof -
  let ?c = "CArr t (fst (entry_assign (name_segments key) v n h))"
  have keys: "map config_key (name_segments key) = map symkey (name_segments key)"
    using assms(3) by simp
  have "leaf_at (map symkey (name_segments key)) ?c = Some v"
    using assms(4) by (simp add: entry_assign_paths [OF assms(1)] entry_paths_def)
  then have walk: "ini_walk (name_segments key) (erase ?c) = Inr (Some v)"
    using keys by (rule ini_walk_leaf)
  have segs: "(if CHR ''.'' \<in> set (cstr key) then strtok_all ''.'' (Some (cstr key)) else [key]) = name_segments key"
    using assms(1,2) name_segments_single [of key]
    by (cases "key = []") (auto simp: name_segments_def strtok_all.simps)
  show ?thesis
    using assms(1,5) walk segs by (simp add: config_ini_get_def del: entry_assign.simps)
qed

definition sample_config :: yaf_config where
  "sample_config =
     \<lparr>cf_class = ConfigIni,
      cf_config = erase (CArr 0 (fst (entry_assign (name_segments ''db.host'') (ZString ''local'') 1 []))),
      cf_readonly = True\<rparr>"

lemma ini_entry_get_witness:
  "config_ini_get sample_config (Some ''db.host'') = Inr (CfgValue (ZString ''local''))"
proof -
  have segs: "name_segments ''db.host'' = [''db'', ''host'']" by code_simp
  have keys: "config_key ''db'' = symkey ''db''" "config_key ''host'' = symkey ''host''" by code_simp+
  have "config_ini_get sample_config (Some ''db.host'') = Inr (found_value sample_config (ZString ''local''))"
    by (rule ini_entry_get [where t = 0 and h = "[]" and n = 1 and v = "ZString ''local''"])
      (simp_all add: segs keys sample_config_def del: entry_assign.simps)
  then show ?thesis by (simp add: found_value_def)
qed

text \<open>Where the rules differ, the value is not found.\<close>

lemma leading_zero_lost:
  "config_ini_get \<lparr>cf_class = ConfigIni,
     cf_config = erase (CArr 0 (fst (entry_assign (name_segments ''01'') v 1 []))),
     cf_readonly = True\<rparr> (Some ''01'') = Inr CfgNull"
proof -
  have segs: "name_segments ''01'' = [''01'']" by code_simp
  have "is_numeric_long ''01'' = Some 1" by code_simp
  then have keys: "config_key ''01'' = KInt 1" "symkey ''01'' = KStr ''01''"
    by (simp add: config_key_def) code_simp
  have str: "CHR ''.'' \<notin> set (cstr ''01'')" by (simp add: cstr_def)
  have e: "entry_assign (name_segments ''01'') v 1 [] = ([(KStr ''01'', CLeaf v)], 1)"
    by (simp only: segs entry_assign.simps hfind_Nil option.case hupdate.simps keys)
  have walk: "ini_walk [''01''] (ZArray [(KStr ''01'', v)]) = Inr None"
    by (simp only: ini_walk.simps keys hfind_Cons hfind_Nil zkey.distinct option.case if_False)
  show ?thesis
    unfolding config_ini_get_def e by (simp only: fst_conv erase.simps list.map map_prod_simp id_apply
        yaf_config.simps option.case zval.case str Let_def if_False walk sum.case list.distinct)
qed

section \<open>The numbers of the arrays\<close>

primrec tags :: "cfg \<Rightarrow> nat set" where
  "tags (CLeaf v) = {}"
| "tags (CArr t h) = insert t (\<Union>(snd ` set (map (map_prod id tags) h)))"

definition inner_tags :: "cfg_tab \<Rightarrow> nat set" where
  "inner_tags h = (\<Union>e \<in> set h. tags (snd e))"

lemma tags_CArr: "tags (CArr t h) = insert t (inner_tags h)"
  by (auto simp: inner_tags_def)

declare tags.simps(2) [simp del]

lemma inner_tags_simps [simp]:
  "inner_tags [] = {}" "inner_tags ((k, c) # h) = tags c \<union> inner_tags h"
  by (auto simp: inner_tags_def)

lemma inner_tags_hfind: "hfind h k = Some c \<Longrightarrow> tags c \<subseteq> inner_tags h"
  by (induction h) (auto split: if_splits)

lemma inner_tags_hupdate: "inner_tags (hupdate k c h) \<subseteq> tags c \<union> inner_tags h"
  by (induction k c h rule: hupdate.induct) auto

lemma in_place_fresh: "t \<notin> tags c \<Longrightarrow> in_place t f c = c"
proof (induction c)
  case (CArr u h)
  then have "map (map_prod id (in_place t f)) h = h"
    by (intro map_idI) (fastforce simp: tags_CArr inner_tags_def)
  with CArr.prems show ?case by (simp add: tags_CArr)
qed simp

lemma find_table_fresh: "t \<notin> tags c \<Longrightarrow> find_table t c = None"
proof (induction c)
  case (CArr u h)
  then have "filter (\<lambda>e. snd e \<noteq> None) (map (map_prod id (find_table t)) h) = []"
    by (fastforce simp: filter_empty_conv tags_CArr inner_tags_def)
  with CArr.prems show ?case by (simp add: tags_CArr)
qed simp

definition numbered :: "ini_state \<Rightarrow> bool" where
  \<comment> \<open>the whole configuration is the array 0 and nothing in it is, and the next number is free\<close>
  "numbered s \<longleftrightarrow>
     (\<exists>h. is_root s = CArr 0 h \<and> 0 \<notin> inner_tags h \<and> (\<forall>t \<in> inner_tags h. t < is_next s) \<and> 0 < is_next s)"

definition section_alone :: "zkey \<Rightarrow> ini_state \<Rightarrow> bool" where
  \<comment> \<open>the array the entries go to is that of one section only\<close>
  "section_alone k s \<longleftrightarrow>
     (\<exists>l a r. is_root s = CArr 0 (l @ (k, CArr (is_active s) a) # r) \<and> is_active s \<noteq> 0
        \<and> is_active s < is_next s
        \<and> is_active s \<notin> inner_tags l \<union> inner_tags a \<union> inner_tags r)"

lemma inner_tags_append [simp]: "inner_tags (a @ b) = inner_tags a \<union> inner_tags b"
  by (auto simp: inner_tags_def)

lemma in_place_list: "t \<notin> inner_tags h \<Longrightarrow> map (map_prod id (in_place t f)) h = h"
  by (intro map_idI) (auto simp: inner_tags_def in_place_fresh)

lemma find_table_list:
  "t \<notin> inner_tags h \<Longrightarrow> filter (\<lambda>e. \<exists>y. snd e = Some y) (map (map_prod id (find_table t)) h) = []"
  by (auto simp: filter_empty_conv inner_tags_def find_table_fresh)

lemma cfg_table_alone:
  "t \<noteq> 0 \<Longrightarrow> t \<notin> inner_tags l \<Longrightarrow> cfg_table t (CArr 0 (l @ (k, CArr t a) # r)) = a"
  by (simp add: cfg_table_def find_table_list)

lemma entry_assign_tags:
  "case entry_assign segs v n h of (h', n') \<Rightarrow> n \<le> n' \<and> inner_tags h' \<subseteq> inner_tags h \<union> {n..<n'}"
proof (induction segs v n h rule: entry_assign.induct)
  case (2 k v n h)
  show ?case
  proof (cases "\<exists>u c. hfind h (symkey k) = Some (CArr u c)")
    case True
    then obtain u c where u: "hfind h (symkey k) = Some (CArr u c)" by blast
    then have "inner_tags (hupdate (symkey k) (CArr n c) h) \<subseteq> insert n (inner_tags h)"
      using inner_tags_hupdate [of "symkey k" "CArr n c" h] inner_tags_hfind [OF u] by (auto simp: tags_CArr)
    with u show ?thesis by auto
  next
    case False
    then have "entry_assign [k] v n h = (hupdate (symkey k) (CLeaf v) h, n)"
      by (auto split: option.split cfg.split)
    with inner_tags_hupdate [of "symkey k" "CLeaf v" h] show ?thesis by simp
  qed
next
  case (3 k k' ks v n h)
  let ?c = "case hfind h (symkey k) of Some (CArr u c) \<Rightarrow> c | _ \<Rightarrow> []"
  obtain c' n' where e: "entry_assign (k' # ks) v (n + 1) ?c = (c', n')" by fastforce
  have "inner_tags ?c \<subseteq> inner_tags h"
    using inner_tags_hfind [of h "symkey k"] by (auto split: option.split cfg.split simp: tags_CArr)
  moreover have "n + 1 \<le> n'" "inner_tags c' \<subseteq> inner_tags ?c \<union> {n + 1..<n'}"
    using "3.IH" [OF refl] unfolding e by simp_all
  moreover have "inner_tags (hupdate (symkey k) (CArr n c') h) \<subseteq> insert n (inner_tags c' \<union> inner_tags h)"
    using inner_tags_hupdate [of "symkey k" "CArr n c'" h] by (auto simp: tags_CArr)
  ultimately have "inner_tags (hupdate (symkey k) (CArr n c') h) \<subseteq> inner_tags h \<union> {n..<n'}" "n \<le> n'"
    by fastforce+
  then show ?case unfolding entry_assign.simps Let_def e by simp
qed simp

lemma deep_copy_tags:
  "n \<le> snd (yaf_deep_copy_section n dst src) \<and>
   inner_tags (fst (yaf_deep_copy_section n dst src))
     \<subseteq> inner_tags dst \<union> inner_tags src \<union> {n..<snd (yaf_deep_copy_section n dst src)}"
proof (induction n dst src rule: deep_copy_induct)
  case (2 n dst k v src)
  then show ?case using inner_tags_hupdate [of k "CLeaf v" dst] by auto
next
  case (3 n dst k t sc src u dc h n')
  have "inner_tags (hcopy x y) \<subseteq> inner_tags x \<union> inner_tags y" for x y :: cfg_tab
  proof (induction x y rule: hcopy.induct)
    case (2 x k v src)
    then show ?case using inner_tags_hupdate [of k v x] by auto
  qed simp
  from this [of "[]" dc] have "inner_tags (hcopy [] dc) \<subseteq> inner_tags dst"
    using inner_tags_hfind [OF "3.hyps"(1)] by (auto simp: tags_CArr)
  moreover have "n + 1 \<le> n'" "inner_tags h \<subseteq> inner_tags (hcopy [] dc) \<union> inner_tags sc \<union> {n + 1..<n'}"
    using "3.IH"(1) unfolding "3.hyps"(2) by simp_all
  moreover have "inner_tags (hupdate k (CArr n h) dst) \<subseteq> insert n (inner_tags h \<union> inner_tags dst)"
    using inner_tags_hupdate [of k "CArr n h" dst] by (auto simp: tags_CArr)
  moreover define m where "m = snd (yaf_deep_copy_section n' (hupdate k (CArr n h) dst) src)"
  moreover have "n' \<le> m" "inner_tags (fst (yaf_deep_copy_section n' (hupdate k (CArr n h) dst) src))
      \<subseteq> inner_tags (hupdate k (CArr n h) dst) \<union> inner_tags src \<union> {n'..<m}"
    using "3.IH"(2) unfolding m_def by simp_all
  moreover from \<open>n + 1 \<le> n'\<close> \<open>n' \<le> m\<close>
  have "{n'..<m} \<subseteq> {n..<m}" "{n + 1..<n'} \<subseteq> {n..<m}" "n \<in> {n..<m}" "n \<le> m" by auto
  ultimately show ?case
    unfolding deep_copy_merge [OF "3.hyps"(1,2)] m_def [symmetric] inner_tags_simps tags_CArr by blast
next
  case (4 n dst k t sc src)
  then show ?case
    using inner_tags_hupdate [of k "CArr t sc" dst] unfolding deep_copy_share [OF "4.hyps"(1)]
    by (auto simp: tags_CArr)
qed simp

section \<open>The entries of a section\<close>

lemma hupdate_split:
  "\<exists>l r. hupdate k c h = l @ (k, c) # r \<and> inner_tags l \<union> inner_tags r \<subseteq> inner_tags h"
proof (induction k c h rule: hupdate.induct)
  case (1 k v)
  show ?case by (intro exI [of _ "[]"]) simp
next
  case (2 k v k' v' h)
  show ?case
  proof (cases "k' = k")
    case True
    then show ?thesis by (intro exI [of _ "[]"] exI [of _ h]) simp
  next
    case False
    with 2 obtain l r where "hupdate k v h = l @ (k, v) # r" "inner_tags l \<union> inner_tags r \<subseteq> inner_tags h"
      by blast
    with False show ?thesis by (intro exI [of _ "(k', v') # l"] exI [of _ r]) auto
  qed
qed

definition ini_inv :: "ini_state \<Rightarrow> bool" where
  "ini_inv s \<longleftrightarrow> numbered s \<and> (is_active s = 0 \<or> (\<exists>k. section_alone k s))"

definition sections :: "ini_state \<Rightarrow> cfg_tab" where
  "sections s = cfg_table 0 (is_root s)"

lemma sections_root: "is_root s = CArr 0 h \<Longrightarrow> sections s = h"
  by (simp add: sections_def cfg_table_def)

lemma hfind_mid: "k' \<noteq> k \<Longrightarrow> hfind (l @ (k, x) # r) k' = hfind (l @ (k, y) # r) k'"
  by (induction l) auto

lemma ini_entry_section:
  assumes "section_alone k s"
  shows "section_alone k (ini_entry key v s) \<and> (numbered s \<longrightarrow> numbered (ini_entry key v s))
    \<and> (\<forall>k'. k' \<noteq> k \<longrightarrow> hfind (sections (ini_entry key v s)) k' = hfind (sections s) k')"
proof -
  let ?A = "is_active s"
  obtain l a r where root: "is_root s = CArr 0 (l @ (k, CArr ?A a) # r)" "?A \<noteq> 0" "?A < is_next s"
    "?A \<notin> inner_tags l" "?A \<notin> inner_tags a" "?A \<notin> inner_tags r"
    using assms by (auto simp: section_alone_def)
  obtain h' n' where e: "entry_assign (strtok_all ''.'' (Some (cstr key))) v (is_next s) a = (h', n')"
    by fastforce
  have tags: "is_next s \<le> n'" "inner_tags h' \<subseteq> inner_tags a \<union> {is_next s..<n'}"
    using entry_assign_tags [where segs = "strtok_all ''.'' (Some (cstr key))" and v = v and n = "is_next s" and h = a] by (simp_all add: e)
  have new: "is_root (ini_entry key v s) = CArr 0 (l @ (k, CArr ?A h') # r)"
    "is_active (ini_entry key v s) = ?A" "is_next (ini_entry key v s) = n'"
    using root e by (simp_all add: ini_entry_def cfg_table_alone in_place_list)
  have "?A \<notin> inner_tags h'" "?A < n'" using tags root(3,5) by auto
  then have "section_alone k (ini_entry key v s)"
    using root(2,4,6) unfolding section_alone_def new by blast
  moreover have "numbered (ini_entry key v s)" if "numbered s"
    using that root(1) tags unfolding numbered_def new
    by (auto simp: tags_CArr dest: order_less_le_trans)
      (metis (no_types, lifting) Un_iff atLeastLessThan_iff in_mono order_less_le_trans)+
  ultimately show ?thesis
    using hfind_mid [of _ k l] by (auto simp: sections_root [OF root(1)] sections_root [OF new(1)])
qed

lemma ini_entry_root:
  assumes "numbered s" "is_active s = 0"
  shows "numbered (ini_entry key v s) \<and> is_active (ini_entry key v s) = 0"
proof -
  obtain h where root: "is_root s = CArr 0 h" "0 \<notin> inner_tags h" "\<forall>t \<in> inner_tags h. t < is_next s" "0 < is_next s"
    using assms(1) by (auto simp: numbered_def)
  obtain h' n' where e: "entry_assign (strtok_all ''.'' (Some (cstr key))) v (is_next s) h = (h', n')"
    by fastforce
  have tags: "is_next s \<le> n'" "inner_tags h' \<subseteq> inner_tags h \<union> {is_next s..<n'}"
    using entry_assign_tags [where segs = "strtok_all ''.'' (Some (cstr key))" and v = v and n = "is_next s" and h = h] by (simp_all add: e)
  have "is_root (ini_entry key v s) = CArr 0 h'" "is_next (ini_entry key v s) = n'"
    "is_active (ini_entry key v s) = 0"
    using root e assms(2) by (simp_all add: ini_entry_def cfg_table_def)
  then show ?thesis using tags root by (fastforce simp: numbered_def)
qed

definition section_key :: "string \<Rightarrow> zkey" where
  "section_key key =
     (case section_trim key of Inl _ \<Rightarrow> KStr [] | Inr t \<Rightarrow> symkey (fst (section_split t)))"

lemma copy_parents_tags:
  "copy_parents arr ps n active = Inr (h, n') \<Longrightarrow>
     n \<le> n' \<and> inner_tags h \<subseteq> inner_tags active \<union> inner_tags arr \<union> {n..<n'}"
proof (induction arr ps n active rule: copy_parents.induct)
  case (2 arr p ps n active)
  show ?case
  proof (cases "hfind arr (symkey p)")
    case None
    with 2 show ?thesis by simp
  next
    case (Some c)
    with 2 obtain t g where c: "c = CArr t g" by (cases c) auto
    obtain a m where a: "yaf_deep_copy_section n active g = (a, m)" by fastforce
    have "inner_tags g \<subseteq> inner_tags arr" using inner_tags_hfind [OF Some] by (simp add: c tags_CArr)
    moreover have "n \<le> m" "inner_tags a \<subseteq> inner_tags active \<union> inner_tags g \<union> {n..<m}"
      using deep_copy_tags [of n active g] by (simp_all add: a)
    moreover have "m \<le> n'" "inner_tags h \<subseteq> inner_tags a \<union> inner_tags arr \<union> {m..<n'}"
      using "2.IH"(2) [OF Some c a [symmetric]] "2.prems" by (simp_all add: Some c a)
    moreover from \<open>n \<le> m\<close> \<open>m \<le> n'\<close> have "{n..<m} \<subseteq> {n..<n'}" "{m..<n'} \<subseteq> {n..<n'}" by auto
    ultimately show ?thesis by (meson le_trans) blast
  qed
qed simp

lemma ini_section_alone:
  assumes "numbered s" "ini_section key s = Inr s'" "is_flag s \<noteq> PARSING_PROCESS"
  shows "numbered s' \<and> section_alone (section_key key) s'"
proof -
  obtain h where root: "is_root s = CArr 0 h" "0 \<notin> inner_tags h" "\<forall>t \<in> inner_tags h. t < is_next s" "0 < is_next s"
    using assms(1) by (auto simp: numbered_def)
  let ?k = "section_key key"
  obtain t name ps g n' where t: "section_trim key = Inr t" "section_split t = (name, ps)"
    and copy: "copy_parents h ps (is_next s + 1) [] = Inr (g, n')"
    using assms(2,3) root(1)
    by (auto simp: ini_section_def cfg_table_def Let_def split: sum.splits prod.splits)
  have key: "?k = symkey name" by (simp add: section_key_def t)
  have new: "is_root s' = CArr 0 (hupdate ?k (CArr (is_next s) g) h)" "is_active s' = is_next s" "is_next s' = n'"
    using assms(2,3) root(1) copy by (auto simp: ini_section_def cfg_table_def t key Let_def)
  have tags: "is_next s + 1 \<le> n'" "inner_tags g \<subseteq> inner_tags h \<union> {is_next s + 1..<n'}"
    using copy_parents_tags [OF copy] by simp_all
  obtain l r where lr: "hupdate ?k (CArr (is_next s) g) h = l @ (?k, CArr (is_next s) g) # r"
    "inner_tags l \<union> inner_tags r \<subseteq> inner_tags h"
    using hupdate_split by blast
  have alone: "is_next s \<notin> inner_tags l \<union> inner_tags g \<union> inner_tags r"
    using lr(2) tags(2) root(3) by fastforce
  then have "section_alone ?k s'"
    using root(4) tags(1) unfolding section_alone_def new lr(1) by force
  moreover have "numbered s'"
    using lr(2) tags root(2-4) unfolding numbered_def new lr(1) by (fastforce simp: tags_CArr)
  ultimately show ?thesis by blast
qed

fun is_entry :: "ini_event \<Rightarrow> bool" where
  "is_entry (IniEntry key v) = True"
| "is_entry _ = False"

lemma ini_parse_append:
  "ini_parse (as @ bs) s = (case ini_parse as s of Inl e \<Rightarrow> Inl e | Inr s' \<Rightarrow> ini_parse bs s')"
  by (induction as arbitrary: s) (auto split: sum.split)

lemma ini_parse_single: "ini_parse [ev] s = yaf_config_ini_parser_cb ev s"
  by (simp split: sum.split)

subsection \<open>Array entries keep the numbering\<close>

lemma in_place_CArr: "in_place t f (CArr u h) = CArr u (if u = t then f h else map (map_prod id (in_place t f)) h)"
  by simp

lemma in_place_tags:
  assumes "\<And>h. inner_tags (f h) \<subseteq> inner_tags h \<union> X"
  shows "tags (in_place t f c) \<subseteq> tags c \<union> X"
proof (induction c)
  case (CArr u h)
  have "tags (in_place t f (snd e)) \<subseteq> tags (snd e) \<union> X" if "e \<in> set h" for e
    using CArr that by (cases e) auto
  then have "inner_tags (map (map_prod id (in_place t f)) h) \<subseteq> inner_tags h \<union> X"
    by (auto simp: inner_tags_def)
  with assms [of h] show ?case by (auto simp: tags_CArr)
qed simp

lemma in_place_inner_tags:
  assumes "\<And>h. inner_tags (f h) \<subseteq> inner_tags h \<union> X"
  shows "inner_tags (map (map_prod id (in_place t f)) h) \<subseteq> inner_tags h \<union> X"
  using in_place_tags [of f X t, OF assms] by (fastforce simp: inner_tags_def)

lemma in_place_inv:
  assumes "ini_inv s" "is_active s = 0 \<or> t \<noteq> 0"
    and f: "\<And>h. inner_tags (f h) \<subseteq> inner_tags h \<union> {is_next s..<n'}" and "is_next s \<le> n'"
  shows "ini_inv (s\<lparr>is_root := in_place t f (is_root s), is_next := n'\<rparr>)" (is "ini_inv ?s")
proof -
  note sub = f in_place_inner_tags [where t = t, OF f]
  obtain h where root: "is_root s = CArr 0 h" "0 \<notin> inner_tags h" "\<forall>t \<in> inner_tags h. t < is_next s" "0 < is_next s"
    using assms(1) by (auto simp: ini_inv_def numbered_def)
  have new: "is_root ?s = CArr 0 (if t = 0 then f h else map (map_prod id (in_place t f)) h)"
    by (simp add: root)
  have "inner_tags (if t = 0 then f h else map (map_prod id (in_place t f)) h) \<subseteq> inner_tags h \<union> {is_next s..<n'}"
    using sub [of h] by simp
  then have "numbered ?s"
    using root assms(4) unfolding numbered_def new by fastforce
  moreover have "section_alone k ?s" if "section_alone k s" for k
  proof -
    let ?A = "is_active s" and ?m = "\<lambda>h. map (map_prod id (in_place t f)) h"
    obtain l a r where alone: "is_root s = CArr 0 (l @ (k, CArr ?A a) # r)" "?A \<noteq> 0" "?A < is_next s"
      "?A \<notin> inner_tags l \<union> inner_tags a \<union> inner_tags r"
      using \<open>section_alone k s\<close> by (auto simp: section_alone_def)
    have "is_root ?s = CArr 0 (?m l @ (k, CArr ?A (if ?A = t then f a else ?m a)) # ?m r)"
      using alone(1,2) assms(2) by simp
    moreover have "?A \<notin> inner_tags (?m l) \<union> inner_tags (if ?A = t then f a else ?m a) \<union> inner_tags (?m r)"
      using sub(1) [of a] sub(2) [of a] sub(2) [of l] sub(2) [of r] alone(3,4) by auto
    ultimately show ?thesis
      using alone(2,3) assms(4) unfolding section_alone_def by fastforce
  qed
  ultimately show ?thesis using assms(1) by (auto simp: ini_inv_def)
qed

lemma find_table_tags:
  "find_table t c = Some g \<Longrightarrow> \<exists>u h. c = CArr u h \<and> inner_tags g \<subseteq> inner_tags h"
proof (induction c)
  case (CArr u h)
  show ?case
  proof (cases "u = t")
    case False
    with CArr.prems obtain x xs where "filter (\<lambda>e. snd e \<noteq> None) (map (map_prod id (find_table t)) h) = x # xs"
      and x: "snd x = Some g" by (auto split: list.splits)
    then have "x \<in> set (map (map_prod id (find_table t)) h)"
      by (metis filter_is_subset list.set_intros(1) subsetD)
    with x obtain a b where e: "(a, b) \<in> set h" "find_table t b = Some g" by auto
    then obtain v h' where h': "b = CArr v h'" "inner_tags g \<subseteq> inner_tags h'"
      using CArr.IH [OF e(1), of b] by auto
    have "tags b \<subseteq> inner_tags h" using e(1) by (force simp: inner_tags_def)
    with h' show ?thesis by (auto simp: tags_CArr)
  qed (use CArr.prems in auto)
qed simp

lemma pop_walk_inv:
  "pop_walk ks t s = Inr (t', s') \<Longrightarrow> ini_inv s \<Longrightarrow> is_active s = 0 \<or> t \<noteq> 0 \<Longrightarrow>
     ini_inv s' \<and> is_active s' = is_active s \<and> (is_active s = 0 \<or> t' \<noteq> 0)"
proof (induction ks t s rule: pop_walk.induct)
  case (2 k ks t s)
  have new: "ini_inv (snd (new_array t k s)) \<and> is_active (snd (new_array t k s)) = is_active s \<and> fst (new_array t k s) \<noteq> 0"
  proof -
    have "inner_tags (hupdate k (CArr (is_next s) []) h) \<subseteq> inner_tags h \<union> {is_next s..<is_next s + 1}" for h
      using inner_tags_hupdate [of k "CArr (is_next s) []" h] by (auto simp: tags_CArr)
    from in_place_inv [OF 2(4,5) this] 2(4) show ?thesis
      by (auto simp: new_array_def ini_inv_def numbered_def)
  qed
  show ?case
  proof (cases "hfind (cfg_table t (is_root s)) k")
    case None
    obtain u s1 where "new_array t k s = (u, s1)" by fastforce
    with None 2 new show ?thesis by auto
  next
    case (Some c)
    show ?thesis
    proof (cases c)
      case (CLeaf v)
      with Some 2(3) new show ?thesis by (cases "new_array t k s") (auto split: if_splits)
    next
      case (CArr u g)
      obtain h where h: "find_table t (is_root s) = Some h" "hfind h k = Some (CArr u g)"
        using Some CArr by (auto simp: cfg_table_def split: option.splits)
      obtain r where r: "is_root s = CArr 0 r" "0 \<notin> inner_tags r" using 2(4) by (auto simp: ini_inv_def numbered_def)
      have "u \<in> inner_tags r"
        using find_table_tags [OF h(1)] inner_tags_hfind [OF h(2)] r by (auto simp: tags_CArr)
      with r(2) have "u \<noteq> 0" by metis
      with Some CArr 2 show ?thesis by simp
    qed
  qed
qed simp

lemma ini_pop_inv:
  assumes "ini_inv s" "ini_pop key v index s = Inr s'"
  shows "ini_inv s'"
proof -
  define put where "put = (case index of
      Some i \<Rightarrow> if i \<noteq> [] then hupdate (symkey i) (CLeaf v) else happend (CLeaf v) | None \<Rightarrow> happend (CLeaf v))"
  have put: "inner_tags (put h) \<subseteq> inner_tags h \<union> {n..<n}" for h n
  proof -
    have "inner_tags (happend (CLeaf v) h) \<subseteq> inner_tags h"
      by (auto simp: happend_def Let_def)
    with inner_tags_hupdate [of _ "CLeaf v" h] show ?thesis
      by (auto simp: put_def split: option.split)
  qed
  obtain t s1 where t: "pop_walk (pop_path key) (is_active s) s = Inr (t, s1)"
    and s': "s' = s1\<lparr>is_root := in_place t put (is_root s1)\<rparr>"
    using assms(2) unfolding put_def by (auto simp: ini_pop_def Let_def split: if_splits sum.splits)
  have "is_active s = 0 \<or> is_active s \<noteq> 0" by blast
  from pop_walk_inv [OF t assms(1) this] have "ini_inv s1" "is_active s1 = 0 \<or> t \<noteq> 0" by auto
  from in_place_inv [OF this put order_refl] show ?thesis by (simp add: s')
qed

lemma ini_cb_inv:
  assumes "ini_inv s" "yaf_config_ini_parser_cb ev s = Inr s'"
  shows "ini_inv s'"
proof (cases ev)
  case (IniEntry key v)
  with assms show ?thesis
    using ini_entry_section [of _ s key] ini_entry_root [of s key]
    by (auto simp: yaf_config_ini_parser_cb_def ini_inv_def split: if_splits option.splits) blast+
next
  case (IniSection key)
  show ?thesis
  proof (cases "is_flag s = PARSING_START")
    case True
    with assms IniSection show ?thesis
      using ini_section_alone [of s key s'] by (auto simp: yaf_config_ini_parser_cb_def ini_inv_def)
  next
    case False
    then have "s' = s \<or> s' = s\<lparr>is_flag := PARSING_END\<rparr>"
      using assms(2) IniSection
      by (cases "is_flag s") (auto simp: yaf_config_ini_parser_cb_def ini_section_def)
    then have "ini_inv s' = ini_inv s"
      by (elim disjE) (simp_all add: ini_inv_def numbered_def section_alone_def)
    with assms(1) show ?thesis by simp
  qed
next
  case (IniPop key v index)
  with assms ini_pop_inv [OF assms(1)] show ?thesis
    by (auto simp: yaf_config_ini_parser_cb_def split: if_splits option.splits)
qed

lemma ini_parse_inv:
  "ini_inv s \<Longrightarrow> ini_parse evs s = Inr s' \<Longrightarrow> ini_inv s'"
proof (induction evs arbitrary: s)
  case (Cons ev evs)
  then obtain s1 where "yaf_config_ini_parser_cb ev s = Inr s1" "ini_parse evs s1 = Inr s'"
    by (auto split: sum.splits)
  with Cons show ?case using ini_cb_inv [of s ev s1] by simp
qed simp

lemma ini_start_inv: "ini_inv (ini_start w)"
  by (simp add: ini_inv_def ini_start_def numbered_def)

lemma ini_entries_alone:
  "\<forall>ev \<in> set evs. is_entry ev \<Longrightarrow> section_alone k s \<Longrightarrow> ini_parse evs s = Inr s' \<Longrightarrow>
     section_alone k s' \<and> (\<forall>k'. k' \<noteq> k \<longrightarrow> hfind (sections s') k' = hfind (sections s) k')"
proof (induction evs arbitrary: s)
  case (Cons ev evs)
  obtain key v where ev: "ev = IniEntry key v" using Cons.prems(1) by (cases ev) auto
  obtain s1 where s1: "yaf_config_ini_parser_cb ev s = Inr s1" "ini_parse evs s1 = Inr s'"
    using Cons.prems(3) by (auto split: sum.splits)
  have "s1 = s \<or> (\<exists>x. s1 = ini_entry key x s)"
    using s1(1) by (auto simp: ev yaf_config_ini_parser_cb_def split: if_splits option.splits)
  then have "section_alone k s1 \<and> (\<forall>k'. k' \<noteq> k \<longrightarrow> hfind (sections s1) k' = hfind (sections s) k')"
    using ini_entry_section [OF Cons.prems(2)] Cons.prems(2) by blast
  with Cons.IH [of s1] Cons.prems(1) s1(2) show ?case by simp
qed simp

lemma ini_parse_ended:
  "is_flag s = PARSING_END \<Longrightarrow> ini_parse evs s = Inr s"
  by (induction evs) (simp_all add: yaf_config_ini_parser_cb_def)

text \<open>
  C8: The entries behind a section header change this section only: although a section shares
  the arrays of the sections it inherits from, an entry never reaches through to them, whatever
  was read above (headers, entries and array entries in any order).
\<close>

theorem section_entries_local:
  assumes "\<forall>ev \<in> set ents. is_entry ev"
    and "ini_parse (evs @ [IniSection key]) (ini_start w) = Inr s" "ini_parse ents s = Inr s'"
  shows "\<forall>k. k \<noteq> section_key key \<longrightarrow> hfind (sections s') k = hfind (sections s) k"
proof -
  obtain s0 where s0: "ini_parse evs (ini_start w) = Inr s0" "yaf_config_ini_parser_cb (IniSection key) s0 = Inr s"
    using assms(2) by (auto simp: ini_parse_append ini_parse_single split: sum.splits)
  have inv: "numbered s0"
    using ini_parse_inv [OF ini_start_inv s0(1)] by (simp add: ini_inv_def)
  show ?thesis
  proof (cases "is_flag s0 = PARSING_START")
    case True
    then have "section_alone (section_key key) s"
      using ini_section_alone [OF inv] s0(2) by (simp add: yaf_config_ini_parser_cb_def)
    with ini_entries_alone [OF assms(1) _ assms(3)] show ?thesis by blast
  next
    case False
    then have "is_flag s = PARSING_END"
      using s0(2) by (cases "is_flag s0") (auto simp: yaf_config_ini_parser_cb_def ini_section_def)
    with assms(3) show ?thesis by (simp add: ini_parse_ended)
  qed
qed

lemma section_entries_local_witness:
  "\<exists>s s'. ini_parse ([IniSection ''base'', IniEntry ''db.host'' (Some (ZString ''a''))] @ [IniSection ''child : base''])
        (ini_start None) = Inr s
     \<and> ini_parse [IniEntry ''db.host'' (Some (ZString ''b''))] s = Inr s'
     \<and> hfind (sections s') (KStr ''base'') = hfind (sections s) (KStr ''base'')
     \<and> map_option (leaf_at [KStr ''db'', KStr ''host'']) (hfind (sections s') (KStr ''child'')) = Some (Some (ZString ''b''))"
proof -
  let ?evs = "[IniSection ''base'', IniEntry ''db.host'' (Some (ZString ''a''))]"
  let ?ents = "[IniEntry ''db.host'' (Some (ZString ''b''))]"
  have "case ini_parse (?evs @ [IniSection ''child : base'']) (ini_start None) of
      Inl e \<Rightarrow> False
    | Inr s \<Rightarrow> (case ini_parse ?ents s of Inl e \<Rightarrow> False
        | Inr s' \<Rightarrow> map_option (leaf_at [KStr ''db'', KStr ''host'']) (hfind (sections s') (KStr ''child''))
                    = Some (Some (ZString ''b'')))"
    by code_simp
  then obtain s s' where s: "ini_parse (?evs @ [IniSection ''child : base'']) (ini_start None) = Inr s"
    "ini_parse ?ents s = Inr s'"
    "map_option (leaf_at [KStr ''db'', KStr ''host'']) (hfind (sections s') (KStr ''child'')) = Some (Some (ZString ''b''))"
    by (auto split: sum.splits)
  have "section_key ''child : base'' = KStr ''child''" by code_simp
  then have "hfind (sections s') (KStr ''base'') = hfind (sections s) (KStr ''base'')"
    using section_entries_local [OF _ s(1,2)] by simp
  with s show ?thesis by blast
qed

section \<open>The configuration made of an array\<close>

definition simple_lookup :: "yaf_config \<Rightarrow> string \<Rightarrow> zval option" where
  "simple_lookup cf k = (case cf_config cf of ZArray h \<Rightarrow> hfind h (KStr k) | _ \<Rightarrow> None)"

definition simple_put :: "string \<Rightarrow> zval \<Rightarrow> yaf_config \<Rightarrow> yaf_config" where
  "simple_put k v cf = (case config_simple_set k v cf of Inl _ \<Rightarrow> cf | Inr (_, cf') \<Rightarrow> cf')"

definition simple_writable :: "yaf_config \<Rightarrow> bool" where
  "simple_writable cf \<longleftrightarrow> \<not> cf_readonly cf \<and> is_array (cf_config cf)"

lemma simple_writable_array:
  "simple_writable cf \<Longrightarrow> \<exists>h. cf_config cf = ZArray h \<and> \<not> cf_readonly cf"
  by (cases "cf_config cf") (auto simp: simple_writable_def)

interpretation config_simple: symtab simple_writable simple_lookup simple_put
    "\<lambda>k cf. snd (config_simple_unset k cf)"
proof (unfold_locales, goal_cases)
  case (1 s k v)
  with simple_writable_array show ?case by (force simp: simple_put_def config_simple_set_def simple_writable_def)
next
  case (2 s k v k')
  from simple_writable_array [OF this] show ?case
    by (auto simp: simple_put_def config_simple_set_def simple_lookup_def)
next
  case (3 s k)
  from simple_writable_array [OF this] obtain h where "cf_config s = ZArray h" "\<not> cf_readonly s" by blast
  then show ?case
    by (cases "hexists h (KStr k)") (simp_all add: config_simple_unset_def simple_writable_def)
next
  case (4 s k k')
  from simple_writable_array [OF this] show ?case
    by (auto simp: config_simple_unset_def simple_lookup_def hexists_def)
qed

lemma config_key_KStr: "config_key k' = KStr k \<longleftrightarrow> k' = k \<and> is_numeric_long k = None"
  by (auto simp: config_key_def split: option.splits)

text \<open>
  C40: A value that is set on a configuration made of an array is what \<open>get\<close> returns for its
  name, and \<open>get\<close> for any other name is as before; but a name that reads as an integer is
  written as text and looked up as a number, so that \<open>get\<close> does not see what \<open>set\<close> did.
\<close>

theorem config_simple_set_get:
  assumes "simple_writable cf" "config_simple_set k v cf = Inr (ok, cf')"
  shows "ok \<and> config_simple_get cf' (Some k') =
    (if k' = k \<and> is_numeric_long k = None then Inr (found_value cf v) else config_simple_get cf (Some k'))"
proof -
  obtain h where h: "cf_config cf = ZArray h" "\<not> cf_readonly cf" using simple_writable_array [OF assms(1)] by blast
  then have new: "ok" "cf' = cf\<lparr>cf_config := ZArray (hupdate (KStr k) v h)\<rparr>"
    using assms(2) by (simp_all add: config_simple_set_def)
  have found: "found_value (cf\<lparr>cf_config := x\<rparr>) w = found_value cf w" for x w
    by (cases w) (simp_all add: found_value_def)
  show ?thesis
    by (auto simp: config_simple_get_def h new found config_key_KStr split: option.split)
qed

lemma config_simple_set_get_witness:
  "config_simple_get \<lparr>cf_class = ConfigSimple, cf_config = ZArray [(KStr ''a'', ZTrue)], cf_readonly = False\<rparr>
      (Some ''a'') = Inr (CfgValue ZTrue)"
  using config_simple_set_get [of "\<lparr>cf_class = ConfigSimple, cf_config = ZArray [], cf_readonly = False\<rparr>"
      "''a''" ZTrue True "\<lparr>cf_class = ConfigSimple, cf_config = ZArray [(KStr ''a'', ZTrue)], cf_readonly = False\<rparr>" "''a''"]
  by (simp add: simple_writable_def config_simple_set_def found_value_def is_numeric_long_def is_space_def
      split_sign_def chd_def is_digit_def)

end
