(* ===== verification/Yaf_Request.thy ===== *)
theory Yaf_Request
  imports Yaf_Runtime
begin

text \<open>
  \<open>Yaf_Request_Abstract\<close> (\<open>yaf_request.c\<close>) and its two concrete classes
  (\<open>requests/yaf_request_http.c\<close>, \<open>requests/yaf_request_simple.c\<close>): the request's properties,
  its parameters, the choice of the request URI and of the base URI, and the path functions
  of PHP they use.  The facts are that the parameters form a store, that the URI the HTTP
  request settles on has one leading slash at most, and that a base URI the request works
  out by itself is a prefix of the request URI.
\<close>

section \<open>Paths\<close>

text \<open>
  \<open>php_basename\<close> in a single-byte locale: the scan keeps the start \<open>cbeg\<close> and the end \<open>cend\<close>
  of the last component and whether it is inside one.
\<close>

fun basename_scan :: "string \<Rightarrow> nat \<Rightarrow> nat \<Rightarrow> nat \<Rightarrow> bool \<Rightarrow> nat \<times> nat" where
  "basename_scan [] c cbeg cend st = (cbeg, if st then c else cend)"
| "basename_scan (x # xs) c cbeg cend st =
     (if x = SLASH
      then (if st then basename_scan xs (Suc c) cbeg c False
            else basename_scan xs (Suc c) cbeg cend False)
      else (if st then basename_scan xs (Suc c) cbeg cend True
            else basename_scan xs (Suc c) c cend True))"

definition php_basename :: "string \<Rightarrow> string option \<Rightarrow> string" where
  "php_basename s suff =
     (let (cbeg, cend) = basename_scan s 0 0 0 False;
          base = take (cend - cbeg) (drop cbeg s)
      in case suff of
           None \<Rightarrow> base
         | Some suf \<Rightarrow>
             if length suf < cend - cbeg \<and> suffix suf base
             then take (length base - length suf) base else base)"

definition zend_dirname :: "string \<Rightarrow> string" where
  "zend_dirname path =
     (if path = [] then []
      else let p1 = rev (dropWhile (\<lambda>c. c = SLASH) (rev path))
           in if p1 = [] then ''/''
              else let p2 = rev (dropWhile (\<lambda>c. c \<noteq> SLASH) (rev p1))
                   in if p2 = [] then ''.''
                      else let p3 = rev (dropWhile (\<lambda>c. c = SLASH) (rev p2))
                           in if p3 = [] then ''/'' else p3)"

section \<open>The request\<close>

record yaf_request =
  rq_module :: zval
  rq_controller :: zval
  rq_action :: zval
  rq_method :: zval
  rq_params :: "zval htab"
  rq_lang :: zval
  rq_exception :: zval
  rq_base_uri :: zval
  rq_uri :: string
  rq_dispatched :: bool
  rq_routed :: bool

definition yaf_request_init :: yaf_request where
  \<comment> \<open>the declared defaults; the instance functions put an empty array into \<open>params\<close>\<close>
  "yaf_request_init =
     \<lparr>rq_module = ZNull, rq_controller = ZNull, rq_action = ZNull, rq_method = ZNull,
      rq_params = [], rq_lang = ZNull, rq_exception = ZNull, rq_base_uri = ZString [],
      rq_uri = [], rq_dispatched = False, rq_routed = False\<rparr>"

definition yaf_request_is_routed :: "yaf_request \<Rightarrow> bool" where
  "yaf_request_is_routed rq = rq_routed rq"

definition yaf_request_is_dispatched :: "yaf_request \<Rightarrow> bool" where
  "yaf_request_is_dispatched rq = rq_dispatched rq"

definition yaf_request_set_dispatched :: "bool \<Rightarrow> yaf_request \<Rightarrow> yaf_request" where
  "yaf_request_set_dispatched flag rq = rq\<lparr>rq_dispatched := flag\<rparr>"

definition yaf_request_set_routed :: "bool \<Rightarrow> yaf_request \<Rightarrow> yaf_request" where
  "yaf_request_set_routed flag rq = rq\<lparr>rq_routed := flag\<rparr>"

definition yaf_request_set_params_single :: "string \<Rightarrow> zval \<Rightarrow> yaf_request \<Rightarrow> yaf_request" where
  "yaf_request_set_params_single key v rq =
     rq\<lparr>rq_params := hupdate (KStr key) v (rq_params rq)\<rparr>"

definition yaf_request_set_params_multi :: "zval \<Rightarrow> yaf_request \<Rightarrow> bool \<times> yaf_request" where
  "yaf_request_set_params_multi values rq =
     (case values of
        ZArray h \<Rightarrow> (True, rq\<lparr>rq_params := hcopy (rq_params rq) h\<rparr>)
      | _ \<Rightarrow> (False, rq))"

definition yaf_request_get_param :: "yaf_request \<Rightarrow> string \<Rightarrow> zval option" where
  "yaf_request_get_param rq key = hfind (rq_params rq) (KStr key)"

subsection \<open>Methods of the class\<close>

text \<open>
  A name setter accepts strings only; the result is the request or \<open>false\<close> with a warning.
\<close>

definition request_setModuleName :: "zval \<Rightarrow> yaf_request \<times> php_rt \<Rightarrow> bool \<times> yaf_request \<times> php_rt" where
  "request_setModuleName v = (\<lambda>(rq, rt).
     if is_string v then (True, rq\<lparr>rq_module := v\<rparr>, rt)
     else (False, rq, php_error_docref (EWarning ''Expect a string module name'') rt))"

definition request_setControllerName :: "zval \<Rightarrow> yaf_request \<times> php_rt \<Rightarrow> bool \<times> yaf_request \<times> php_rt" where
  "request_setControllerName v = (\<lambda>(rq, rt).
     if is_string v then (True, rq\<lparr>rq_controller := v\<rparr>, rt)
     else (False, rq, php_error_docref (EWarning ''Expect a string controller name'') rt))"

definition request_setActionName :: "zval \<Rightarrow> yaf_request \<times> php_rt \<Rightarrow> bool \<times> yaf_request \<times> php_rt" where
  "request_setActionName v = (\<lambda>(rq, rt).
     if is_string v then (True, rq\<lparr>rq_action := v\<rparr>, rt)
     else (False, rq, php_error_docref (EWarning ''Expect a string action name'') rt))"

datatype set_param_args = SetParamArray "zval htab" | SetParamPair string zval

fun request_setParam :: "set_param_args \<Rightarrow> yaf_request \<Rightarrow> bool \<times> yaf_request" where
  "request_setParam (SetParamArray h) rq = yaf_request_set_params_multi (ZArray h) rq"
| "request_setParam (SetParamPair name v) rq = (True, yaf_request_set_params_single name v rq)"

definition request_getParam :: "yaf_request \<Rightarrow> string \<Rightarrow> zval option \<Rightarrow> zval" where
  "request_getParam rq name def =
     (case yaf_request_get_param rq name of
        Some v \<Rightarrow> v
      | None \<Rightarrow> (case def of Some d \<Rightarrow> d | None \<Rightarrow> ZNull))"

definition request_getException :: "yaf_request \<Rightarrow> zval" where
  "request_getException rq =
     (case rq_exception rq of
        ZExc e \<Rightarrow> if exc_instanceof e exception_default_ce then ZExc e else ZNull
      | _ \<Rightarrow> ZNull)"

section \<open>The base URI\<close>

definition server_string :: "php_rt \<Rightarrow> string \<Rightarrow> string option" where
  "server_string rt name =
     (case yaf_request_query rt VARS_SERVER name of Some (ZString s) \<Rightarrow> Some s | _ \<Rightarrow> None)"

definition script_matches :: "string \<Rightarrow> string \<Rightarrow> bool" where
  "script_matches file_name script_path =
     strncmp0 file_name (php_basename script_path None) (length file_name)"

definition base_uri_script :: "php_rt \<Rightarrow> string option" where
  \<comment> \<open>the \<open>do ... while (0)\<close> that looks for the script among three server variables\<close>
  "base_uri_script rt =
     (case server_string rt ''SCRIPT_FILENAME'' of
        None \<Rightarrow> None
      | Some script_filename \<Rightarrow>
          (let file_name = php_basename script_filename (Some (g_ext (rt_g rt)));
               try_name = (\<lambda>name rest. case server_string rt name of
                   Some s \<Rightarrow> if script_matches file_name s then Some s else rest
                 | None \<Rightarrow> rest)
           in try_name ''SCRIPT_NAME'' (try_name ''PHP_SELF'' (try_name ''ORIG_SCRIPT_NAME'' None))))"

definition drop_last_slash :: "string \<Rightarrow> string" where
  "drop_last_slash s = (if s \<noteq> [] \<and> last s = SLASH then butlast s else s)"

definition settle_base_uri :: "php_rt \<Rightarrow> string \<Rightarrow> string" where
  "settle_base_uri rt request_uri =
     (case base_uri_script rt of
        None \<Rightarrow> []
      | Some basename \<Rightarrow>
          if strncmp0 request_uri basename (length basename) then drop_last_slash basename
          else let dir = drop_last_slash (zend_dirname basename)
               in if dir \<noteq> [] \<and> strncmp0 request_uri dir (length dir) then dir else [])"

definition yaf_request_set_base_uri ::
    "php_rt \<Rightarrow> string option \<Rightarrow> string \<Rightarrow> yaf_request \<Rightarrow> yaf_request" where
  "yaf_request_set_base_uri rt base_uri request_uri rq =
     (case base_uri of
        Some b \<Rightarrow> rq\<lparr>rq_base_uri := ZString b\<rparr>
      | None \<Rightarrow> rq\<lparr>rq_base_uri := ZString (settle_base_uri rt request_uri)\<rparr>)"

definition request_setBaseUri :: "php_rt \<Rightarrow> string \<Rightarrow> yaf_request \<Rightarrow> bool \<times> yaf_request" where
  "request_setBaseUri rt uri rq =
     (if uri = [] then (False, rq) else (True, yaf_request_set_base_uri rt (Some uri) [] rq))"

section \<open>HTTP and command-line requests\<close>

text \<open>
  What the server interface says of the request: its method, if it names one, and the name
  of the interface.  The parameter \<open>url_parse\<close> is \<open>php_url_parse\<close>: a URL it rejects is a null pointer,
  another one has a path or none.
\<close>

datatype parsed_url = BadUrl | UrlPath "string option"

record sapi_info =
  sapi_request_method :: "string option"
  sapi_name :: string

definition http_method :: "sapi_info \<Rightarrow> zval" where
  "http_method si =
     (case sapi_request_method si of
        Some m \<Rightarrow> ZString m
      | None \<Rightarrow> if \<not> strncasecmp0 (sapi_name si) ''cli'' 3 then ZString ''Unknow'' else ZString ''Cli'')"

definition uri_before_query :: "string \<Rightarrow> string" where
  "uri_before_query uri =
     (case strstr (cstr uri) ''?'' of Some i \<Rightarrow> take i uri | None \<Rightarrow> uri)"

definition http_settle_uri ::
    "(string \<Rightarrow> parsed_url) \<Rightarrow> php_rt \<Rightarrow> string option \<Rightarrow> mem_error + string option" where
  \<comment> \<open>\<open>php_url_free\<close> is called for a URL that was rejected, too\<close>
  "http_settle_uri url_parse rt request_uri =
     (case request_uri of
        Some u \<Rightarrow> Inr (Some u)
      | None \<Rightarrow>
         (case server_string rt ''PATH_INFO'' of
            Some u \<Rightarrow> Inr (Some u)
          | None \<Rightarrow>
             (case server_string rt ''REQUEST_URI'' of
                Some u \<Rightarrow>
                  if strncasecmp0 u ''http'' 4
                  then (case url_parse (cstr u) of BadUrl \<Rightarrow> Inl NullDeref | UrlPath p \<Rightarrow> Inr p)
                  else Inr (Some (uri_before_query u))
              | None \<Rightarrow> Inr (server_string rt ''ORIG_PATH_INFO''))))"

fun skip_double_slash :: "string \<Rightarrow> string" where
  "skip_double_slash (a # b # s) =
     (if a = SLASH \<and> b = SLASH then skip_double_slash (b # s) else a # b # s)"
| "skip_double_slash s = s"

definition yaf_request_http_instance ::
    "(string \<Rightarrow> parsed_url) \<Rightarrow> sapi_info \<Rightarrow> php_rt \<Rightarrow> string option \<Rightarrow> string option \<Rightarrow> mem_error + yaf_request" where
  "yaf_request_http_instance url_parse si rt request_uri base_uri =
     (case http_settle_uri url_parse rt request_uri of
        Inl e \<Rightarrow> Inl e
      | Inr uri \<Rightarrow>
          (let rq = yaf_request_init\<lparr>rq_method := http_method si\<rparr>;
               rq = (case uri of
                       None \<Rightarrow> rq
                     | Some u \<Rightarrow>
                         let settled = skip_double_slash u
                         in yaf_request_set_base_uri rt base_uri settled (rq\<lparr>rq_uri := settled\<rparr>))
           in Inr (rq\<lparr>rq_params := []\<rparr>)))"

definition yaf_request_instance ::
    "(string \<Rightarrow> parsed_url) \<Rightarrow> sapi_info \<Rightarrow> php_rt \<Rightarrow> string option \<Rightarrow> mem_error + yaf_request" where
  "yaf_request_instance url_parse si rt base_uri = yaf_request_http_instance url_parse si rt None base_uri"

definition simple_method :: "sapi_info \<Rightarrow> zval option \<Rightarrow> zval" where
  "simple_method si method =
     (case method of
        Some (ZString m) \<Rightarrow> ZString m
      | _ \<Rightarrow>
         (case sapi_request_method si of
            None \<Rightarrow> if strncasecmp0 (sapi_name si) ''cli'' 3 then ZString ''CLI'' else ZString ''Unknow''
          | Some m \<Rightarrow> ZString m))"

fun argv_request_uri :: "zval htab \<Rightarrow> mem_error + string option" where
  \<comment> \<open>the first string argument that starts with \<open>request_uri=\<close>; the copy starts at offset
      \<open>sizeof\<close> of that literal, which counts its terminator\<close>
  "argv_request_uri [] = Inr None"
| "argv_request_uri ((_, v) # argv) =
     (case v of
        ZString s \<Rightarrow>
          if strncasecmp0 s ''request_uri='' 12
          then (if length s < 13 then Inl OutOfBounds else Inr (Some (cstr (drop 13 s))))
          else argv_request_uri argv
      | _ \<Rightarrow> argv_request_uri argv)"

definition simple_name :: "zval option \<Rightarrow> string \<Rightarrow> zval" where
  "simple_name v def = (case v of Some (ZString s) \<Rightarrow> ZString s | _ \<Rightarrow> ZString def)"

definition yaf_request_simple_instance ::
    "sapi_info \<Rightarrow> php_rt \<Rightarrow> zval option \<Rightarrow> zval option \<Rightarrow> zval option \<Rightarrow> zval option
      \<Rightarrow> zval htab option \<Rightarrow> mem_error + yaf_request" where
  "yaf_request_simple_instance si rt module controller action method params =
     (let rq = yaf_request_init\<lparr>rq_method := simple_method si method\<rparr>;
          set_params = (\<lambda>rq. rq\<lparr>rq_params := (case params of None \<Rightarrow> [] | Some h \<Rightarrow> h)\<rparr>)
      in if module \<noteq> None \<or> controller \<noteq> None \<or> action \<noteq> None
         then Inr (set_params
                (rq\<lparr>rq_module := simple_name module (g_default_module (rt_g rt)),
                    rq_controller := simple_name controller (g_default_controller (rt_g rt)),
                    rq_action := simple_name action (g_default_action (rt_g rt)),
                    rq_routed := True\<rparr>))
         else
           (case yaf_request_query rt VARS_SERVER ''argv'' of
              Some (ZArray argv) \<Rightarrow>
                (case argv_request_uri argv of
                   Inl e \<Rightarrow> Inl e
                 | Inr (Some u) \<Rightarrow> Inr (set_params (rq\<lparr>rq_uri := u\<rparr>))
                 | Inr None \<Rightarrow> Inr (set_params (rq\<lparr>rq_uri := []\<rparr>)))
            | _ \<Rightarrow> Inr (set_params (rq\<lparr>rq_uri := []\<rparr>))))"

section \<open>The URI a route sees\<close>

definition request_rel_uri :: "yaf_request \<Rightarrow> string" where
  \<comment> \<open>the request URI behind the base URI, if it starts with it in any case\<close>
  "request_rel_uri rq =
     (case rq_base_uri rq of
        ZString b \<Rightarrow>
          if strncasecmp0 (rq_uri rq) b (length b) then drop (length b) (rq_uri rq) else rq_uri rq
      | _ \<Rightarrow> rq_uri rq)"

section \<open>Facts\<close>

subsection \<open>Parameters are a store\<close>

interpretation request_params: store "\<lambda>rq. hwf (rq_params rq)" yaf_request_get_param
    yaf_request_set_params_single
  by unfold_locales (auto simp: yaf_request_get_param_def yaf_request_set_params_single_def)

lemma set_params_multi_lookup:
  "hwf h \<Longrightarrow> yaf_request_get_param (snd (yaf_request_set_params_multi (ZArray h) rq)) k =
     (case hfind h (KStr k) of Some v \<Rightarrow> Some v | None \<Rightarrow> yaf_request_get_param rq k)"
  by (simp add: yaf_request_get_param_def yaf_request_set_params_multi_def hfind_hcopy
      split: option.splits)

lemma set_params_multi_frame [simp]:
  "rq_module (snd (yaf_request_set_params_multi v rq)) = rq_module rq"
  "rq_controller (snd (yaf_request_set_params_multi v rq)) = rq_controller rq"
  "rq_action (snd (yaf_request_set_params_multi v rq)) = rq_action rq"
  "rq_uri (snd (yaf_request_set_params_multi v rq)) = rq_uri rq"
  "rq_base_uri (snd (yaf_request_set_params_multi v rq)) = rq_base_uri rq"
  "rq_routed (snd (yaf_request_set_params_multi v rq)) = rq_routed rq"
  "rq_dispatched (snd (yaf_request_set_params_multi v rq)) = rq_dispatched rq"
  "rq_method (snd (yaf_request_set_params_multi v rq)) = rq_method rq"
  by (auto simp: yaf_request_set_params_multi_def split: zval.splits)

lemma set_params_multi_hwf:
  "hwf (rq_params rq) \<Longrightarrow> hwf (rq_params (snd (yaf_request_set_params_multi v rq)))"
  by (auto simp: yaf_request_set_params_multi_def split: zval.splits)

subsection \<open>Paths\<close>

definition bn_step :: "char \<Rightarrow> nat \<times> nat \<times> nat \<times> bool \<Rightarrow> nat \<times> nat \<times> nat \<times> bool" where
  "bn_step x = (\<lambda>(c, cb, ce, st).
     (Suc c, if x \<noteq> SLASH \<and> \<not> st then c else cb, if x = SLASH \<and> st then c else ce, x \<noteq> SLASH))"

lemma basename_scan_append:
  "basename_scan (a @ b) c cb ce st =
     (let (c', cb', ce', st') = fold bn_step a (c, cb, ce, st) in basename_scan b c' cb' ce' st')"
  by (induction a arbitrary: c cb ce st) (auto simp: bn_step_def)

lemma basename_scan_inside:
  "SLASH \<notin> set s \<Longrightarrow> basename_scan s c cb ce True = (cb, c + length s)"
  by (induction s arbitrary: c) auto

lemma basename_scan_name:
  "SLASH \<notin> set s \<Longrightarrow> s \<noteq> [] \<Longrightarrow> basename_scan s c cb ce False = (c, c + length s)"
  by (cases s) (auto simp: basename_scan_inside)

lemma fold_bn_step_pos: "fst (fold bn_step a p) = fst p + length a"
  by (induction a arbitrary: p) (auto simp: bn_step_def split: prod.splits)

lemma php_basename_dir:
  assumes "SLASH \<notin> set name" "name \<noteq> []"
  shows "php_basename (dir @ SLASH # name) None = name"
proof -
  obtain c cb ce st where f: "fold bn_step dir (0, 0, 0, False) = (c, cb, ce, st)"
    by (metis prod_cases4)
  then have c: "c = length dir"
    using fold_bn_step_pos [of dir "(0, 0, 0, False)"] by simp
  have "basename_scan (SLASH # name) c cb ce st = (Suc c, Suc c + length name)"
    using assms by (simp add: basename_scan_name)
  then have "basename_scan (dir @ SLASH # name) 0 0 0 False = (Suc c, Suc c + length name)"
    by (simp only: basename_scan_append f Let_def prod.case)
  then show ?thesis
    by (simp add: php_basename_def c)
qed

lemma zend_dirname_dir:
  assumes "SLASH \<notin> set name" "name \<noteq> []" "dir \<noteq> []" "last dir \<noteq> SLASH"
  shows "zend_dirname (dir @ SLASH # name) = dir"
proof -
  have n: "rev name \<noteq> []" "hd (rev name) \<noteq> SLASH"
    using assms(1,2) by (auto simp: hd_rev) (metis last_in_set)
  have d: "rev dir \<noteq> []" "hd (rev dir) \<noteq> SLASH"
    using assms(3,4) by (auto simp: hd_rev)
  have 1: "dropWhile (\<lambda>c. c = SLASH) (rev name @ SLASH # rev dir) = rev name @ SLASH # rev dir"
    using n by (cases "rev name") auto
  have 2: "dropWhile (\<lambda>c. c \<noteq> SLASH) (rev name @ SLASH # rev dir) = SLASH # rev dir"
    using assms(1) by (subst dropWhile_append2) auto
  have 3: "dropWhile (\<lambda>c. c = SLASH) (SLASH # rev dir) = rev dir"
    using d by (cases "rev dir") auto
  show ?thesis
    using d by (simp add: zend_dirname_def Let_def 1 2 3)
qed

subsection \<open>URIs\<close>

lemma skip_double_slash_no_double:
  "skip_double_slash s \<noteq> SLASH # SLASH # t"
  by (induction s rule: skip_double_slash.induct) auto

lemma skip_double_slash_suffix: "\<exists>n. s = replicate n SLASH @ skip_double_slash s"
proof (induction s rule: skip_double_slash.induct)
  case (1 a b s)
  then show ?case
  proof (cases "a = SLASH \<and> b = SLASH")
    case True
    with 1 obtain n where "b # s = replicate n SLASH @ skip_double_slash (b # s)" by blast
    with True have "a # b # s = replicate (Suc n) SLASH @ skip_double_slash (a # b # s)" by simp
    then show ?thesis by blast
  next
    case False
    then show ?thesis by (intro exI [of _ 0]) auto
  qed
qed (auto intro: exI [of _ 0])

lemma prefix_drop_last_slash: "prefix s u \<Longrightarrow> prefix (drop_last_slash s) u"
  by (auto simp: drop_last_slash_def intro: prefix_order.trans [OF prefixeq_butlast])

lemma set_drop_last_slash: "set (drop_last_slash s) \<subseteq> set s"
  by (auto simp: drop_last_slash_def dest: in_set_butlastD)

lemma set_rev_dropWhile: "set (rev (dropWhile P (rev t))) \<subseteq> set t"
  using set_dropWhileD [of _ P "rev t"] by auto

lemma set_zend_dirname: "set (zend_dirname s) \<subseteq> set s \<union> {SLASH, CHR ''.''}"
proof -
  define p1 where "p1 = rev (dropWhile (\<lambda>c. c = SLASH) (rev s))"
  define p2 where "p2 = rev (dropWhile (\<lambda>c. c \<noteq> SLASH) (rev p1))"
  define p3 where "p3 = rev (dropWhile (\<lambda>c. c = SLASH) (rev p2))"
  have "set p3 \<subseteq> set p2" "set p2 \<subseteq> set p1" "set p1 \<subseteq> set s"
    unfolding p1_def p2_def p3_def by (rule set_rev_dropWhile)+
  then have "set p3 \<subseteq> set s" by (meson subset_trans)
  moreover have "zend_dirname s \<in> {[], ''/'', ''.'', p3}"
    unfolding zend_dirname_def Let_def p1_def [symmetric] p2_def [symmetric] p3_def [symmetric]
    by simp
  ultimately show ?thesis by (elim insertE emptyE) auto
qed

lemma server_string_in_script:
  "base_uri_script rt = Some b \<Longrightarrow> \<exists>n. server_string rt n = Some b"
  by (auto simp: base_uri_script_def Let_def split: option.splits if_splits)

lemma settle_base_uri_prefix:
  assumes "NUL \<notin> set uri" "\<And>n s. server_string rt n = Some s \<Longrightarrow> NUL \<notin> set s"
  shows "prefix (settle_base_uri rt uri) uri"
proof (cases "base_uri_script rt")
  case None
  then show ?thesis by (simp add: settle_base_uri_def)
next
  case (Some b)
  then have "NUL \<notin> set b"
    using assms(2) by (auto dest: server_string_in_script)
  moreover have "NUL \<notin> set (drop_last_slash (zend_dirname b))"
    using calculation set_drop_last_slash [of "zend_dirname b"] set_zend_dirname [of b] by auto
  ultimately show ?thesis
    using assms(1) Some
    by (auto simp: settle_base_uri_def Let_def strncmp0_prefix intro: prefix_drop_last_slash)
qed

lemma request_rel_uri_prefix:
  assumes "NUL \<notin> set (rq_uri rq)" "rq_base_uri rq = ZString b" "prefix b (rq_uri rq)"
  shows "b @ request_rel_uri rq = rq_uri rq"
proof -
  obtain t where t: "rq_uri rq = b @ t"
    using assms(3) by (auto simp: prefix_def)
  moreover have "NUL \<notin> set b"
    using assms(1) t by auto
  moreover have "prefix (zend_str_tolower b) (zend_str_tolower (rq_uri rq))"
    by (simp add: t)
  ultimately show ?thesis
    using assms(1,2) by (simp add: request_rel_uri_def strncasecmp0_prefix)
qed

end
