(* ===== verification/Yaf_Route_Base.thy ===== *)
theory Yaf_Route_Base
  imports Yaf_Request
begin

text \<open>
  What the route classes share: the parameter part of a URI (\<open>yaf_router_parse_parameters\<close> of
  \<open>yaf_router.c\<close>), the lookups and the query string of the \<open>assemble\<close> functions, and the
  contract of a route as a locale.  A route gets the executor state and the request and
  answers whether it matches, with the request it leaves; reading outside a buffer is an
  error value.
\<close>

type_synonym route_result = "mem_error + (bool \<times> yaf_request)"

section \<open>Parameters in a URI\<close>

lemma strtok_le: "php_strtok_r d cur = (t, cur') \<Longrightarrow> cursor_size cur' \<le> cursor_size cur"
proof (cases t)
  case None
  assume "php_strtok_r d cur = (t, cur')"
  with None show ?thesis
    by (auto simp: php_strtok_r_def cursor_size_def Let_def split: option.splits list.splits)
next
  case (Some x)
  assume "php_strtok_r d cur = (t, cur')"
  with Some show ?thesis
    using strtok_decreases [of d cur x cur'] by simp
qed

function parse_params_loop :: "string option \<Rightarrow> zval htab \<Rightarrow> zval htab" where
  "parse_params_loop cur params =
     (case php_strtok_r ''/'' cur of
        (None, _) \<Rightarrow> params
      | (Some key, cur1) \<Rightarrow>
          (case php_strtok_r ''/'' cur1 of
             (v, cur2) \<Rightarrow>
               parse_params_loop cur2
                 (hupdate (KStr key) (case v of Some s \<Rightarrow> ZString s | None \<Rightarrow> ZNull) params)))"
  by pat_completeness auto
termination
proof (relation "measure (\<lambda>(cur, params). cursor_size cur)", goal_cases)
  case 1
  then show ?case by simp
next
  case (2 cur params t cur1 key v cur2)
  then have "cursor_size cur1 < cursor_size cur" "cursor_size cur2 \<le> cursor_size cur1"
    using strtok_decreases [of "''/''" cur key cur1] strtok_le [of "''/''" cur1 v cur2] by auto
  then show ?case by simp
qed

declare parse_params_loop.simps [simp del]

definition yaf_router_parse_parameters :: "string \<Rightarrow> zval htab" where
  "yaf_router_parse_parameters uri = parse_params_loop (Some (cstr uri)) []"

text \<open>The reference: tokens taken in pairs, a last one alone gets \<open>null\<close>.\<close>

fun pair_up :: "string list \<Rightarrow> (string \<times> zval) list" where
  "pair_up [] = []"
| "pair_up [k] = [(k, ZNull)]"
| "pair_up (k # v # ts) = (k, ZString v) # pair_up ts"

lemma parse_params_loop_pairs:
  "parse_params_loop cur params =
     fold (\<lambda>(k, v). hupdate (KStr k) v) (pair_up (strtok_all ''/'' cur)) params"
proof (induction cur params rule: parse_params_loop.induct)
  case (1 cur params)
  obtain t cur1 where t: "php_strtok_r ''/'' cur = (t, cur1)" by fastforce
  obtain v cur2 where v: "php_strtok_r ''/'' cur1 = (v, cur2)" by fastforce
  show ?case
  proof (cases t)
    case None
    then show ?thesis
      by (simp add: parse_params_loop.simps [of cur] strtok_all.simps [of _ cur] t)
  next
    case (Some key)
    note ih = 1 [OF t [symmetric, unfolded Some] refl v [symmetric]]
    have c2: "cur2 = None" if "v = None"
      using v that by (auto simp: php_strtok_r_def Let_def split: option.splits list.splits)
    show ?thesis
      using ih Some t v c2
      by (cases v) (simp_all add: parse_params_loop.simps [of cur] strtok_all.simps [of _ cur]
          strtok_all.simps [of _ cur1])
  qed
qed

lemma parse_parameters_pairs:
  "yaf_router_parse_parameters uri =
     fold (\<lambda>(k, v). hupdate (KStr k) v) (pair_up (strtok_all ''/'' (Some (cstr uri)))) []"
  by (simp add: yaf_router_parse_parameters_def parse_params_loop_pairs)

lemma hwf_fold_hupdate: "hwf h \<Longrightarrow> hwf (fold (\<lambda>(k, v). hupdate (KStr k) v) kvs h)"
  by (induction kvs arbitrary: h) auto

lemma hwf_parse_parameters [simp, intro]: "hwf (yaf_router_parse_parameters uri)"
  by (simp add: parse_parameters_pairs hwf_fold_hupdate)

lemma parse_parameters_Nil [simp]: "yaf_router_parse_parameters [] = []"
  by (simp add: yaf_router_parse_parameters_def parse_params_loop.simps cstr_def)

text \<open>Parameters written as \<open>key/value/key/value\<close>.\<close>

fun param_segs :: "(string \<times> string) list \<Rightarrow> string list" where
  "param_segs [] = []"
| "param_segs ((k, v) # kvs) = k # v # param_segs kvs"

definition seg_ok :: "string \<Rightarrow> bool" where
  \<comment> \<open>a segment a path can carry\<close>
  "seg_ok s \<longleftrightarrow> s \<noteq> [] \<and> SLASH \<notin> set s \<and> NUL \<notin> set s"

lemma seg_ok_Nil [simp]: "\<not> seg_ok []"
  by (simp add: seg_ok_def)

lemma pair_up_param_segs:
  "pair_up (param_segs kvs) = map (\<lambda>(k, v). (k, ZString v)) kvs"
  by (induction kvs rule: param_segs.induct) auto

lemma param_segs_ok:
  "\<forall>(k, v) \<in> set kvs. seg_ok k \<and> seg_ok v \<Longrightarrow> \<forall>s \<in> set (param_segs kvs). seg_ok s"
  by (induction kvs rule: param_segs.induct) auto

lemma NUL_join: "c \<noteq> NUL \<Longrightarrow> \<forall>s \<in> set ss. NUL \<notin> set s \<Longrightarrow> NUL \<notin> set (join c ss)"
  by (induction c ss rule: join.induct) auto

lemma hfind_fold_hupdate:
  "hfind (fold (\<lambda>(k, v). hupdate (KStr k) v) kvs h) (KStr k) =
     (case map_of (rev kvs) k of Some v \<Rightarrow> Some v | None \<Rightarrow> hfind h (KStr k))"
  by (induction kvs arbitrary: h) (auto simp: map_add_def split: option.splits)

lemma parse_parameters_join:
  assumes "\<forall>(k, v) \<in> set kvs. seg_ok k \<and> seg_ok v"
  shows "hfind (yaf_router_parse_parameters (join SLASH (param_segs kvs))) (KStr k) =
           map_option ZString (map_of (rev kvs) k)"
proof -
  have ok: "\<forall>s \<in> set (param_segs kvs). seg_ok s"
    using assms by (rule param_segs_ok)
  then have "NUL \<notin> set (join SLASH (param_segs kvs))"
    using NUL_join [of SLASH "param_segs kvs"] by (simp add: seg_ok_def)
  with ok have "strtok_all ''/'' (Some (cstr (join SLASH (param_segs kvs)))) = param_segs kvs"
    using strtok_all_join [of "param_segs kvs" SLASH] by (simp add: seg_ok_def)
  moreover
  have "map_of (rev (map (\<lambda>(k, v). (k, ZString v)) kvs)) k = map_option ZString (map_of (rev kvs) k)"
    by (simp add: rev_map map_of_map)
  ultimately show ?thesis
    by (simp add: parse_parameters_pairs pair_up_param_segs hfind_fold_hupdate split: option.split)
qed

section \<open>Assembling\<close>

definition info_string :: "zval htab \<Rightarrow> string \<Rightarrow> string option" where
  \<comment> \<open>\<open>zend_hash_str_find\<close> and \<open>zval_get_string\<close>\<close>
  "info_string info key = map_option zval_get_string (hfind info (KStr key))"

fun amp_query :: "zval htab \<Rightarrow> string" where
  \<comment> \<open>each string key with its value, an ampersand before it\<close>
  "amp_query [] = []"
| "amp_query ((KInt _, _) # q) = amp_query q"
| "amp_query ((KStr k, v) # q) = ''&'' @ k @ ''='' @ zval_get_string v @ amp_query q"

fun query_amp :: "zval htab \<Rightarrow> string" where
  \<comment> \<open>each string key with its value, an ampersand behind it\<close>
  "query_amp [] = []"
| "query_amp ((KInt _, _) # q) = query_amp q"
| "query_amp ((KStr k, v) # q) = k @ ''='' @ zval_get_string v @ ''&'' @ query_amp q"

text \<open>Both put one ampersand between two items.\<close>

lemma query_amp_shift: "''&'' @ query_amp q = amp_query q @ ''&''"
  by (induction q rule: query_amp.induct) auto

lemma query_amp_butlast:
  "query_amp q \<noteq> [] \<Longrightarrow> amp_query q = CHR ''&'' # butlast (query_amp q)"
proof -
  assume a: "query_amp q \<noteq> []"
  then have "amp_query q \<noteq> []"
    using query_amp_shift [of q] by auto
  then have "butlast (''&'' @ query_amp q) = amp_query q"
    by (simp only: query_amp_shift butlast_append) simp
  with a show ?thesis by simp
qed

definition missing_controller :: string where
  "missing_controller = ''You need to specify the controller by '' @ [CHR 0x27] @ '':c'' @ [CHR 0x27]"

definition missing_action :: string where
  "missing_action = ''You need to specify the action by '' @ [CHR 0x27] @ '':a'' @ [CHR 0x27]"

section \<open>The contract of a route\<close>

text \<open>The part of a request no route touches.\<close>

definition request_frame ::
    "yaf_request \<Rightarrow> zval \<times> zval \<times> zval \<times> zval \<times> string \<times> bool \<times> bool" where
  "request_frame rq = (rq_method rq, rq_lang rq, rq_exception rq, rq_base_uri rq, rq_uri rq,
     rq_dispatched rq, rq_routed rq)"

lemma request_frame_simps [simp]:
  "request_frame (rq\<lparr>rq_module := v\<rparr>) = request_frame rq"
  "request_frame (rq\<lparr>rq_controller := v\<rparr>) = request_frame rq"
  "request_frame (rq\<lparr>rq_action := v\<rparr>) = request_frame rq"
  "request_frame (rq\<lparr>rq_params := p\<rparr>) = request_frame rq"
  by (simp_all add: request_frame_def)

lemma request_frame_params [simp]:
  "request_frame (snd (yaf_request_set_params_multi v rq)) = request_frame rq"
  by (auto simp: yaf_request_set_params_multi_def split: zval.splits)

locale routing =
  fixes route :: "php_rt \<Rightarrow> yaf_request \<Rightarrow> route_result"
  assumes unmatched: "route rt rq = Inr (False, rq') \<Longrightarrow> rq' = rq"
    and frame: "route rt rq = Inr (b, rq') \<Longrightarrow> request_frame rq' = request_frame rq"
    and params_wf: "route rt rq = Inr (b, rq') \<Longrightarrow> hwf (rq_params rq) \<Longrightarrow> hwf (rq_params rq')"
begin

lemma contract:
  "route rt rq = Inr (b, rq') \<Longrightarrow> (\<not> b \<longrightarrow> rq' = rq) \<and> request_frame rq' = request_frame rq \<and>
     (hwf (rq_params rq) \<longrightarrow> hwf (rq_params rq'))"
  using unmatched [of rt rq rq'] frame [of rt rq b rq'] params_wf [of rt rq b rq'] by (cases b) auto

lemma rel_uri_kept: "route rt rq = Inr (b, rq') \<Longrightarrow> request_rel_uri rq' = request_rel_uri rq"
  using frame [of rt rq b rq'] by (simp add: request_frame_def request_rel_uri_def split: zval.split)

lemma routed_kept: "route rt rq = Inr (b, rq') \<Longrightarrow> rq_routed rq' = rq_routed rq"
  using frame [of rt rq b rq'] by (simp add: request_frame_def)

lemma dispatched_kept: "route rt rq = Inr (b, rq') \<Longrightarrow> rq_dispatched rq' = rq_dispatched rq"
  using frame [of rt rq b rq'] by (simp add: request_frame_def)

end

section \<open>Setting the names\<close>

definition set_names :: "string option \<Rightarrow> string option \<Rightarrow> string option \<Rightarrow> yaf_request \<Rightarrow> yaf_request" where
  \<comment> \<open>\<open>zend_update_property_stringl\<close> of each name that was found\<close>
  "set_names m c a rq =
     rq\<lparr>rq_module := (case m of Some s \<Rightarrow> ZString s | None \<Rightarrow> rq_module rq),
        rq_controller := (case c of Some s \<Rightarrow> ZString s | None \<Rightarrow> rq_controller rq),
        rq_action := (case a of Some s \<Rightarrow> ZString s | None \<Rightarrow> rq_action rq)\<rparr>"

lemma set_names_frame [simp]: "request_frame (set_names m c a rq) = request_frame rq"
  by (simp add: set_names_def)

lemma set_names_params [simp]: "rq_params (set_names m c a rq) = rq_params rq"
  by (simp add: set_names_def)

end
