(* ===== verification/Yaf_Route_Static.thy ===== *)
theory Yaf_Route_Static
  imports Yaf_Route_Base
begin

text \<open>
  The default route (\<open>routes/yaf_route_static.c\<close>): \<open>yaf_route_pathinfo_route\<close> splits a path into
  module, controller, action and parameters in four stages, \<open>yaf_route_static_route\<close> applies
  it to the URI behind the base URI, \<open>yaf_route_static_assemble\<close> writes a path.  A pointer
  into the URI is the rest of the string from there on.
\<close>

section \<open>The path split\<close>

definition strip_slashs :: "string \<Rightarrow> string" where
  "strip_slashs p = dropWhile (\<lambda>c. c = CHR '' '' \<or> c = SLASH) p"

definition strip_tail :: "string \<Rightarrow> string" where
  \<comment> \<open>the loop over \<open>q\<close>, which stops at the first byte of the URI\<close>
  "strip_tail uri =
     (case uri of
        [] \<Rightarrow> []
      | c # cs \<Rightarrow> c # rev (dropWhile (\<lambda>c. c = CHR '' '' \<or> c = SLASH) (rev cs)))"

definition split_slash :: "string \<Rightarrow> (string \<times> string) option" where
  \<comment> \<open>\<open>(s = strstr(p, "/")) != NULL\<close>: what stands before \<open>s\<close>, and \<open>s + 1\<close>\<close>
  "split_slash p = map_option (\<lambda>i. (take i p, drop (Suc i) p)) (strstr p ''/'')"

record pathinfo =
  pi_module :: "string option"
  pi_controller :: "string option"
  pi_action :: "string option"
  pi_rest :: "string option"

definition pathinfo_none :: pathinfo where
  "pathinfo_none = \<lparr>pi_module = None, pi_controller = None, pi_action = None, pi_rest = None\<rparr>"

definition pathinfo_names :: "php_rt \<Rightarrow> string \<Rightarrow> pathinfo \<times> string" where
  \<comment> \<open>module and controller, as far as slashes end them\<close>
  "pathinfo_names rt p =
     (case split_slash p of
        None \<Rightarrow> (pathinfo_none, p)
      | Some (seg, p1) \<Rightarrow>
          if yaf_application_is_module_name rt seg then
            (let p2 = strip_slashs p1; pi = pathinfo_none\<lparr>pi_module := Some seg\<rparr>
             in case split_slash p2 of
                  None \<Rightarrow> (pi, p2)
                | Some (c, p3) \<Rightarrow> (pi\<lparr>pi_controller := Some c\<rparr>, p3))
          else (pathinfo_none\<lparr>pi_controller := Some seg\<rparr>, p1))"

definition pathinfo_action :: "pathinfo \<times> string \<Rightarrow> pathinfo \<times> string" where
  "pathinfo_action = (\<lambda>(pi, p).
     let p = strip_slashs p
     in case split_slash p of
          None \<Rightarrow> (pi, p)
        | Some (a, p1) \<Rightarrow> (pi\<lparr>pi_action := Some a\<rparr>, p1))"

definition pathinfo_tail :: "php_rt \<Rightarrow> pathinfo \<times> string \<Rightarrow> pathinfo" where
  "pathinfo_tail rt = (\<lambda>(pi, p).
     let p = strip_slashs p
     in if p = [] then pi
        else if pi_module pi = None \<and> pi_controller pi = None \<and> pi_action pi = None
                \<and> yaf_application_is_module_name rt p
        then pi\<lparr>pi_module := Some p\<rparr>
        else if pi_controller pi = None then pi\<lparr>pi_controller := Some p\<rparr>
        else if pi_action pi = None then pi\<lparr>pi_action := Some p\<rparr>
        else pi\<lparr>pi_rest := Some p\<rparr>)"

definition pathinfo_adjust :: "php_rt \<Rightarrow> pathinfo \<Rightarrow> pathinfo" where
  "pathinfo_adjust rt pi =
     (if pi_module pi \<noteq> None \<and> pi_controller pi = None
      then pi\<lparr>pi_controller := pi_module pi, pi_module := None\<rparr>
      else if pi_module pi \<noteq> None \<and> pi_action pi = None
      then pi\<lparr>pi_action := pi_controller pi, pi_controller := pi_module pi, pi_module := None\<rparr>
      else if pi_controller pi \<noteq> None \<and> pi_action pi = None \<and> g_action_prefer (rt_g rt)
      then pi\<lparr>pi_action := pi_controller pi, pi_controller := None\<rparr>
      else pi)"

definition pathinfo_split :: "php_rt \<Rightarrow> string \<Rightarrow> pathinfo" where
  "pathinfo_split rt req_uri =
     (if req_uri = [] \<or> req_uri = [SLASH] then pathinfo_none
      else pathinfo_adjust rt (pathinfo_tail rt (pathinfo_action
             (pathinfo_names rt (strip_slashs (cstr (strip_tail req_uri)))))))"

definition yaf_route_pathinfo_route :: "php_rt \<Rightarrow> yaf_request \<Rightarrow> string \<Rightarrow> yaf_request" where
  "yaf_route_pathinfo_route rt rq req_uri =
     (let pi = pathinfo_split rt req_uri;
          rq = set_names (pi_module pi) (pi_controller pi) (pi_action pi) rq
      in case pi_rest pi of
           None \<Rightarrow> rq
         | Some rest \<Rightarrow>
             snd (yaf_request_set_params_multi (ZArray (yaf_router_parse_parameters rest)) rq))"

definition yaf_route_static_route :: "php_rt \<Rightarrow> yaf_request \<Rightarrow> route_result" where
  "yaf_route_static_route rt rq = Inr (True, yaf_route_pathinfo_route rt rq (request_rel_uri rq))"

section \<open>Assembling a path\<close>

fun static_query :: "bool \<Rightarrow> bool \<Rightarrow> zval htab \<Rightarrow> string" where
  \<comment> \<open>\<open>start\<close>: the question mark is written; \<open>end\<close>: an item is\<close>
  "static_query start end [] = []"
| "static_query start end ((KInt _, _) # q) = static_query start end q"
| "static_query start end ((KStr k, v) # q) =
     (if start then [] else ''?'') @ (if end then ''&'' else [])
     @ k @ ''='' @ zval_get_string v @ static_query True True q"

definition yaf_route_static_assemble ::
    "zval htab \<Rightarrow> zval htab option \<Rightarrow> php_rt \<Rightarrow> string option \<times> php_rt" where
  "yaf_route_static_assemble info query rt =
     (let m = (case info_string info '':m'' of Some s \<Rightarrow> SLASH # s | None \<Rightarrow> [])
      in case info_string info '':c'' of
           None \<Rightarrow> (None, yaf_trigger_error ERR_TYPE_ERROR missing_controller rt)
         | Some c \<Rightarrow>
            (case info_string info '':a'' of
               None \<Rightarrow> (None, yaf_trigger_error ERR_TYPE_ERROR missing_action rt)
             | Some a \<Rightarrow>
                 (Some (m @ SLASH # c @ SLASH # a @
                    (case query of Some q \<Rightarrow> static_query False False q | None \<Rightarrow> [])), rt)))"

section \<open>Facts\<close>

lemma static_query_started: "static_query True True q = amp_query q"
  by (induction q rule: amp_query.induct) auto

lemma static_query_amp: "static_query False False q = (case amp_query q of [] \<Rightarrow> [] | _ # s \<Rightarrow> CHR ''?'' # s)"
  by (induction q rule: amp_query.induct) (auto simp: static_query_started)

subsection \<open>The stages on segments\<close>

lemma split_slash_None: "split_slash p = None \<longleftrightarrow> SLASH \<notin> set p"
  by (simp add: split_slash_def strstr_char_None)

lemma split_slash_Some:
  "split_slash p = Some (a, b) \<Longrightarrow> p = a @ SLASH # b \<and> SLASH \<notin> set a"
  by (auto simp: split_slash_def dest: strstr_char_Some)

lemma split_slash_seg [simp]: "SLASH \<notin> set a \<Longrightarrow> split_slash (a @ SLASH # b) = Some (a, b)"
  by (simp add: split_slash_def)

lemma split_slash_plain [simp]: "SLASH \<notin> set a \<Longrightarrow> split_slash a = None"
  by (simp add: split_slash_None)

definition path_seg :: "string \<Rightarrow> bool" where
  \<comment> \<open>a segment neither end of which is stripped\<close>
  "path_seg s \<longleftrightarrow> seg_ok s \<and> hd s \<noteq> CHR '' '' \<and> last s \<noteq> CHR '' ''"

lemma path_segD:
  "path_seg s \<Longrightarrow> s \<noteq> [] \<and> SLASH \<notin> set s \<and> NUL \<notin> set s \<and>
     hd s \<noteq> CHR '' '' \<and> last s \<noteq> CHR '' '' \<and> hd s \<noteq> SLASH \<and> last s \<noteq> SLASH"
  unfolding path_seg_def seg_ok_def by (metis hd_in_set last_in_set)

lemma strip_slashs_start:
  "p \<noteq> [] \<Longrightarrow> hd p \<noteq> SLASH \<Longrightarrow> hd p \<noteq> CHR '' '' \<Longrightarrow> strip_slashs p = p"
  by (cases p) (auto simp: strip_slashs_def)

lemma strip_slashs_seg [simp]: "path_seg s \<Longrightarrow> strip_slashs (s @ t) = s @ t"
  by (rule strip_slashs_start) (auto dest!: path_segD)

lemma strip_slashs_seg' [simp]: "path_seg s \<Longrightarrow> strip_slashs s = s"
  using strip_slashs_seg [of s "[]"] by simp

lemma strip_slashs_slash [simp]: "strip_slashs (SLASH # p) = strip_slashs p"
  by (simp add: strip_slashs_def)

lemma strip_slashs_Nil [simp]: "strip_slashs [] = []"
  by (simp add: strip_slashs_def)

lemma hd_strip_slashs: "strip_slashs p \<noteq> [] \<Longrightarrow> hd (strip_slashs p) \<noteq> SLASH \<and> hd (strip_slashs p) \<noteq> CHR '' ''"
  using hd_dropWhile [of "\<lambda>c. c = CHR '' '' \<or> c = SLASH" p] by (simp add: strip_slashs_def)

lemma strip_tail_keeps:
  "p \<noteq> [] \<Longrightarrow> last p \<noteq> SLASH \<Longrightarrow> last p \<noteq> CHR '' '' \<Longrightarrow> strip_tail p = p"
proof (cases p)
  case (Cons c cs)
  assume a: "last p \<noteq> SLASH" "last p \<noteq> CHR '' ''"
  show ?thesis
  proof (cases "cs = []")
    case True
    with Cons show ?thesis by (simp add: strip_tail_def)
  next
    case False
    with a Cons have "hd (rev cs) \<noteq> SLASH" "hd (rev cs) \<noteq> CHR '' ''" "rev cs \<noteq> []"
      by (auto simp: hd_rev)
    then have "dropWhile (\<lambda>c. c = CHR '' '' \<or> c = SLASH) (rev cs) = rev cs"
      by (cases "rev cs") auto
    with Cons show ?thesis by (simp add: strip_tail_def)
  qed
qed simp

lemma pathinfo_split_path:
  assumes "p \<noteq> []" "hd p \<noteq> SLASH" "hd p \<noteq> CHR '' ''" "last p \<noteq> SLASH" "last p \<noteq> CHR '' ''"
    and "NUL \<notin> set p"
  shows "pathinfo_split rt (SLASH # p) =
           pathinfo_adjust rt (pathinfo_tail rt (pathinfo_action (pathinfo_names rt p)))"
proof -
  have "strip_tail (SLASH # p) = SLASH # p"
    using assms by (intro strip_tail_keeps) auto
  moreover have "cstr (SLASH # p) = SLASH # p"
    using assms by (intro cstr_id) simp
  ultimately show ?thesis
    using assms by (simp add: pathinfo_split_def strip_slashs_start)
qed


subsection \<open>What the stages find\<close>

text \<open>
  The invariant of the stages: a found name is a non-empty, slash-free part of the path, a
  module is one of the application, and the names are found from the left.
\<close>

definition name_ok :: "string option \<Rightarrow> bool" where
  "name_ok n = (case n of None \<Rightarrow> True | Some s \<Rightarrow> s \<noteq> [] \<and> SLASH \<notin> set s)"

definition pi_ok :: "php_rt \<Rightarrow> pathinfo \<Rightarrow> bool" where
  "pi_ok rt pi \<longleftrightarrow> name_ok (pi_module pi) \<and> name_ok (pi_controller pi) \<and> name_ok (pi_action pi) \<and>
     (\<forall>m. pi_module pi = Some m \<longrightarrow> yaf_application_is_module_name rt m)"

lemma name_ok_simps [simp]: "name_ok None" "name_ok (Some s) \<longleftrightarrow> s \<noteq> [] \<and> SLASH \<notin> set s"
  by (simp_all add: name_ok_def)

lemma pi_ok_none [simp]: "pi_ok rt pathinfo_none"
  by (simp add: pi_ok_def pathinfo_none_def)

lemma split_stripped:
  assumes "split_slash (strip_slashs p) = Some (a, b)"
  shows "a \<noteq> [] \<and> SLASH \<notin> set a"
  using split_slash_Some [OF assms] hd_strip_slashs [of p] by auto

lemma pathinfo_names_ok:
  assumes "pathinfo_names rt (strip_slashs p) = (pi, q)"
  shows "pi_ok rt pi \<and> pi_action pi = None \<and> pi_rest pi = None \<and>
     (pi_controller pi = None \<longrightarrow> SLASH \<notin> set q)"
proof (cases "split_slash (strip_slashs p)")
  case None
  with assms show ?thesis
    by (auto simp: pathinfo_names_def pathinfo_none_def pi_ok_def split_slash_None)
next
  case (Some sb)
  obtain seg p1 where sp: "split_slash (strip_slashs p) = Some (seg, p1)"
    using Some by (cases sb) auto
  have seg: "seg \<noteq> []" "SLASH \<notin> set seg"
    using split_stripped [OF sp] by auto
  show ?thesis
  proof (cases "yaf_application_is_module_name rt seg")
    case False
    with assms sp seg show ?thesis
      by (auto simp: pathinfo_names_def pathinfo_none_def pi_ok_def)
  next
    case True
    show ?thesis
    proof (cases "split_slash (strip_slashs p1)")
      case None
      with True assms sp seg show ?thesis
        by (auto simp: pathinfo_names_def pathinfo_none_def pi_ok_def split_slash_None Let_def)
    next
      case (Some cb)
      then obtain c p3 where c: "split_slash (strip_slashs p1) = Some (c, p3)"
        by (cases cb) auto
      with True assms sp seg split_stripped [OF c] show ?thesis
        by (auto simp: pathinfo_names_def pathinfo_none_def pi_ok_def Let_def)
    qed
  qed
qed

lemma pathinfo_action_ok:
  assumes "pathinfo_action (pi, p) = (pi', q)" "pi_ok rt pi" "pi_action pi = None"
    and "pi_controller pi = None \<longrightarrow> SLASH \<notin> set p"
  shows "pi_ok rt pi' \<and> pi_rest pi' = pi_rest pi \<and>
     (pi_controller pi' = None \<longrightarrow> pi_action pi' = None) \<and>
     (pi_action pi' = None \<longrightarrow> SLASH \<notin> set q)"
proof (cases "split_slash (strip_slashs p)")
  case None
  with assms show ?thesis
    by (auto simp: pathinfo_action_def split_slash_None)
next
  case (Some ab)
  then obtain a b where ab: "split_slash (strip_slashs p) = Some (a, b)"
    by (cases ab) auto
  then have "SLASH \<in> set p"
    using split_slash_Some [OF ab] set_dropWhileD [of SLASH _ p]
    by (metis in_set_conv_decomp strip_slashs_def)
  with ab assms split_stripped [OF ab] show ?thesis
    by (auto simp: pathinfo_action_def pi_ok_def)
qed

lemma pathinfo_tail_ok:
  assumes "pi_ok rt pi" "pi_controller pi = None \<longrightarrow> pi_action pi = None"
    and "pi_action pi = None \<longrightarrow> SLASH \<notin> set p" "pi_rest pi = None"
  shows "pi_ok rt (pathinfo_tail rt (pi, p)) \<and>
     (pi_controller (pathinfo_tail rt (pi, p)) = None \<longrightarrow> pi_action (pathinfo_tail rt (pi, p)) = None) \<and>
     (pi_rest (pathinfo_tail rt (pi, p)) \<noteq> None \<longrightarrow> pi_action (pathinfo_tail rt (pi, p)) \<noteq> None)"
proof -
  have "SLASH \<notin> set p \<Longrightarrow> SLASH \<notin> set (strip_slashs p)"
    by (auto simp: strip_slashs_def dest: set_dropWhileD)
  with assms show ?thesis
    by (auto simp: pathinfo_tail_def pi_ok_def Let_def)
qed

lemma pathinfo_adjust_ok:
  assumes "pi_ok rt pi" "pi_controller pi = None \<longrightarrow> pi_action pi = None"
    and "pi_rest pi \<noteq> None \<longrightarrow> pi_action pi \<noteq> None"
  shows "pi_ok rt (pathinfo_adjust rt pi) \<and>
     (pi_module (pathinfo_adjust rt pi) \<noteq> None \<longrightarrow>
        pi_controller (pathinfo_adjust rt pi) \<noteq> None \<and> pi_action (pathinfo_adjust rt pi) \<noteq> None) \<and>
     (pi_rest (pathinfo_adjust rt pi) \<noteq> None \<longrightarrow>
        pi_controller (pathinfo_adjust rt pi) \<noteq> None \<and> pi_action (pathinfo_adjust rt pi) \<noteq> None)"
  using assms by (auto simp: pathinfo_adjust_def pi_ok_def)

lemma pathinfo_stages_ok:
  assumes "pi = pathinfo_tail rt (pathinfo_action (pathinfo_names rt (strip_slashs p)))"
  shows "pi_ok rt pi \<and> (pi_controller pi = None \<longrightarrow> pi_action pi = None) \<and>
     (pi_rest pi \<noteq> None \<longrightarrow> pi_action pi \<noteq> None)"
proof -
  obtain p1 q1 where 1: "pathinfo_names rt (strip_slashs p) = (p1, q1)" by fastforce
  obtain p2 q2 where 2: "pathinfo_action (p1, q1) = (p2, q2)" by fastforce
  note a = pathinfo_names_ok [OF 1]
  note b = pathinfo_action_ok [OF 2, of rt]
  show ?thesis
    using pathinfo_tail_ok [of rt p2 q2] a b assms by (simp add: 1 2)
qed


subsection \<open>The stages on a written path\<close>

lemma join_Cons: "ss \<noteq> [] \<Longrightarrow> join c (s # ss) = s @ c # join c ss"
  by (cases ss) auto

lemma join_append1: "join c (s # ss) = s @ (case ss of [] \<Rightarrow> [] | _ \<Rightarrow> c # join c ss)"
  by (cases ss) auto

lemma hd_join: "s \<noteq> [] \<Longrightarrow> hd (join c (s # ss)) = hd s"
  by (cases s; cases ss) auto

lemma join_nonempty: "s \<noteq> [] \<Longrightarrow> join c (s # ss) \<noteq> []"
  by (cases ss) auto

lemma last_join: "ss \<noteq> [] \<Longrightarrow> \<forall>s \<in> set ss. s \<noteq> [] \<Longrightarrow> last (join c ss) = last (last ss)"
proof (induction c ss rule: join.induct)
  case (3 c s s' ss)
  then show ?case using join_nonempty [of s' c ss] by simp
qed simp_all

lemma path_segs_shape:
  assumes "ss \<noteq> []" "\<forall>s \<in> set ss. path_seg s"
  shows "join SLASH ss \<noteq> [] \<and> hd (join SLASH ss) \<noteq> SLASH \<and> hd (join SLASH ss) \<noteq> CHR '' '' \<and>
    last (join SLASH ss) \<noteq> SLASH \<and> last (join SLASH ss) \<noteq> CHR '' '' \<and> NUL \<notin> set (join SLASH ss)"
proof -
  obtain s ss' where s: "ss = s # ss'" using assms(1) by (cases ss) auto
  have "path_seg (last ss)" "path_seg s" "\<forall>s \<in> set ss. s \<noteq> [] \<and> NUL \<notin> set s"
    using assms s by (auto dest: path_segD)
  moreover have "last (join SLASH ss) = last (last ss)"
    using calculation assms(1) by (intro last_join) auto
  moreover have "NUL \<notin> set (join SLASH ss)"
    using calculation NUL_join [of SLASH ss] by simp
  ultimately show ?thesis
    using hd_join [of s SLASH ss'] join_nonempty [of s SLASH ss'] by (auto simp: s dest!: path_segD)
qed

definition mca_segs :: "string option \<Rightarrow> string \<Rightarrow> string \<Rightarrow> string list" where
  "mca_segs m c a = (case m of Some s \<Rightarrow> [s] | None \<Rightarrow> []) @ [c, a]"

lemma mca_segs_nonempty [simp]: "mca_segs m c a \<noteq> []"
  by (simp add: mca_segs_def)

lemma pathinfo_mca:
  assumes segs: "\<forall>s \<in> set (mca_segs m c a @ ps). path_seg s"
    and m: "case m of Some s \<Rightarrow> yaf_application_is_module_name rt s
                    | None \<Rightarrow> \<not> yaf_application_is_module_name rt c"
  shows "pathinfo_split rt (SLASH # join SLASH (mca_segs m c a @ ps)) =
    \<lparr>pi_module = m, pi_controller = Some c, pi_action = Some a,
     pi_rest = (if ps = [] then None else Some (join SLASH ps))\<rparr>"
proof -
  define rest where "rest = (case ps of [] \<Rightarrow> [] | _ \<Rightarrow> SLASH # join SLASH ps)"
  have ca: "path_seg c" "path_seg a" "\<forall>s \<in> set ps. path_seg s"
    using segs by (auto simp: mca_segs_def)
  note d = ca(1,2) [THEN path_segD]
  have ps: "ps \<noteq> [] \<Longrightarrow> strip_slashs (join SLASH ps) = join SLASH ps \<and> join SLASH ps \<noteq> []"
    using path_segs_shape [of ps] ca(3) by (auto intro!: strip_slashs_start)
  have names: "pathinfo_names rt (join SLASH (mca_segs m c a @ ps)) =
    (pathinfo_none\<lparr>pi_module := m, pi_controller := Some c\<rparr>, a @ rest)"
  proof (cases m)
    case None
    then have "join SLASH (mca_segs m c a @ ps) = c @ SLASH # a @ rest"
      by (simp add: mca_segs_def join_append1 rest_def)
    with None m d show ?thesis by (simp add: pathinfo_names_def pathinfo_none_def)
  next
    case (Some x)
    then have "path_seg x" using segs by (auto simp: mca_segs_def)
    moreover have "join SLASH (mca_segs m c a @ ps) = x @ SLASH # c @ SLASH # a @ rest"
      using Some by (simp add: mca_segs_def join_append1 rest_def)
    ultimately show ?thesis
      using Some m d path_segD [of x] strip_slashs_seg [OF ca(1)]
      by (simp add: pathinfo_names_def pathinfo_none_def Let_def)
  qed
  have "pathinfo_split rt (SLASH # join SLASH (mca_segs m c a @ ps)) = pathinfo_adjust rt
    (pathinfo_tail rt (pathinfo_action (pathinfo_none\<lparr>pi_module := m, pi_controller := Some c\<rparr>, a @ rest)))"
    using pathinfo_split_path [of "join SLASH (mca_segs m c a @ ps)"] path_segs_shape [OF _ segs]
    by (simp add: names)
  then show ?thesis
    using d ca(2) ps by (cases ps)
      (auto simp: rest_def pathinfo_action_def pathinfo_tail_def pathinfo_adjust_def pathinfo_none_def Let_def)
qed

section \<open>The route contract\<close>

lemma pathinfo_route_frame [simp]:
  "request_frame (yaf_route_pathinfo_route rt rq u) = request_frame rq"
  by (simp add: yaf_route_pathinfo_route_def Let_def split: option.split)

lemma pathinfo_route_hwf:
  "hwf (rq_params rq) \<Longrightarrow> hwf (rq_params (yaf_route_pathinfo_route rt rq u))"
  by (simp add: yaf_route_pathinfo_route_def Let_def set_params_multi_hwf split: option.split)

interpretation static_route: routing yaf_route_static_route
  by unfold_locales (auto simp: yaf_route_static_route_def pathinfo_route_hwf)

lemma pathinfo_route_names:
  "rq_module (yaf_route_pathinfo_route rt rq u) =
     (case pi_module (pathinfo_split rt u) of Some s \<Rightarrow> ZString s | None \<Rightarrow> rq_module rq)"
  "rq_controller (yaf_route_pathinfo_route rt rq u) =
     (case pi_controller (pathinfo_split rt u) of Some s \<Rightarrow> ZString s | None \<Rightarrow> rq_controller rq)"
  "rq_action (yaf_route_pathinfo_route rt rq u) =
     (case pi_action (pathinfo_split rt u) of Some s \<Rightarrow> ZString s | None \<Rightarrow> rq_action rq)"
  by (simp_all add: yaf_route_pathinfo_route_def Let_def set_names_def split: option.split)

lemma pathinfo_route_param:
  assumes "pi_rest (pathinfo_split rt u) = (if kvs = [] then None else Some (join SLASH (param_segs kvs)))"
    and "\<forall>(k, v) \<in> set kvs. seg_ok k \<and> seg_ok v"
  shows "yaf_request_get_param (yaf_route_pathinfo_route rt rq u) k =
    (case map_of (rev kvs) k of Some v \<Rightarrow> Some (ZString v) | None \<Rightarrow> yaf_request_get_param rq k)"
proof (cases "kvs = []")
  case True
  with assms show ?thesis
    by (simp add: yaf_route_pathinfo_route_def yaf_request_get_param_def Let_def)
next
  case False
  then have "yaf_request_get_param (yaf_route_pathinfo_route rt rq u) k =
    (case hfind (yaf_router_parse_parameters (join SLASH (param_segs kvs))) (KStr k) of
       Some v \<Rightarrow> Some v | None \<Rightarrow> yaf_request_get_param rq k)"
    using assms(1) by (simp add: yaf_route_pathinfo_route_def Let_def set_params_multi_lookup)
      (simp add: yaf_request_get_param_def split: option.split)
  then show ?thesis
    by (simp add: parse_parameters_join [OF assms(2)] split: option.split)
qed

lemma cut_at_query: "CHR ''?'' \<notin> set p \<Longrightarrow> NUL \<notin> set p \<Longrightarrow> uri_before_query (p @ CHR ''?'' # t) = p"
proof -
  assume p: "CHR ''?'' \<notin> set p" "NUL \<notin> set p"
  have "cstr (p @ CHR ''?'' # t) = p @ CHR ''?'' # cstr t"
    using p(2) by (induction p) (auto simp: cstr_def)
  then show ?thesis using p(1) by (simp add: uri_before_query_def)
qed

lemma no_query: "CHR ''?'' \<notin> set p \<Longrightarrow> NUL \<notin> set p \<Longrightarrow> uri_before_query p = p"
  using strstr_char_None [of p "CHR ''?''"] by (simp add: uri_before_query_def)

lemma static_query_uri: "uri_before_query (p @ static_query False False q) = p"
  if "CHR ''?'' \<notin> set p" "NUL \<notin> set p"
proof -
  have "static_query False False q = [] \<or> (\<exists>t. static_query False False q = CHR ''?'' # t)"
    by (simp add: static_query_amp split: list.split)
  then show ?thesis using cut_at_query [OF that] no_query [OF that] by auto
qed

section \<open>Properties\<close>

lemma path_seg_seg_ok: "path_seg s \<Longrightarrow> seg_ok s"
  by (simp add: path_seg_def)

lemma param_segs_path: "\<forall>(k, v) \<in> set kvs. path_seg k \<and> path_seg v \<Longrightarrow> \<forall>s \<in> set (param_segs kvs). path_seg s"
  by (induction kvs rule: param_segs.induct) auto

lemma param_segs_empty [simp]: "param_segs kvs = [] \<longleftrightarrow> kvs = []"
  by (cases kvs rule: param_segs.cases) auto

text \<open>
  C12: A path \<open>/module/controller/action/key/value...\<close> is routed to its parts.  The module is
  set where the first segment is a module of the application; a path without one leaves the
  module of the request alone.  Every pair behind the action is a parameter, the last pair of
  a key wins, and the other parameters stay.
\<close>

theorem static_route_path:
  assumes "\<forall>s \<in> set (mca_segs m c a). path_seg s" "\<forall>(k, v) \<in> set kvs. path_seg k \<and> path_seg v"
    and "case m of Some s \<Rightarrow> yaf_application_is_module_name rt s
                 | None \<Rightarrow> \<not> yaf_application_is_module_name rt c"
    and "request_rel_uri rq = SLASH # join SLASH (mca_segs m c a @ param_segs kvs)"
  shows "\<exists>rq'. yaf_route_static_route rt rq = Inr (True, rq') \<and>
    rq_module rq' = (case m of Some s \<Rightarrow> ZString s | None \<Rightarrow> rq_module rq) \<and>
    rq_controller rq' = ZString c \<and> rq_action rq' = ZString a \<and>
    (\<forall>k. yaf_request_get_param rq' k =
      (case map_of (rev kvs) k of Some v \<Rightarrow> Some (ZString v) | None \<Rightarrow> yaf_request_get_param rq k))"
proof -
  have "\<forall>s \<in> set (mca_segs m c a @ param_segs kvs). path_seg s"
    using assms(1) param_segs_path [OF assms(2)] by auto
  note pi = pathinfo_mca [OF this assms(3), folded assms(4)]
  have ok: "\<forall>(k, v) \<in> set kvs. seg_ok k \<and> seg_ok v"
    using assms(2) by (auto intro: path_seg_seg_ok)
  have rest: "pi_rest (pathinfo_split rt (request_rel_uri rq)) =
      (if kvs = [] then None else Some (join SLASH (param_segs kvs)))"
    by (simp add: pi)
  show ?thesis
    using pathinfo_route_param [OF rest ok]
    by (simp add: yaf_route_static_route_def pathinfo_route_names pi)
qed

lemma static_route_path_witness:
  "\<exists>rq'. yaf_route_static_route sample_rt (yaf_request_init\<lparr>rq_uri := ''/admin/user/edit/id/7''\<rparr>) = Inr (True, rq') \<and>
     rq_module rq' = ZString ''admin'' \<and> rq_controller rq' = ZString ''user'' \<and>
     rq_action rq' = ZString ''edit'' \<and> yaf_request_get_param rq' ''id'' = Some (ZString ''7'')"
proof -
  have "\<exists>rq'. yaf_route_static_route sample_rt (yaf_request_init\<lparr>rq_uri := ''/admin/user/edit/id/7''\<rparr>) = Inr (True, rq') \<and>
    rq_module rq' = (case Some ''admin'' of Some s \<Rightarrow> ZString s | None \<Rightarrow> ZNull) \<and>
    rq_controller rq' = ZString ''user'' \<and> rq_action rq' = ZString ''edit'' \<and>
    (\<forall>k. yaf_request_get_param rq' k = (case map_of (rev [(''id'', ''7'')]) k of
       Some v \<Rightarrow> Some (ZString v) | None \<Rightarrow> yaf_request_get_param (yaf_request_init\<lparr>rq_uri := ''/admin/user/edit/id/7''\<rparr>) k))"
    using static_route_path [of "Some ''admin''" "''user''" "''edit''" "[(''id'', ''7'')]" sample_rt
      "yaf_request_init\<lparr>rq_uri := ''/admin/user/edit/id/7''\<rparr>"]
    by (simp add: mca_segs_def path_seg_def seg_ok_def sample_modules request_rel_uri_def yaf_request_init_def)
  then show ?thesis by auto
qed

text \<open>
  C19: Whatever the URI, the split finds only non-empty names without a slash; a module it
  finds is a module of the application and comes with a controller and an action, and
  parameters come only behind a controller and an action.
\<close>

theorem pathinfo_sound:
  "name_ok (pi_module (pathinfo_split rt u)) \<and> name_ok (pi_controller (pathinfo_split rt u)) \<and>
   name_ok (pi_action (pathinfo_split rt u)) \<and>
   (\<forall>m. pi_module (pathinfo_split rt u) = Some m \<longrightarrow>
      yaf_application_is_module_name rt m \<and>
      pi_controller (pathinfo_split rt u) \<noteq> None \<and> pi_action (pathinfo_split rt u) \<noteq> None) \<and>
   (pi_rest (pathinfo_split rt u) \<noteq> None \<longrightarrow>
      pi_controller (pathinfo_split rt u) \<noteq> None \<and> pi_action (pathinfo_split rt u) \<noteq> None)"
proof (cases "u = [] \<or> u = [SLASH]")
  case True
  then show ?thesis by (auto simp: pathinfo_split_def pathinfo_none_def)
next
  case False
  define pi where "pi = pathinfo_tail rt (pathinfo_action (pathinfo_names rt (strip_slashs (cstr (strip_tail u)))))"
  have eq: "pathinfo_split rt u = pathinfo_adjust rt pi"
    using False by (simp add: pathinfo_split_def pi_def)
  have "pi_ok rt pi" "pi_controller pi = None \<longrightarrow> pi_action pi = None"
      "pi_rest pi \<noteq> None \<longrightarrow> pi_action pi \<noteq> None"
    using pathinfo_stages_ok [OF pi_def] by blast+
  note ok = pathinfo_adjust_ok [OF this, unfolded pi_ok_def]
  show ?thesis
    unfolding eq using ok by (intro conjI allI impI) simp_all
qed

lemma pathinfo_sound_witness:
  "pi_module (pathinfo_split sample_rt ''//Index/a//b/'') = Some ''Index'' \<and>
   yaf_application_is_module_name sample_rt ''Index'' \<and>
   pi_controller (pathinfo_split sample_rt ''//Index/a//b/'') \<noteq> None"
proof -
  have "pi_module (pathinfo_split sample_rt ''//Index/a//b/'') = Some ''Index''" by code_simp
  then show ?thesis using pathinfo_sound [of sample_rt "''//Index/a//b/''"] by simp
qed

text \<open>
  A path of one segment names the controller, also where the segment is the name of a
  module; where \<open>yaf.action_prefer\<close> is set and the segment names no module, it is the action.
\<close>

theorem pathinfo_single:
  assumes "path_seg s"
  shows "pathinfo_split rt (SLASH # s) =
    (if g_action_prefer (rt_g rt) \<and> \<not> yaf_application_is_module_name rt s
     then \<lparr>pi_module = None, pi_controller = None, pi_action = Some s, pi_rest = None\<rparr>
     else \<lparr>pi_module = None, pi_controller = Some s, pi_action = None, pi_rest = None\<rparr>)"
  using path_segD [OF assms] assms pathinfo_split_path [of s rt]
  by (auto simp: pathinfo_names_def pathinfo_action_def pathinfo_tail_def pathinfo_adjust_def
      pathinfo_none_def Let_def)

lemma pathinfo_single_witness:
  "pi_controller (pathinfo_split sample_rt ''/Index'') = Some ''Index''"
  using pathinfo_single [of "''Index''" sample_rt]
  by (simp add: path_seg_def seg_ok_def sample_rt_def yaf_rinit_def yaf_ginit_def)

text \<open>
  C13: Routing undoes assembling: the URI \<open>assemble\<close> writes for a module, a controller and an
  action, with any query, is routed back to them once the request has cut the query off.
\<close>

theorem static_assemble_route:
  assumes "path_seg m" "path_seg c" "path_seg a" "yaf_application_is_module_name rt m"
    and "CHR ''?'' \<notin> set (m @ c @ a)"
    and "info_string info '':m'' = Some m" "info_string info '':c'' = Some c"
      "info_string info '':a'' = Some a"
    and "rq_base_uri rq = ZString []"
  shows "\<exists>u rq'. yaf_route_static_assemble info query rt = (Some u, rt) \<and>
    yaf_route_static_route rt (rq\<lparr>rq_uri := uri_before_query u\<rparr>) = Inr (True, rq') \<and>
    rq_module rq' = ZString m \<and> rq_controller rq' = ZString c \<and> rq_action rq' = ZString a \<and>
    rq_params rq' = rq_params rq"
proof -
  define p where "p = SLASH # join SLASH (mca_segs (Some m) c a)"
  have p: "p = SLASH # m @ SLASH # c @ SLASH # a"
    by (simp add: p_def mca_segs_def)
  have q: "CHR ''?'' \<notin> set p" "NUL \<notin> set p"
    using assms(5) path_segD [OF assms(1)] path_segD [OF assms(2)] path_segD [OF assms(3)] by (auto simp: p)
  obtain u where u: "yaf_route_static_assemble info query rt = (Some u, rt)"
      "u = p @ (case query of Some q \<Rightarrow> static_query False False q | None \<Rightarrow> [])"
    using assms(6-8) by (simp add: yaf_route_static_assemble_def p)
  have up: "uri_before_query u = p"
    using static_query_uri [OF q] static_query_uri [OF q, of "[]"] by (cases query) (simp_all add: u)
  have "request_rel_uri (rq\<lparr>rq_uri := p\<rparr>) = p"
    using assms(9) by (simp add: request_rel_uri_def)
  moreover have "pathinfo_split rt p =
      \<lparr>pi_module = Some m, pi_controller = Some c, pi_action = Some a, pi_rest = None\<rparr>"
    using pathinfo_mca [of "Some m" c a "[]" rt] assms(1-4) by (simp add: p_def mca_segs_def)
  ultimately show ?thesis
    by (simp add: u(1) up yaf_route_static_route_def pathinfo_route_names)
      (simp add: yaf_route_pathinfo_route_def Let_def)
qed

lemma static_assemble_route_witness:
  "\<exists>u rq'. yaf_route_static_assemble
      [(KStr '':m'', ZString ''Admin''), (KStr '':c'', ZString ''user''), (KStr '':a'', ZLong 12)]
      (Some [(KStr ''x'', ZTrue)]) sample_rt = (Some u, sample_rt) \<and>
    yaf_route_static_route sample_rt (yaf_request_init\<lparr>rq_uri := uri_before_query u\<rparr>) = Inr (True, rq') \<and>
    rq_module rq' = ZString ''Admin'' \<and> rq_controller rq' = ZString ''user'' \<and>
    rq_action rq' = ZString ''12'' \<and> rq_params rq' = []"
proof -
  have "info_string [(KStr '':m'', ZString ''Admin''), (KStr '':c'', ZString ''user''), (KStr '':a'', ZLong 12)] '':a'' = Some ''12''"
    by code_simp
  moreover have "yaf_application_is_module_name sample_rt ''Admin''" by code_simp
  ultimately show ?thesis
    using static_assemble_route [of "''Admin''" "''user''" "''12''" sample_rt
      "[(KStr '':m'', ZString ''Admin''), (KStr '':c'', ZString ''user''), (KStr '':a'', ZLong 12)]"
      yaf_request_init "Some [(KStr ''x'', ZTrue)]"]
    by (simp add: path_seg_def seg_ok_def info_string_def yaf_request_init_def)
qed

end
