(* ===== verification/Yaf_Route_Query.thy ===== *)
theory Yaf_Route_Query
  imports Yaf_Route_Static
begin

text \<open>
  The two routes that look at the query variables of the request:
  \<open>routes/yaf_route_simple.c\<close>, which takes the three names from three variables, and
  \<open>routes/yaf_route_supervar.c\<close>, which takes a whole path from one variable and splits it like
  the default route.
\<close>

section \<open>The simple route\<close>

record yaf_route_simple =
  rs_module :: string
  rs_controller :: string
  rs_action :: string

definition yaf_route_simple_instance :: "string \<Rightarrow> string \<Rightarrow> string \<Rightarrow> yaf_route_simple" where
  "yaf_route_simple_instance module controller action =
     \<lparr>rs_module = module, rs_controller = controller, rs_action = action\<rparr>"

definition route_simple_construct ::
    "zval \<Rightarrow> zval \<Rightarrow> zval \<Rightarrow> php_rt \<Rightarrow> yaf_route_simple option \<times> php_rt" where
  "route_simple_construct module controller action rt =
     (case (module, controller, action) of
        (ZString m, ZString c, ZString a) \<Rightarrow> (Some (yaf_route_simple_instance m c a), rt)
      | _ \<Rightarrow> (None, yaf_trigger_error ERR_TYPE_ERROR ''Expect 3 string parameters'' rt))"

definition simple_module :: "php_rt \<Rightarrow> zval option \<Rightarrow> yaf_request \<Rightarrow> yaf_request" where
  "simple_module rt module rq =
     (case module of
        Some (ZString m) \<Rightarrow>
          if yaf_application_is_module_name rt m then rq\<lparr>rq_module := ZString m\<rparr> else rq
      | _ \<Rightarrow> rq)"

definition yaf_route_simple_route :: "yaf_route_simple \<Rightarrow> php_rt \<Rightarrow> yaf_request \<Rightarrow> route_result" where
  "yaf_route_simple_route r rt rq =
     (let module = yaf_request_query rt VARS_GET (rs_module r);
          controller = yaf_request_query rt VARS_GET (rs_controller r);
          action = yaf_request_query rt VARS_GET (rs_action r)
      in if module = None \<and> controller = None \<and> action = None then Inr (False, rq)
         else
           (let rq = simple_module rt module rq;
                rq = (case controller of Some v \<Rightarrow> rq\<lparr>rq_controller := v\<rparr> | None \<Rightarrow> rq);
                rq = (case action of Some v \<Rightarrow> rq\<lparr>rq_action := v\<rparr> | None \<Rightarrow> rq)
            in Inr (True, rq)))"

definition yaf_route_simple_assemble ::
    "yaf_route_simple \<Rightarrow> zval htab \<Rightarrow> zval htab option \<Rightarrow> php_rt \<Rightarrow> string option \<times> php_rt" where
  "yaf_route_simple_assemble r info query rt =
     (let m = (case info_string info '':m'' of
                 Some s \<Rightarrow> rs_module r @ ''='' @ s @ ''&'' | None \<Rightarrow> [])
      in case info_string info '':c'' of
           None \<Rightarrow> (None, yaf_trigger_error ERR_TYPE_ERROR missing_controller rt)
         | Some c \<Rightarrow>
            (case info_string info '':a'' of
               None \<Rightarrow> (None, yaf_trigger_error ERR_TYPE_ERROR missing_action rt)
             | Some a \<Rightarrow>
                 (Some (''?'' @ m @ rs_controller r @ ''='' @ c @ ''&'' @ rs_action r @ ''='' @ a @
                    (case query of Some q \<Rightarrow> amp_query q | None \<Rightarrow> [])), rt)))"

section \<open>The supervar route\<close>

record yaf_route_supervar =
  sv_varname :: string

definition yaf_route_supervar_instance :: "zval option \<Rightarrow> yaf_route_supervar option" where
  "yaf_route_supervar_instance name =
     (case name of
        Some (ZString s) \<Rightarrow> if s = [] then None else Some \<lparr>sv_varname = s\<rparr>
      | _ \<Rightarrow> None)"

definition route_supervar_construct :: "zval \<Rightarrow> php_rt \<Rightarrow> yaf_route_supervar option \<times> php_rt" where
  "route_supervar_construct var rt =
     (let err = (None, yaf_trigger_error ERR_TYPE_ERROR ''Expects a valid string super var name'' rt)
      in case var of
           ZString s \<Rightarrow> if s = [] then err else (Some \<lparr>sv_varname = s\<rparr>, rt)
         | _ \<Rightarrow> err)"

definition yaf_route_supervar_route :: "yaf_route_supervar \<Rightarrow> php_rt \<Rightarrow> yaf_request \<Rightarrow> route_result" where
  \<comment> \<open>the variable is read as a string whatever its type\<close>
  "yaf_route_supervar_route r rt rq =
     (case yaf_request_query rt VARS_GET (sv_varname r) of
        None \<Rightarrow> Inr (False, rq)
      | Some (ZString u) \<Rightarrow> Inr (True, yaf_route_pathinfo_route rt rq u)
      | Some _ \<Rightarrow> Inl WildRead)"

definition yaf_route_supervar_assemble ::
    "yaf_route_supervar \<Rightarrow> zval htab \<Rightarrow> zval htab option \<Rightarrow> php_rt \<Rightarrow> string option \<times> php_rt" where
  "yaf_route_supervar_assemble r info query rt =
     (let uri = ''?'' @ sv_varname r @ ''='' @
                (case info_string info '':m'' of Some s \<Rightarrow> SLASH # s | None \<Rightarrow> [])
      in case info_string info '':c'' of
           None \<Rightarrow> (None, yaf_trigger_error ERR_TYPE_ERROR missing_controller rt)
         | Some c \<Rightarrow>
            (case info_string info '':a'' of
               None \<Rightarrow> (None, yaf_trigger_error ERR_TYPE_ERROR missing_action rt)
             | Some a \<Rightarrow>
                 (Some (uri @ SLASH # c @ SLASH # a @
                    (case query of Some q \<Rightarrow> amp_query q | None \<Rightarrow> [])), rt)))"

section \<open>The route contract\<close>

lemma simple_module_frame [simp]:
  "request_frame (simple_module rt m rq) = request_frame rq"
  "rq_params (simple_module rt m rq) = rq_params rq"
  by (auto simp: simple_module_def split: option.split zval.split)

interpretation simple_route: routing "yaf_route_simple_route r"
  by unfold_locales (auto simp: yaf_route_simple_route_def Let_def split: if_splits option.splits)

interpretation supervar_route: routing "yaf_route_supervar_route r"
  by unfold_locales
    (auto simp: yaf_route_supervar_route_def pathinfo_route_hwf split: option.splits zval.splits)

section \<open>Properties\<close>

text \<open>
  The simple route matches exactly if one of its three variables is in the query.  A
  match takes the controller and the action over as they are; the module changes only to a
  string that names a module of the application.
\<close>

lemma simple_route_matches:
  "\<exists>b rq'. yaf_route_simple_route r rt rq = Inr (b, rq') \<and>
     b = (hexists (rt_http rt VARS_GET) (KStr (rs_module r)) \<or>
          hexists (rt_http rt VARS_GET) (KStr (rs_controller r)) \<or>
          hexists (rt_http rt VARS_GET) (KStr (rs_action r))) \<and>
     rq_controller rq' = (case hfind (rt_http rt VARS_GET) (KStr (rs_controller r)) of
        Some v \<Rightarrow> v | None \<Rightarrow> rq_controller rq) \<and>
     rq_action rq' = (case hfind (rt_http rt VARS_GET) (KStr (rs_action r)) of
        Some v \<Rightarrow> v | None \<Rightarrow> rq_action rq) \<and>
     rq_module rq' = (case hfind (rt_http rt VARS_GET) (KStr (rs_module r)) of
        Some (ZString m) \<Rightarrow> if yaf_application_is_module_name rt m then ZString m else rq_module rq
      | _ \<Rightarrow> rq_module rq)"
  by (auto simp: yaf_route_simple_route_def simple_module_def yaf_request_query_def hexists_def Let_def
      split: option.split zval.split)

text \<open>
  C35: The URI the supervar route assembles carries, as the value of its variable, a path that
  the route takes back to the module, the controller and the action it was made from.
\<close>

theorem supervar_assemble_route:
  assumes "path_seg m" "path_seg c" "path_seg a" "yaf_application_is_module_name rt m"
    and "info_string info '':m'' = Some m" "info_string info '':c'' = Some c"
      "info_string info '':a'' = Some a"
  shows "\<exists>p. fst (yaf_route_supervar_assemble r info query rt) =
      Some (''?'' @ sv_varname r @ ''='' @ p @ (case query of Some q \<Rightarrow> amp_query q | None \<Rightarrow> [])) \<and>
    (\<forall>rt'. rt_app rt' = rt_app rt \<and> hfind (rt_http rt' VARS_GET) (KStr (sv_varname r)) = Some (ZString p) \<longrightarrow>
      (\<exists>rq'. yaf_route_supervar_route r rt' rq = Inr (True, rq') \<and> rq_module rq' = ZString m \<and>
        rq_controller rq' = ZString c \<and> rq_action rq' = ZString a \<and> rq_params rq' = rq_params rq))"
proof -
  define p where "p = SLASH # join SLASH (mca_segs (Some m) c a)"
  have p: "p = SLASH # m @ SLASH # c @ SLASH # a"
    by (simp add: p_def mca_segs_def)
  have split: "pathinfo_split rt' p =
      \<lparr>pi_module = Some m, pi_controller = Some c, pi_action = Some a, pi_rest = None\<rparr>"
    if "rt_app rt' = rt_app rt" for rt'
    using pathinfo_mca [of "Some m" c a "[]" rt'] assms(1-4) that
    by (simp add: p_def mca_segs_def yaf_application_is_module_name_def)
  show ?thesis
    using assms(5-7) split
    by (intro exI [of _ p])
      (auto simp: p yaf_route_supervar_assemble_def yaf_route_supervar_route_def yaf_request_query_def
        pathinfo_route_names, auto simp: yaf_route_pathinfo_route_def)
qed

lemma supervar_assemble_route_witness:
  "\<exists>p. fst (yaf_route_supervar_assemble \<lparr>sv_varname = ''r''\<rparr>
      [(KStr '':m'', ZString ''Admin''), (KStr '':c'', ZString ''user''), (KStr '':a'', ZString ''list'')]
      None sample_rt) = Some (''?r='' @ p) \<and>
    (\<exists>rq'. yaf_route_supervar_route \<lparr>sv_varname = ''r''\<rparr>
        (sample_rt\<lparr>rt_http := (\<lambda>_. [(KStr ''r'', ZString p)])\<rparr>) yaf_request_init = Inr (True, rq') \<and>
      rq_controller rq' = ZString ''user'')"
proof -
  have "yaf_application_is_module_name sample_rt ''Admin''" by code_simp
  then obtain p where "fst (yaf_route_supervar_assemble \<lparr>sv_varname = ''r''\<rparr>
      [(KStr '':m'', ZString ''Admin''), (KStr '':c'', ZString ''user''), (KStr '':a'', ZString ''list'')]
      None sample_rt) = Some (''?r='' @ p)"
    and r: "\<forall>rt'. rt_app rt' = rt_app sample_rt \<and> hfind (rt_http rt' VARS_GET) (KStr ''r'') = Some (ZString p) \<longrightarrow>
      (\<exists>rq'. yaf_route_supervar_route \<lparr>sv_varname = ''r''\<rparr> rt' yaf_request_init = Inr (True, rq') \<and>
        rq_module rq' = ZString ''Admin'' \<and> rq_controller rq' = ZString ''user'' \<and>
        rq_action rq' = ZString ''list'' \<and> rq_params rq' = rq_params yaf_request_init)"
    using supervar_assemble_route [of "''Admin''" "''user''" "''list''" sample_rt
      "[(KStr '':m'', ZString ''Admin''), (KStr '':c'', ZString ''user''), (KStr '':a'', ZString ''list'')]"
      "\<lparr>sv_varname = ''r''\<rparr>" None yaf_request_init]
    by (auto simp: path_seg_def seg_ok_def info_string_def)
  moreover have "\<exists>rq'. yaf_route_supervar_route \<lparr>sv_varname = ''r''\<rparr>
      (sample_rt\<lparr>rt_http := (\<lambda>_. [(KStr ''r'', ZString p)])\<rparr>) yaf_request_init = Inr (True, rq') \<and>
    rq_controller rq' = ZString ''user''"
    using r [rule_format, of "sample_rt\<lparr>rt_http := (\<lambda>_. [(KStr ''r'', ZString p)])\<rparr>"] by auto
  ultimately show ?thesis by blast
qed

end
