(* ===== verification/Yaf_Route_Map.thy ===== *)
theory Yaf_Route_Map
  imports Yaf_Route_Static
begin

text \<open>
  The map route (\<open>routes/yaf_route_map.c\<close>): the segments of the path are joined with
  underscores and become the action, or the controller if that is preferred; behind a
  delimiter segment the path carries parameters.
\<close>

section \<open>The route\<close>

record yaf_route_map =
  rm_ctl_prefer :: bool
  rm_delimiter :: "string option"

definition yaf_route_map_instance :: "bool \<Rightarrow> string option \<Rightarrow> yaf_route_map" where
  \<comment> \<open>an empty delimiter leaves the property null\<close>
  "yaf_route_map_instance controller_prefer delim =
     \<lparr>rm_ctl_prefer = controller_prefer,
      rm_delimiter = (if delim = Some [] then None else delim)\<rparr>"

definition map_cut :: "string option \<Rightarrow> string \<Rightarrow> mem_error + (string \<times> string option)" where
  \<comment> \<open>the path before the delimiter and the parameters behind it; the test of the byte before
      the delimiter reads in front of the buffer if the URI starts with the delimiter\<close>
  "map_cut delim req_uri =
     (case delim of
        None \<Rightarrow> Inr (req_uri, None)
      | Some d \<Rightarrow>
          (case strstr req_uri (cstr d) of
             None \<Rightarrow> Inr (req_uri, None)
           | Some 0 \<Rightarrow> Inl OutOfBounds
           | Some (Suc i) \<Rightarrow>
               if req_uri ! i \<noteq> SLASH then Inr (req_uri, None)
               else if Suc i + length d > length req_uri then Inl OutOfBounds
               else
                 (case drop (Suc i + length d) req_uri of
                    [] \<Rightarrow> Inr (take (Suc i) req_uri, None)
                  | c # rest \<Rightarrow>
                      if c = SLASH then Inr (take (Suc i) req_uri, Some (c # rest))
                      else Inr (req_uri, None))))"

definition yaf_route_map_route :: "yaf_route_map \<Rightarrow> php_rt \<Rightarrow> yaf_request \<Rightarrow> route_result" where
  "yaf_route_map_route r rt rq =
     (case map_cut (rm_delimiter r) (cstr (request_rel_uri rq)) of
        Inl e \<Rightarrow> Inl e
      | Inr (req_uri, query_str) \<Rightarrow>
          (let route_result = concat (map (\<lambda>seg. seg @ ''_'') (strtok_all ''/'' (Some req_uri)));
               rq = (if route_result = [] then rq
                     else if rm_ctl_prefer r then rq\<lparr>rq_controller := ZString (butlast route_result)\<rparr>
                     else rq\<lparr>rq_action := ZString (butlast route_result)\<rparr>);
               rq = (case query_str of
                       None \<Rightarrow> rq
                     | Some q \<Rightarrow> snd (yaf_request_set_params_multi (ZArray (yaf_router_parse_parameters q)) rq))
           in Inr (True, rq)))"

section \<open>Assembling\<close>

fun delim_query :: "zval htab \<Rightarrow> string" where
  "delim_query [] = []"
| "delim_query ((KInt _, _) # q) = delim_query q"
| "delim_query ((KStr k, v) # q) = SLASH # k @ SLASH # zval_get_string v @ delim_query q"

fun map_query :: "bool \<Rightarrow> zval htab \<Rightarrow> string" where
  "map_query start [] = []"
| "map_query start ((KInt _, _) # q) = map_query start q"
| "map_query start ((KStr k, v) # q) =
     (if start then ''?'' else ''&'') @ k @ ''='' @ zval_get_string v @ map_query False q"

definition info_plain_string :: "zval htab \<Rightarrow> string \<Rightarrow> string option" where
  "info_plain_string info key =
     (case hfind info (KStr key) of Some (ZString s) \<Rightarrow> Some s | _ \<Rightarrow> None)"

definition yaf_route_map_assemble ::
    "yaf_route_map \<Rightarrow> zval htab \<Rightarrow> zval htab option \<Rightarrow> php_rt \<Rightarrow> string option \<times> php_rt" where
  \<comment> \<open>a URI nothing was appended to is the null pointer\<close>
  "yaf_route_map_assemble r info query rt =
     (case info_plain_string info (if rm_ctl_prefer r then '':a'' else '':c'') of
        None \<Rightarrow> (None, yaf_trigger_error ERR_TYPE_ERROR
                  (if rm_ctl_prefer r then ''Undefined the 'action' parameter for the 1st parameter''
                   else ''Undefined the 'controller' parameter for the 1st parameter'') rt)
      | Some pname \<Rightarrow>
          (let path = concat (map (\<lambda>seg. SLASH # seg) (strtok_all ''_'' (Some (cstr pname))));
               uri = path @ (case (query, rm_delimiter r) of
                       (None, _) \<Rightarrow> []
                     | (Some q, Some d) \<Rightarrow> SLASH # d @ delim_query q
                     | (Some q, None) \<Rightarrow> map_query True q)
           in (if uri = [] then None else Some uri, rt)))"

section \<open>Facts\<close>

lemma butlast_concat_underscore:
  "segs \<noteq> [] \<Longrightarrow> butlast (concat (map (\<lambda>seg. seg @ [c]) segs)) = join c segs"
proof (induction c segs rule: join.induct)
  case (3 c s s' ss)
  have "concat (map (\<lambda>seg. seg @ [c]) (s' # ss)) \<noteq> []" by simp
  with 3 show ?case by (simp add: butlast_append)
qed simp_all

lemma concat_slash_join:
  "segs \<noteq> [] \<Longrightarrow> concat (map (\<lambda>seg. SLASH # seg) segs) = SLASH # join SLASH segs"
proof (induction segs rule: join.induct [of _ SLASH])
  case (3 c s s' ss)
  then show ?case by simp
qed simp_all

lemma strtok_all_skip: "c \<in> set d \<Longrightarrow> strtok_all d (Some (c # s)) = strtok_all d (Some s)"
  by (simp add: strtok_all.simps [of d] strtok_skip)

lemma strtok_seg_end:
  "seg \<noteq> [] \<Longrightarrow> set seg \<inter> set d = {} \<Longrightarrow> c \<in> set d \<Longrightarrow>
     strtok_all d (Some (seg @ [c])) = [seg]"
  by (simp add: strtok_all.simps [of d] strtok_seg)

lemma strtok_all_join_end:
  assumes "\<forall>s \<in> set ss. s \<noteq> [] \<and> c \<notin> set s"
  shows "strtok_all [c] (Some (join c ss @ [c])) = ss"
  using assms
proof (induction c ss rule: join.induct)
  case (1 c)
  then show ?case by (simp add: strtok_all_skip) (simp add: strtok_all.simps)
next
  case (2 c s)
  then show ?case by (auto simp: strtok_seg_end)
next
  case (3 c s s' ss)
  then show ?case
    by (subst strtok_all.simps) (auto simp: strtok_seg)
qed

lemma map_route_frame: "yaf_route_map_route r rt rq = Inr (b, rq') \<Longrightarrow>
   b \<and> request_frame rq' = request_frame rq \<and> (hwf (rq_params rq) \<longrightarrow> hwf (rq_params rq'))"
  by (auto simp: yaf_route_map_route_def Let_def set_params_multi_hwf
      split: sum.splits prod.splits if_splits option.splits)

interpretation map_route: routing "yaf_route_map_route r"
  by unfold_locales (auto dest: map_route_frame)

subsection \<open>Finding the delimiter\<close>

lemma strstr_fresh:
  assumes "d \<noteq> []" "hd d \<notin> set p"
  shows "strstr (p @ d @ s) d = Some (length p)"
  using assms
proof (induction p)
  case Nil
  then show ?case by (cases d) auto
next
  case (Cons c p)
  then have "\<not> prefix d (c # p @ d @ s)"
    by (cases d) auto
  with Cons show ?case by simp
qed

lemma map_cut_delim:
  assumes "d \<noteq> []" "NUL \<notin> set d" "hd d \<noteq> SLASH" "hd d \<notin> set p"
  shows "map_cut (Some d) (p @ SLASH # d @ s) =
     (case s of [] \<Rightarrow> Inr (p @ [SLASH], None)
      | c # _ \<Rightarrow> if c = SLASH then Inr (p @ [SLASH], Some s) else Inr (p @ SLASH # d @ s, None))"
proof -
  have "strstr ((p @ [SLASH]) @ d @ s) d = Some (length (p @ [SLASH]))"
    using assms by (intro strstr_fresh) auto
  then show ?thesis
    using assms by (simp add: map_cut_def nth_append split: list.split)
qed

lemma delim_query_join:
  assumes "\<forall>(k, v) \<in> set q. \<exists>s. k = KStr s"
  shows "delim_query q = concat (map (\<lambda>seg. SLASH # seg)
    (param_segs (map (\<lambda>(k, v). (case k of KStr s \<Rightarrow> s | KInt _ \<Rightarrow> [], zval_get_string v)) q)))"
  using assms by (induction q rule: delim_query.induct) auto

section \<open>Properties\<close>

definition map_name_seg :: "string option \<Rightarrow> string \<Rightarrow> bool" where
  \<comment> \<open>a part of a name: no slash, no underscore, not the first byte of the delimiter\<close>
  "map_name_seg delim s \<longleftrightarrow> seg_ok s \<and> CHR ''_'' \<notin> set s \<and>
     (case delim of Some d \<Rightarrow> hd d \<notin> set s | None \<Rightarrow> True)"

definition map_delim_ok :: "string option \<Rightarrow> bool" where
  "map_delim_ok delim = (case delim of
     Some d \<Rightarrow> d \<noteq> [] \<and> NUL \<notin> set d \<and> hd d \<noteq> SLASH | None \<Rightarrow> True)"

definition map_set_name :: "yaf_route_map \<Rightarrow> string \<Rightarrow> yaf_request \<Rightarrow> yaf_request" where
  "map_set_name r name rq =
     (if rm_ctl_prefer r then rq\<lparr>rq_controller := ZString name\<rparr> else rq\<lparr>rq_action := ZString name\<rparr>)"

lemma map_set_name_params [simp]: "rq_params (map_set_name r name rq) = rq_params rq"
  by (simp add: map_set_name_def)

lemma map_name_segs:
  assumes "\<forall>s \<in> set segs. map_name_seg delim s"
  shows "\<forall>s \<in> set segs. s \<noteq> [] \<and> SLASH \<notin> set s" "\<forall>s \<in> set segs. s \<noteq> [] \<and> CHR ''_'' \<notin> set s"
    "\<forall>s \<in> set segs. NUL \<notin> set s"
  using assms by (auto simp: map_name_seg_def seg_ok_def)

lemma set_join: "set (join c ss) \<subseteq> insert c (\<Union> (set ` set ss))"
  by (induction c ss rule: join.induct) auto

lemma map_route_plain:
  assumes "segs \<noteq> []" "\<forall>s \<in> set segs. map_name_seg (rm_delimiter r) s" "map_delim_ok (rm_delimiter r)"
    and "request_rel_uri rq = SLASH # join SLASH segs"
  shows "yaf_route_map_route r rt rq = Inr (True, map_set_name r (join (CHR ''_'') segs) rq)"
proof -
  note n = map_name_segs [OF assms(2)]
  have uri: "cstr (request_rel_uri rq) = SLASH # join SLASH segs"
    unfolding assms(4) using n(3) NUL_join [of SLASH segs] by (intro cstr_id) simp
  have "strtok_all ''/'' (Some (SLASH # join SLASH segs)) = segs"
    using strtok_all_join [OF n(1)] by (simp add: strtok_all_skip)
  moreover have "map_cut (rm_delimiter r) (SLASH # join SLASH segs) = Inr (SLASH # join SLASH segs, None)"
  proof (cases "rm_delimiter r")
    case None
    then show ?thesis by (simp add: map_cut_def)
  next
    case (Some d)
    have d: "hd d \<notin> set (SLASH # join SLASH segs)" "d \<noteq> []" "NUL \<notin> set d"
      using assms(2,3) Some set_join [of SLASH segs] by (auto simp: map_name_seg_def map_delim_ok_def)
    have "strstr (SLASH # join SLASH segs) d = None"
    proof (rule ccontr)
      assume "strstr (SLASH # join SLASH segs) d \<noteq> None"
      then obtain i where i: "strstr (SLASH # join SLASH segs) d = Some i" by blast
      have "prefix d (drop i (SLASH # join SLASH segs))"
        using strstr_Some_prefix [OF i] by blast
      then have "set d \<subseteq> set (SLASH # join SLASH segs)"
        by (meson set_drop_subset set_mono_prefix subset_trans)
      with d show False by (meson hd_in_set subsetD)
    qed
    with Some d show ?thesis by (simp add: map_cut_def)
  qed
  ultimately show ?thesis
    using assms(1) butlast_concat_underscore [OF assms(1), of "CHR ''_''"]
    by (auto simp: yaf_route_map_route_def uri map_set_name_def Let_def)
qed

lemma map_route_delim:
  assumes "segs \<noteq> []" "\<forall>s \<in> set segs. map_name_seg (Some d) s" "map_delim_ok (Some d)"
    and "rm_delimiter r = Some d" "\<forall>(k, v) \<in> set kvs. seg_ok k \<and> seg_ok v"
    and "request_rel_uri rq = SLASH # join SLASH segs @ SLASH # d @
           concat (map (\<lambda>seg. SLASH # seg) (param_segs kvs))"
  shows "\<exists>rq'. yaf_route_map_route r rt rq = Inr (True, rq') \<and>
    rq'\<lparr>rq_params := rq_params rq\<rparr> = map_set_name r (join (CHR ''_'') segs) rq \<and>
    (\<forall>k. yaf_request_get_param rq' k =
      (case map_of (rev kvs) k of Some v \<Rightarrow> Some (ZString v) | None \<Rightarrow> yaf_request_get_param rq k))"
proof -
  note n = map_name_segs [OF assms(2)]
  define tail where "tail = concat (map (\<lambda>seg. SLASH # seg) (param_segs kvs))"
  have tail: "tail = (if kvs = [] then [] else SLASH # join SLASH (param_segs kvs))"
    using concat_slash_join [of "param_segs kvs"] by (cases kvs) (auto simp: tail_def)
  have "NUL \<notin> set tail"
    using NUL_join [of SLASH "param_segs kvs"] param_segs_ok [OF assms(5)] by (auto simp: tail seg_ok_def)
  then have uri: "cstr (request_rel_uri rq) = (SLASH # join SLASH segs) @ SLASH # d @ tail"
    using n(3) NUL_join [of SLASH segs] assms(3,6)
    by (subst cstr_id) (auto simp: map_delim_ok_def tail_def)
  have "hd d \<notin> set (SLASH # join SLASH segs)"
    using assms(2,3) set_join [of SLASH segs] by (auto simp: map_name_seg_def map_delim_ok_def)
  then have cut: "map_cut (rm_delimiter r) (cstr (request_rel_uri rq)) =
      Inr (SLASH # join SLASH segs @ [SLASH], if kvs = [] then None else Some tail)"
    using assms(3,4) map_cut_delim [of d "SLASH # join SLASH segs" tail] uri
    by (simp add: map_delim_ok_def tail)
  have segs: "strtok_all ''/'' (Some (SLASH # join SLASH segs @ [SLASH])) = segs"
    using strtok_all_join_end [OF n(1)] by (simp add: strtok_all_skip)
  note name = butlast_concat_underscore [OF assms(1), of "CHR ''_''"]
  have pq: "yaf_router_parse_parameters (SLASH # join SLASH (param_segs kvs)) =
      yaf_router_parse_parameters (join SLASH (param_segs kvs))"
    by (simp add: parse_parameters_pairs cstr_def strtok_all_skip)
  show ?thesis
  proof (cases "kvs = []")
    case True
    then show ?thesis
      using assms(1) name by (auto simp: yaf_route_map_route_def cut segs map_set_name_def
          yaf_request_get_param_def Let_def)
  next
    case False
    then have "yaf_route_map_route r rt rq = Inr (True, snd (yaf_request_set_params_multi
        (ZArray (yaf_router_parse_parameters (join SLASH (param_segs kvs))))
        (map_set_name r (join (CHR ''_'') segs) rq)))"
      using assms(1) name by (auto simp: yaf_route_map_route_def cut segs map_set_name_def tail pq Let_def)
    then show ?thesis
      by (simp add: set_params_multi_lookup parse_parameters_join [OF assms(5)])
        (auto simp: yaf_request_set_params_multi_def map_set_name_def yaf_request_get_param_def
          split: option.split)
  qed
qed

lemma map_query_uri: "CHR ''?'' \<notin> set p \<Longrightarrow> NUL \<notin> set p \<Longrightarrow> uri_before_query (p @ map_query True q) = p"
proof -
  assume p: "CHR ''?'' \<notin> set p" "NUL \<notin> set p"
  have "map_query True q = [] \<or> (\<exists>t. map_query True q = CHR ''?'' # t)"
    by (induction True q rule: map_query.induct) auto
  then show ?thesis using no_query [OF p] cut_at_query [OF p] by auto
qed

definition map_params :: "(string \<times> string) list \<Rightarrow> zval htab" where
  "map_params kvs = map (\<lambda>(k, v). (KStr k, ZString v)) kvs"

lemma map_params_query: "delim_query (map_params kvs) = concat (map (\<lambda>seg. SLASH # seg) (param_segs kvs))"
  by (induction kvs rule: param_segs.induct) (auto simp: map_params_def)

lemma map_assembled:
  assumes "segs \<noteq> []" "\<forall>s \<in> set segs. map_name_seg d s"
    and "info_plain_string info (if rm_ctl_prefer r then '':a'' else '':c'') = Some (join (CHR ''_'') segs)"
  shows "yaf_route_map_assemble r info query rt =
    (Some (SLASH # join SLASH segs @ (case (query, rm_delimiter r) of
        (None, _) \<Rightarrow> [] | (Some q, Some d) \<Rightarrow> SLASH # d @ delim_query q | (Some q, None) \<Rightarrow> map_query True q)), rt)"
proof -
  note n = map_name_segs [OF assms(2)]
  have "strtok_all ''_'' (Some (cstr (join (CHR ''_'') segs))) = segs"
    using strtok_all_join [OF n(2)] n(3) NUL_join [of "CHR ''_''" segs] by simp
  then show ?thesis
    using assms(1,3) concat_slash_join [OF assms(1)]
    by (auto simp: yaf_route_map_assemble_def Let_def)
qed

text \<open>
  C21: Routing the path of a URI the map route assembled gives the name back, for every map
  route: the name goes in as \<open>:c\<close> and comes back as the action, or in as \<open>:a\<close> and comes back as
  the controller where the controller is preferred.  Where the route has a delimiter, the pairs
  of the query come back as parameters; where it has none, the query is written behind a
  question mark, the path is what is in front of it, and the parameters of the request stay.
\<close>

theorem map_assemble_route:
  assumes "segs \<noteq> []" "\<forall>s \<in> set segs. map_name_seg delim s" "map_delim_ok delim"
    and "delim = None \<Longrightarrow> \<forall>s \<in> set segs. CHR ''?'' \<notin> set s"
    and "r = yaf_route_map_instance prefer delim"
    and "\<And>kvs. query = Some kvs \<Longrightarrow> \<forall>(k, v) \<in> set kvs. seg_ok k \<and> seg_ok v"
    and "info_plain_string info (if prefer then '':a'' else '':c'') = Some (join (CHR ''_'') segs)"
    and "rq_base_uri rq = ZString []"
  shows "\<exists>u rq'. yaf_route_map_assemble r info (map_option map_params query) rt = (Some u, rt) \<and>
    yaf_route_map_route r rt (rq\<lparr>rq_uri := (if delim = None then uri_before_query u else u)\<rparr>) = Inr (True, rq') \<and>
    (if prefer then rq_controller rq' else rq_action rq') = ZString (join (CHR ''_'') segs) \<and>
    (\<forall>k. yaf_request_get_param rq' k =
      (case (if delim = None then None else map_of (rev (case query of Some kvs \<Rightarrow> kvs | None \<Rightarrow> [])) k) of
         Some v \<Rightarrow> Some (ZString v) | None \<Rightarrow> yaf_request_get_param rq k))"
proof -
  have r: "rm_delimiter r = delim" "rm_ctl_prefer r = prefer"
    using assms(3,5) by (auto simp: yaf_route_map_instance_def map_delim_ok_def)
  have delim: "\<forall>s \<in> set segs. map_name_seg (rm_delimiter r) s" "map_delim_ok (rm_delimiter r)"
    using assms(2,3) r by simp_all
  let ?p = "SLASH # join SLASH segs"
  obtain u where u: "yaf_route_map_assemble r info (map_option map_params query) rt = (Some u, rt)"
    "u = ?p @ (case (map_option map_params query, delim) of
        (None, _) \<Rightarrow> [] | (Some q, Some d) \<Rightarrow> SLASH # d @ delim_query q | (Some q, None) \<Rightarrow> map_query True q)"
    using map_assembled [OF assms(1,2), of info r] assms(7) r by simp
  define w where "w = (if delim = None then uri_before_query u else u)"
  have rel: "request_rel_uri (rq\<lparr>rq_uri := w\<rparr>) = w"
    using assms(8) by (simp add: request_rel_uri_def)
  have name: "(if prefer then rq_controller rq' else rq_action rq') = ZString (join (CHR ''_'') segs)"
    if "rq'\<lparr>rq_params := rq_params rq\<rparr> = map_set_name r (join (CHR ''_'') segs) (rq\<lparr>rq_uri := w\<rparr>)" for rq'
    using arg_cong [OF that, of rq_controller] arg_cong [OF that, of rq_action] r(2)
    by (auto simp: map_set_name_def)
  have par: "yaf_request_get_param (rq\<lparr>rq_uri := w\<rparr>) = yaf_request_get_param rq"
    by (rule ext) (simp add: yaf_request_get_param_def)
  have "\<exists>rq'. yaf_route_map_route r rt (rq\<lparr>rq_uri := w\<rparr>) = Inr (True, rq') \<and>
      rq'\<lparr>rq_params := rq_params rq\<rparr> = map_set_name r (join (CHR ''_'') segs) (rq\<lparr>rq_uri := w\<rparr>) \<and>
      (\<forall>k. yaf_request_get_param rq' k =
        (case (if delim = None then None else map_of (rev (case query of Some kvs \<Rightarrow> kvs | None \<Rightarrow> [])) k) of
           Some v \<Rightarrow> Some (ZString v) | None \<Rightarrow> yaf_request_get_param (rq\<lparr>rq_uri := w\<rparr>) k))"
  proof (cases "delim = None \<or> query = None")
    case True
    have q: "CHR ''?'' \<notin> set ?p" "NUL \<notin> set ?p" if "delim = None"
      using that assms(4) set_join [of SLASH segs] NUL_join [of SLASH segs] map_name_segs(3) [OF assms(2)] by auto
    have "w = ?p"
      using True map_query_uri [OF q] map_query_uri [OF q, of "[]"]
      by (cases delim; cases query) (simp_all add: w_def u(2))
    then have "yaf_route_map_route r rt (rq\<lparr>rq_uri := w\<rparr>) =
        Inr (True, map_set_name r (join (CHR ''_'') segs) (rq\<lparr>rq_uri := w\<rparr>))"
      using map_route_plain [OF assms(1) delim, of "rq\<lparr>rq_uri := w\<rparr>"] rel by simp
    with True show ?thesis
      by (auto simp: yaf_request_get_param_def map_set_name_def)
  next
    case False
    then obtain d kvs where d: "delim = Some d" "query = Some kvs" by (cases delim; cases query) auto
    have "w = ?p @ SLASH # d @ concat (map (\<lambda>seg. SLASH # seg) (param_segs kvs))"
      by (simp add: w_def u(2) d map_params_query)
    then show ?thesis
      using map_route_delim [OF assms(1), of d r kvs "rq\<lparr>rq_uri := w\<rparr>" rt] rel assms(2,3) assms(6) [OF d(2)] r(1)
      by (simp add: d)
  qed
  then obtain rq' where "yaf_route_map_route r rt (rq\<lparr>rq_uri := w\<rparr>) = Inr (True, rq')"
    "(if prefer then rq_controller rq' else rq_action rq') = ZString (join (CHR ''_'') segs)"
    "\<forall>k. yaf_request_get_param rq' k =
        (case (if delim = None then None else map_of (rev (case query of Some kvs \<Rightarrow> kvs | None \<Rightarrow> [])) k) of
           Some v \<Rightarrow> Some (ZString v) | None \<Rightarrow> yaf_request_get_param rq k)"
    using name unfolding par by blast
  with u(1) show ?thesis unfolding w_def by blast
qed

lemma map_assemble_route_witness:
  "(\<exists>u rq'. yaf_route_map_assemble (yaf_route_map_instance False (Some ''#!''))
      [(KStr '':c'', ZString ''user_list'')] (Some [(KStr ''id'', ZString ''7'')]) sample_rt = (Some u, sample_rt) \<and>
    yaf_route_map_route (yaf_route_map_instance False (Some ''#!'')) sample_rt (yaf_request_init\<lparr>rq_uri := u\<rparr>) = Inr (True, rq') \<and>
    rq_action rq' = ZString ''user_list'' \<and> yaf_request_get_param rq' ''id'' = Some (ZString ''7'')) \<and>
   (\<exists>u rq'. yaf_route_map_assemble (yaf_route_map_instance False None)
      [(KStr '':c'', ZString ''user_list'')] (Some [(KStr ''id'', ZString ''7'')]) sample_rt = (Some u, sample_rt) \<and>
    yaf_route_map_route (yaf_route_map_instance False None) sample_rt (yaf_request_init\<lparr>rq_uri := uri_before_query u\<rparr>) = Inr (True, rq') \<and>
    rq_action rq' = ZString ''user_list'')"
proof
  show "\<exists>u rq'. yaf_route_map_assemble (yaf_route_map_instance False (Some ''#!''))
      [(KStr '':c'', ZString ''user_list'')] (Some [(KStr ''id'', ZString ''7'')]) sample_rt = (Some u, sample_rt) \<and>
    yaf_route_map_route (yaf_route_map_instance False (Some ''#!'')) sample_rt (yaf_request_init\<lparr>rq_uri := u\<rparr>) = Inr (True, rq') \<and>
    rq_action rq' = ZString ''user_list'' \<and> yaf_request_get_param rq' ''id'' = Some (ZString ''7'')"
    using map_assemble_route [of "[''user'', ''list'']" "Some ''#!''" _ False "Some [(''id'', ''7'')]"
        "[(KStr '':c'', ZString ''user_list'')]" yaf_request_init sample_rt, OF _ _ _ _ refl]
    by (auto simp: map_name_seg_def seg_ok_def map_delim_ok_def info_plain_string_def yaf_request_init_def map_params_def)
  show "\<exists>u rq'. yaf_route_map_assemble (yaf_route_map_instance False None)
      [(KStr '':c'', ZString ''user_list'')] (Some [(KStr ''id'', ZString ''7'')]) sample_rt = (Some u, sample_rt) \<and>
    yaf_route_map_route (yaf_route_map_instance False None) sample_rt (yaf_request_init\<lparr>rq_uri := uri_before_query u\<rparr>) = Inr (True, rq') \<and>
    rq_action rq' = ZString ''user_list''"
    using map_assemble_route [of "[''user'', ''list'']" None _ False "Some [(''id'', ''7'')]"
        "[(KStr '':c'', ZString ''user_list'')]" yaf_request_init sample_rt, OF _ _ _ _ refl]
    by (auto simp: map_name_seg_def seg_ok_def map_delim_ok_def info_plain_string_def yaf_request_init_def map_params_def)
qed

text \<open>Without a delimiter the question mark is part of the name, if the query is not cut off first.\<close>

lemma map_query_joins_name:
  "case yaf_route_map_assemble (yaf_route_map_instance False None) [(KStr '':c'', ZString ''user_list'')]
      (Some [(KStr ''id'', ZString ''7'')]) sample_rt of
     (u, _) \<Rightarrow> u = Some ''/user/list?id=7'' \<and>
       map_sum id (rq_action \<circ> snd) (yaf_route_map_route (yaf_route_map_instance False None) sample_rt
          (yaf_request_init\<lparr>rq_uri := ''/user/list?id=7''\<rparr>)) = Inr (ZString ''user_list?id=7'')"
  by code_simp

text \<open>
  C39: The map route reads in front of its buffer exactly if the delimiter stands at the very
  start of the URI behind the base URI (a delimiter without NUL bytes).
\<close>

theorem map_route_out_of_bounds:
  assumes "rm_delimiter r = Some d" "NUL \<notin> set d"
  shows "yaf_route_map_route r rt rq = Inl e \<longleftrightarrow>
    e = OutOfBounds \<and> strstr (cstr (request_rel_uri rq)) d = Some 0"
proof -
  have "map_cut (Some d) u = Inl e \<longleftrightarrow> e = OutOfBounds \<and> strstr u d = Some 0" for u
    using assms(2) strstr_Some_prefix [of u d]
    by (auto simp: map_cut_def split: option.split nat.split list.split)
  moreover have "yaf_route_map_route r rt rq = Inl e \<longleftrightarrow> map_cut (Some d) (cstr (request_rel_uri rq)) = Inl e"
    using assms(1) by (auto simp: yaf_route_map_route_def Let_def split: sum.split)
  ultimately show ?thesis by simp
qed

lemma map_route_out_of_bounds_witness:
  "yaf_route_map_route (yaf_route_map_instance False (Some ''#!'')) sample_rt
     (yaf_request_init\<lparr>rq_uri := ''#!/a''\<rparr>) = Inl OutOfBounds"
proof -
  have "strstr (cstr (request_rel_uri (yaf_request_init\<lparr>rq_uri := ''#!/a''\<rparr>))) ''#!'' = Some 0" by code_simp
  then show ?thesis
    using map_route_out_of_bounds [of "yaf_route_map_instance False (Some ''#!'')" "''#!''" sample_rt
      "yaf_request_init\<lparr>rq_uri := ''#!/a''\<rparr>" OutOfBounds]
    by (simp add: yaf_route_map_instance_def)
qed

end
