(* ===== verification/Yaf_Route_Pattern.thy ===== *)
theory Yaf_Route_Pattern
  imports Yaf_Route_Static
begin

text \<open>
  The two routes on regular expressions: \<open>routes/yaf_route_rewrite.c\<close>, which builds the
  expression from a pattern of literal, \<open>:name\<close> and \<open>*\<close> segments, and
  \<open>routes/yaf_route_regex.c\<close>, which takes it as it is and names its groups by a map.  The
  PCRE library is the parameter \<open>pcre\<close>: for a pattern and a subject it gives the table
  \<open>php_pcre_match_impl\<close> fills with the matched groups, under their numbers and names, empty
  if the subject does not match; \<^const>\<open>None\<close> is a pattern that does not compile.
\<close>

type_synonym pcre_match = "string \<Rightarrow> string \<Rightarrow> string htab option"

section \<open>Names from the captured arguments\<close>

definition route_name :: "zval htab \<Rightarrow> string \<Rightarrow> zval htab \<Rightarrow> string option" where
  \<comment> \<open>the default of a route: a name, or \<open>:key\<close> for the argument with that key\<close>
  "route_name routes what args =
     (case hfind routes (KStr what) of
        Some (ZString v) \<Rightarrow>
          if chd v \<noteq> CHR '':'' then Some v
          else (case hfind args (KStr (tl v)) of Some (ZString m) \<Rightarrow> Some m | _ \<Rightarrow> None)
      | _ \<Rightarrow> None)"

definition apply_route :: "zval htab \<Rightarrow> zval htab \<Rightarrow> yaf_request \<Rightarrow> yaf_request" where
  "apply_route routes args rq =
     snd (yaf_request_set_params_multi (ZArray args)
       (set_names (route_name routes ''module'' args) (route_name routes ''controller'' args)
          (route_name routes ''action'' args) rq))"

definition trailing_query :: "zval htab option \<Rightarrow> string" where
  \<comment> \<open>\<open>?\<close>, the items with an ampersand behind each, and the last byte taken off\<close>
  "trailing_query query = (case query of None \<Rightarrow> [] | Some q \<Rightarrow> butlast (''?'' @ query_amp q))"

section \<open>The rewrite route\<close>

record yaf_route_rewrite =
  rw_match :: string
  rw_route :: "zval htab"
  rw_verify :: zval

definition yaf_route_rewrite_instance :: "string \<Rightarrow> zval htab \<Rightarrow> zval htab option \<Rightarrow> yaf_route_rewrite" where
  "yaf_route_rewrite_instance match route verify =
     \<lparr>rw_match = match, rw_route = route,
      rw_verify = (case verify of None \<Rightarrow> ZNull | Some v \<Rightarrow> ZArray v)\<rparr>"

definition route_rewrite_construct ::
    "zval \<Rightarrow> zval htab \<Rightarrow> zval htab option \<Rightarrow> php_rt \<Rightarrow> yaf_route_rewrite option \<times> php_rt" where
  "route_rewrite_construct match route verify rt =
     (let err = (None, yaf_trigger_error ERR_TYPE_ERROR
                   ''Expects a valid string match as the first parameter'' rt)
      in case match of
           ZString m \<Rightarrow> if m = [] then err else (Some (yaf_route_rewrite_instance m route verify), rt)
         | _ \<Rightarrow> err)"

fun rewrite_segs :: "string list \<Rightarrow> string" where
  "rewrite_segs [] = []"
| "rewrite_segs (seg # segs) =
     SLASH # (if chd seg = CHR ''*'' then ''(?P<__yaf_route_rest>.*)''
              else (if chd seg = CHR '':'' then ''(?P<'' @ tl seg @ ''>[^/]+)'' else seg)
                   @ rewrite_segs segs)"

definition rewrite_pattern :: "string \<Rightarrow> string" where
  "rewrite_pattern match = ''#^'' @ rewrite_segs (strtok_all ''/'' (Some (cstr match))) @ ''#i''"

fun rewrite_args :: "string htab \<Rightarrow> zval htab \<Rightarrow> zval htab" where
  "rewrite_args [] ret = ret"
| "rewrite_args ((KInt _, _) # h) ret = rewrite_args h ret"
| "rewrite_args ((KStr k, v) # h) ret =
     (if k = ''__yaf_route_rest'' then rewrite_args h (hcopy ret (yaf_router_parse_parameters v))
      else rewrite_args h (hupdate (KStr k) (ZString v) ret))"

definition yaf_route_rewrite_match ::
    "pcre_match \<Rightarrow> yaf_route_rewrite \<Rightarrow> string \<Rightarrow> zval htab option" where
  "yaf_route_rewrite_match pcre r uri =
     (if uri = [] then None
      else case pcre (rewrite_pattern (rw_match r)) uri of
             None \<Rightarrow> None
           | Some subparts \<Rightarrow> if subparts = [] then None else Some (rewrite_args subparts []))"

definition yaf_route_rewrite_route ::
    "pcre_match \<Rightarrow> yaf_route_rewrite \<Rightarrow> php_rt \<Rightarrow> yaf_request \<Rightarrow> route_result" where
  "yaf_route_rewrite_route pcre r rt rq =
     (case yaf_route_rewrite_match pcre r (request_rel_uri rq) of
        None \<Rightarrow> Inr (False, rq)
      | Some args \<Rightarrow> Inr (True, apply_route (rw_route r) args rq))"

fun wildcard_of :: "zval htab \<Rightarrow> mem_error + string" where
  \<comment> \<open>the first byte of every key is skipped; an empty result is the null pointer\<close>
  "wildcard_of [] = Inr []"
| "wildcard_of ((KStr k, ZString v) # h) =
     (if k = [] then Inl OutOfBounds
      else case wildcard_of h of Inl e \<Rightarrow> Inl e | Inr w \<Rightarrow> Inr (tl k @ ''/'' @ v @ ''/'' @ w))"
| "wildcard_of (_ # h) = wildcard_of h"

fun rewrite_assemble_loop :: "zval htab \<Rightarrow> string list \<Rightarrow> zval htab \<Rightarrow> string \<Rightarrow> mem_error + string" where
  "rewrite_assemble_loop info [] pidents uri = Inr uri"
| "rewrite_assemble_loop info (seg # segs) pidents uri =
     (if chd seg = CHR ''*'' then
        (case wildcard_of pidents of
           Inl e \<Rightarrow> Inl e
         | Inr w \<Rightarrow> if w = [] then Inl NullDeref else Inr (php_str_to_str uri ''*'' w))
      else if chd seg = CHR '':'' then
        (case info_string info seg of
           Some val \<Rightarrow> rewrite_assemble_loop info segs (hdel (KStr seg) pidents) (php_str_to_str uri seg val)
         | None \<Rightarrow> rewrite_assemble_loop info segs pidents uri)
      else rewrite_assemble_loop info segs pidents uri)"

definition yaf_route_rewrite_assemble ::
    "yaf_route_rewrite \<Rightarrow> zval htab \<Rightarrow> zval htab option \<Rightarrow> mem_error + string" where
  "yaf_route_rewrite_assemble r info query =
     (case rewrite_assemble_loop info (strtok_all ''/'' (Some (cstr (rw_match r))))
             (hcopy [] info) (rw_match r) of
        Inl e \<Rightarrow> Inl e
      | Inr uri \<Rightarrow> Inr (uri @ trailing_query query))"

section \<open>The regex route\<close>

record yaf_route_regex =
  rx_match :: string
  rx_route :: "zval htab"
  rx_map :: "zval htab option"
  rx_verify :: zval
  rx_reverse :: "string option"

definition yaf_route_regex_instance ::
    "string \<Rightarrow> zval htab \<Rightarrow> zval htab option \<Rightarrow> zval htab option \<Rightarrow> zval option \<Rightarrow> yaf_route_regex" where
  "yaf_route_regex_instance route def mp verify reverse =
     \<lparr>rx_match = route, rx_route = def, rx_map = mp,
      rx_verify = (case verify of None \<Rightarrow> ZNull | Some v \<Rightarrow> ZArray v),
      rx_reverse = (case reverse of Some (ZString s) \<Rightarrow> Some s | _ \<Rightarrow> None)\<rparr>"

definition route_regex_construct ::
    "zval \<Rightarrow> zval htab \<Rightarrow> zval htab option \<Rightarrow> zval htab option \<Rightarrow> zval option \<Rightarrow> php_rt
      \<Rightarrow> yaf_route_regex option \<times> php_rt" where
  "route_regex_construct match route mp verify reverse rt =
     (let err = (\<lambda>msg. (None, yaf_trigger_error ERR_TYPE_ERROR msg rt));
          bad = err ''Expects a valid string as the first parameter''
      in case match of
           ZString m \<Rightarrow>
             if m = [] then bad
             else if (case reverse of None \<Rightarrow> False | Some v \<Rightarrow> \<not> is_string v)
             then err ''Expects a valid string reverse as fourth parameter''
             else (Some (yaf_route_regex_instance m route mp verify reverse), rt)
         | _ \<Rightarrow> bad)"

fun regex_args :: "zval htab option \<Rightarrow> string htab \<Rightarrow> zval htab \<Rightarrow> zval htab" where
  "regex_args mp [] ret = ret"
| "regex_args mp ((KStr k, v) # h) ret = regex_args mp h (hupdate (KStr k) (ZString v) ret)"
| "regex_args mp ((KInt i, v) # h) ret =
     (case mp of
        Some m \<Rightarrow>
          (case hfind m (KInt i) of
             Some (ZString name) \<Rightarrow> regex_args mp h (hupdate (KStr name) (ZString v) ret)
           | _ \<Rightarrow> regex_args mp h ret)
      | None \<Rightarrow> regex_args mp h ret)"

definition yaf_route_regex_match ::
    "pcre_match \<Rightarrow> yaf_route_regex \<Rightarrow> string \<Rightarrow> zval htab option" where
  "yaf_route_regex_match pcre r uri =
     (if uri = [] then None
      else case pcre (rx_match r) uri of
             None \<Rightarrow> None
           | Some subparts \<Rightarrow> if subparts = [] then None else Some (regex_args (rx_map r) subparts []))"

definition yaf_route_regex_route ::
    "pcre_match \<Rightarrow> yaf_route_regex \<Rightarrow> php_rt \<Rightarrow> yaf_request \<Rightarrow> route_result" where
  "yaf_route_regex_route pcre r rt rq =
     (case yaf_route_regex_match pcre r (request_rel_uri rq) of
        None \<Rightarrow> Inr (False, rq)
      | Some args \<Rightarrow> Inr (True, apply_route (rx_route r) args rq))"

definition regex_subst :: "zval htab \<Rightarrow> string \<Rightarrow> string \<Rightarrow> string" where
  "regex_subst info ph uri =
     (case info_string info ph of None \<Rightarrow> uri | Some val \<Rightarrow> php_str_to_str uri ph val)"

definition regex_items_readable :: "zval htab \<Rightarrow> bool" where
  \<comment> \<open>the query loop writes the bytes of the value itself, not of its string form\<close>
  "regex_items_readable q = list_all (\<lambda>(k, v). case k of KStr _ \<Rightarrow> is_string v | KInt _ \<Rightarrow> True) q"

definition yaf_route_regex_assemble ::
    "yaf_route_regex \<Rightarrow> zval htab \<Rightarrow> zval htab option \<Rightarrow> php_rt \<Rightarrow> mem_error + (string option \<times> php_rt)" where
  \<comment> \<open>the action, too, is written from the value itself\<close>
  "yaf_route_regex_assemble r info query rt =
     (case rx_reverse r of
        None \<Rightarrow> Inr (None, yaf_trigger_error ERR_TYPE_ERROR ''Reverse property is not a valid string'' rt)
      | Some reverse \<Rightarrow>
          (let uri = regex_subst info '':c'' (regex_subst info '':m'' reverse)
           in if (case hfind info (KStr '':a'') of None \<Rightarrow> False | Some v \<Rightarrow> \<not> is_string v)
              then Inl WildRead
              else if (case query of None \<Rightarrow> False | Some q \<Rightarrow> \<not> regex_items_readable q)
              then Inl WildRead
              else Inr (Some (regex_subst info '':a'' uri @ trailing_query query), rt)))"

section \<open>The route contract\<close>

lemma hwf_rewrite_args: "hwf ret \<Longrightarrow> hwf (rewrite_args h ret)"
  by (induction h ret rule: rewrite_args.induct) auto

lemma apply_route_frame [simp]: "request_frame (apply_route routes args rq) = request_frame rq"
  by (simp add: apply_route_def)

lemma apply_route_hwf: "hwf (rq_params rq) \<Longrightarrow> hwf (rq_params (apply_route routes args rq))"
  by (simp add: apply_route_def set_params_multi_hwf)

interpretation rewrite_route: routing "yaf_route_rewrite_route pcre r"
  by unfold_locales (auto simp: yaf_route_rewrite_route_def apply_route_hwf split: option.splits)

interpretation regex_route: routing "yaf_route_regex_route pcre r"
  by unfold_locales (auto simp: yaf_route_regex_route_def apply_route_hwf split: option.splits)

lemma apply_route_names:
  "rq_module (apply_route routes args rq) =
     (case route_name routes ''module'' args of Some s \<Rightarrow> ZString s | None \<Rightarrow> rq_module rq)"
  "rq_controller (apply_route routes args rq) =
     (case route_name routes ''controller'' args of Some s \<Rightarrow> ZString s | None \<Rightarrow> rq_controller rq)"
  "rq_action (apply_route routes args rq) =
     (case route_name routes ''action'' args of Some s \<Rightarrow> ZString s | None \<Rightarrow> rq_action rq)"
  by (simp_all add: apply_route_def set_names_def split: option.split)

section \<open>Replacing in a pattern\<close>

lemma strstr_skip:
  "needle \<noteq> [] \<Longrightarrow> hd needle \<notin> set a \<Longrightarrow> strstr (a @ b) needle = map_option ((+) (length a)) (strstr b needle)"
proof (induction a)
  case Nil
  then show ?case by (cases "strstr b needle") auto
next
  case (Cons c a)
  then have "\<not> prefix needle (c # a @ b)"
    by (cases needle) auto
  with Cons show ?case by (cases "strstr b needle") auto
qed

lemma str_to_str_skip:
  assumes "needle \<noteq> []" "hd needle \<notin> set a"
  shows "php_str_to_str (a @ b) needle rep = a @ php_str_to_str b needle rep"
proof (cases "strstr b needle")
  case None
  then show ?thesis
    using strstr_skip [OF assms, of b] by (simp add: php_str_to_str_None)
next
  case (Some i)
  then show ?thesis
    using assms strstr_skip [OF assms, of b]
    by (simp add: php_str_to_str.simps [of "a @ b"] php_str_to_str.simps [of b])
qed

lemma str_to_str_hit:
  assumes "needle \<noteq> []"
  shows "php_str_to_str (needle @ b) needle rep = rep @ php_str_to_str b needle rep"
proof -
  have "strstr (needle @ b) needle = Some 0"
    using assms by (cases needle) auto
  with assms show ?thesis by (simp add: php_str_to_str.simps [of "needle @ b"])
qed

lemma str_to_str_pass:
  assumes "needle \<noteq> []" "\<not> prefix needle (c # s)"
  shows "php_str_to_str (c # s) needle rep = c # php_str_to_str s needle rep"
  using assms by (cases "strstr s needle")
    (simp_all add: php_str_to_str.simps [of "c # s"] php_str_to_str.simps [of s])

definition placeholder :: "string \<Rightarrow> bool" where
  \<comment> \<open>a \<open>:name\<close> segment\<close>
  "placeholder s \<longleftrightarrow> (\<exists>n. s = CHR '':'' # n \<and> CHR '':'' \<notin> set n \<and> SLASH \<notin> set n)"

lemma placeholder_chd [simp]: "placeholder s \<Longrightarrow> chd s = CHR '':''"
  by (auto simp: placeholder_def chd_def)

text \<open>A part of a pattern: literal text without a colon, or a placeholder.\<close>

definition pattern_seg :: "string \<Rightarrow> bool" where
  "pattern_seg s \<longleftrightarrow> placeholder s \<or> CHR '':'' \<notin> set s"

lemma str_to_str_seg:
  assumes "placeholder needle" "pattern_seg s" "\<not> strict_prefix needle s"
    and "t = [] \<or> (\<exists>t'. t = SLASH # t')"
  shows "php_str_to_str (s @ t) needle rep = (if s = needle then rep else s) @ php_str_to_str t needle rep"
proof -
  obtain m where m: "needle = CHR '':'' # m" "CHR '':'' \<notin> set m" "SLASH \<notin> set m"
    using assms(1) by (auto simp: placeholder_def)
  consider "s = needle" | "s \<noteq> needle" "CHR '':'' \<notin> set s"
    | n where "s \<noteq> needle" "s = CHR '':'' # n" "CHR '':'' \<notin> set n"
    using assms(2) by (auto simp: pattern_seg_def placeholder_def)
  then show ?thesis
  proof cases
    case 1
    then show ?thesis using str_to_str_hit [of needle t] m by simp
  next
    case 2
    then show ?thesis using str_to_str_skip [of needle s t] m by simp
  next
    case 3
    have "\<not> prefix needle (s @ t)"
    proof
      assume "prefix needle (s @ t)"
      then consider "prefix needle s" | u where "needle = s @ u" "prefix u t"
        by (auto simp: prefix_append)
      then show False
      proof cases
        case 1
        with 3 assms(3) show False by (auto simp: strict_prefix_def)
      next
        case (2 u)
        with 3(1) assms(4) have "SLASH \<in> set u"
          by (cases u) auto
        with 2 have "SLASH \<in> set needle" by simp
        with m show False by simp
      qed
    qed
    then have "php_str_to_str (s @ t) needle rep = CHR '':'' # php_str_to_str (n @ t) needle rep"
      using str_to_str_pass [of needle "CHR '':''" "n @ t" rep] m 3 by simp
    then show ?thesis
      using str_to_str_skip [of needle n t] m 3 by simp
  qed
qed

lemma str_to_str_join:
  assumes "placeholder needle" "\<forall>s \<in> set segs. pattern_seg s \<and> \<not> strict_prefix needle s"
  shows "php_str_to_str (join SLASH segs) needle rep =
     join SLASH (map (\<lambda>s. if s = needle then rep else s) segs)"
  using assms(2)
proof (induction SLASH segs rule: join.induct)
  case 1
  then show ?case by (simp add: php_str_to_str.simps)
next
  case (2 s)
  have "php_str_to_str [] needle rep = []"
    by (simp add: php_str_to_str.simps)
  then show ?case
    using str_to_str_seg [OF assms(1), of s "[]" rep] 2 by simp
next
  case (3 s s' ss)
  have "needle \<noteq> []" "hd needle \<noteq> SLASH"
    using assms(1) by (auto simp: placeholder_def)
  then have "php_str_to_str (SLASH # join SLASH (s' # ss)) needle rep =
      SLASH # php_str_to_str (join SLASH (s' # ss)) needle rep"
    using str_to_str_skip [of needle "[SLASH]"] by auto
  then show ?case
    using str_to_str_seg [OF assms(1), of s "SLASH # join SLASH (s' # ss)" rep] 3
    by (cases ss) auto
qed

subsection \<open>The loop over the segments\<close>

definition pattern_value :: "zval htab \<Rightarrow> string \<Rightarrow> string" where
  "pattern_value info s =
     (if placeholder s then (case info_string info s of Some v \<Rightarrow> v | None \<Rightarrow> s) else s)"

definition pattern_ok :: "zval htab \<Rightarrow> string list \<Rightarrow> bool" where
  \<comment> \<open>no wildcard, no placeholder that begins with another one, and values without a colon\<close>
  "pattern_ok info segs \<longleftrightarrow>
     (\<forall>s \<in> set segs. seg_ok s \<and> pattern_seg s \<and> hd s \<noteq> CHR ''*'' \<and>
        (\<forall>p \<in> set segs. placeholder p \<longrightarrow> \<not> strict_prefix p s) \<and>
        (\<forall>v. info_string info s = Some v \<longrightarrow> CHR '':'' \<notin> set v))"

lemma pattern_seg_colon: "pattern_seg s \<Longrightarrow> chd s = CHR '':'' \<longleftrightarrow> placeholder s"
  by (cases s) (auto simp: pattern_seg_def chd_def placeholder_def)

lemma placeholder_colon: "placeholder s \<Longrightarrow> CHR '':'' \<in> set s"
  by (auto simp: placeholder_def)

definition pattern_sub :: "zval htab \<Rightarrow> string set \<Rightarrow> string \<Rightarrow> string" where
  \<comment> \<open>a segment after the placeholders in \<open>D\<close> are done\<close>
  "pattern_sub info D s = (if s \<in> D then pattern_value info s else s)"

lemma pattern_sub_colon:
  assumes "pattern_ok info segs" "s \<in> set segs"
  shows "pattern_sub info D s = s \<or> CHR '':'' \<notin> set (pattern_sub info D s)"
  using assms by (auto simp: pattern_ok_def pattern_sub_def pattern_value_def split: option.split)

lemma pattern_sub_part:
  assumes "pattern_ok info segs" "s \<in> set segs" "seg \<in> set segs" "placeholder seg"
  shows "pattern_seg (pattern_sub info D s) \<and> \<not> strict_prefix seg (pattern_sub info D s)"
proof (cases "pattern_sub info D s = s")
  case True
  with assms show ?thesis by (simp only: True) (auto simp: pattern_ok_def)
next
  case False
  then have "CHR '':'' \<notin> set (pattern_sub info D s)"
    using pattern_sub_colon [OF assms(1,2)] by blast
  moreover have "set seg \<subseteq> set (pattern_sub info D s)" if "strict_prefix seg (pattern_sub info D s)"
    using that set_mono_prefix strict_prefix_def by blast
  ultimately show ?thesis
    using placeholder_colon [OF assms(4)] unfolding pattern_seg_def by blast
qed

lemma pattern_step:
  assumes ok: "pattern_ok info segs" and seg: "seg \<in> set segs" "placeholder seg"
    and v: "info_string info seg = Some v"
  shows "php_str_to_str (SLASH # join SLASH (map (pattern_sub info D) segs)) seg v =
    SLASH # join SLASH (map (pattern_sub info (insert seg D)) segs)"
proof -
  have "\<forall>s \<in> set (map (pattern_sub info D) segs). pattern_seg s \<and> \<not> strict_prefix seg s"
    using pattern_sub_part [OF ok _ seg] by auto
  then have "php_str_to_str (join SLASH (map (pattern_sub info D) segs)) seg v =
      join SLASH (map (\<lambda>s. if s = seg then v else s) (map (pattern_sub info D) segs))"
    by (rule str_to_str_join [OF seg(2)])
  moreover have "map (\<lambda>s. if s = seg then v else s) (map (pattern_sub info D) segs) =
      map (pattern_sub info (insert seg D)) segs"
  proof -
    have c: "CHR '':'' \<notin> set v" using ok seg v by (auto simp: pattern_ok_def)
    have pv: "pattern_value info seg = v" using seg v by (simp add: pattern_value_def)
    have "(if pattern_sub info D s = seg then v else pattern_sub info D s) = pattern_sub info (insert seg D) s"
      if "s \<in> set segs" for s
      using pattern_sub_colon [OF ok that, of D] placeholder_colon [OF seg(2)] c pv
      by (auto simp: pattern_sub_def)
    then show ?thesis by simp
  qed
  moreover have "php_str_to_str (SLASH # join SLASH (map (pattern_sub info D) segs)) seg v =
      SLASH # php_str_to_str (join SLASH (map (pattern_sub info D) segs)) seg v"
    using seg str_to_str_skip [of seg "[SLASH]"] by (auto simp: placeholder_def)
  ultimately show ?thesis by (simp only:)
qed

lemma rewrite_loop:
  assumes "pattern_ok info segs" "set todo \<subseteq> set segs"
  shows "rewrite_assemble_loop info todo pid (SLASH # join SLASH (map (pattern_sub info D) segs)) =
    Inr (SLASH # join SLASH (map (pattern_sub info (D \<union> set todo)) segs))"
  using assms(2)
proof (induction todo arbitrary: D pid)
  case Nil
  then show ?case by simp
next
  case (Cons seg todo)
  have seg: "seg \<in> set segs" "seg_ok seg" "pattern_seg seg" "hd seg \<noteq> CHR ''*''"
    using assms(1) Cons.prems by (auto simp: pattern_ok_def)
  have star: "chd seg \<noteq> CHR ''*''"
    using seg(2,4) by (cases seg) (auto simp: chd_def)
  have todo: "set todo \<subseteq> set segs" using Cons.prems by simp
  note ih = Cons.IH [OF todo, of _ "insert seg D"]
  show ?case
  proof (cases "placeholder seg \<and> info_string info seg \<noteq> None")
    case True
    then obtain v where v: "info_string info seg = Some v" by auto
    then show ?thesis
      using True star pattern_step [OF assms(1) seg(1) _ v, of D] ih by simp
  next
    case False
    then have pv: "pattern_value info seg = seg"
      by (auto simp: pattern_value_def)
    have "rewrite_assemble_loop info (seg # todo) pid u = rewrite_assemble_loop info todo pid u" for u
      using False star pattern_seg_colon [OF seg(3)] by (auto split: option.split)
    moreover have "pattern_sub info D = pattern_sub info (insert seg D)"
      using pv by (auto simp: pattern_sub_def fun_eq_iff)
    ultimately show ?thesis using ih by simp
  qed
qed

section \<open>Arguments\<close>

lemma rewrite_args_lookup:
  assumes "hwf caps" "\<not> hexists caps (KStr ''__yaf_route_rest'')"
  shows "hfind (rewrite_args caps ret) (KStr k) =
    (case hfind caps (KStr k) of Some v \<Rightarrow> Some (ZString v) | None \<Rightarrow> hfind ret (KStr k))"
  using assms
proof (induction caps ret rule: rewrite_args.induct)
  case (3 k' v h ret)
  then have "hfind h (KStr k') = None" "hwf h"
    by (auto simp: hwf_def hfind_def map_of_eq_None_iff)
  with 3 show ?case by (auto simp: hexists_def split: if_splits option.split)
qed (auto simp: hwf_def hexists_def)

fun cap_name :: "zval htab option \<Rightarrow> zkey \<Rightarrow> string option" where
  \<comment> \<open>the name a group has of itself or in the map\<close>
  "cap_name mp (KStr s) = Some s"
| "cap_name None (KInt i) = None"
| "cap_name (Some m) (KInt i) = (case hfind m (KInt i) of Some (ZString name) \<Rightarrow> Some name | _ \<Rightarrow> None)"

fun named_caps :: "zval htab option \<Rightarrow> string htab \<Rightarrow> (string \<times> string) list" where
  "named_caps mp [] = []"
| "named_caps mp ((k, v) # caps) =
     (case cap_name mp k of Some n \<Rightarrow> (n, v) # named_caps mp caps | None \<Rightarrow> named_caps mp caps)"

lemma regex_args_cap:
  "regex_args mp ((k, v) # h) ret =
     (case cap_name mp k of Some n \<Rightarrow> regex_args mp h (hupdate (KStr n) (ZString v) ret)
      | None \<Rightarrow> regex_args mp h ret)"
  by (cases k; cases mp) (simp_all split: option.split zval.split)

lemma regex_args_fold:
  "regex_args mp caps ret =
     fold (\<lambda>(k, v). hupdate (KStr k) v) (map (\<lambda>(k, v). (k, ZString v)) (named_caps mp caps)) ret"
proof (induction mp caps arbitrary: ret rule: named_caps.induct)
  case (2 mp k v caps)
  then show ?case by (cases "cap_name mp k") (simp_all add: regex_args_cap)
qed simp

lemma regex_args_lookup:
  "hfind (regex_args mp caps []) (KStr k) = map_option ZString (map_of (rev (named_caps mp caps)) k)"
proof -
  have "map_of (rev (map (\<lambda>(k, v). (k, ZString v)) kvs)) k = map_option ZString (map_of (rev kvs) k)"
    for kvs :: "(string \<times> string) list"
    by (simp add: rev_map map_of_map)
  then show ?thesis
    by (simp add: regex_args_fold hfind_fold_hupdate split: option.split)
qed

lemma hwf_regex_args: "hwf ret \<Longrightarrow> hwf (regex_args mp caps ret)"
  by (simp add: regex_args_fold hwf_fold_hupdate)

lemma apply_route_params:
  "hwf args \<Longrightarrow> yaf_request_get_param (apply_route routes args rq) k =
     (case hfind args (KStr k) of Some v \<Rightarrow> Some v | None \<Rightarrow> yaf_request_get_param rq k)"
  by (simp add: apply_route_def set_params_multi_lookup)
    (simp add: yaf_request_get_param_def split: option.split)

section \<open>Properties\<close>

text \<open>
  C22: Assembling a rewrite pattern without a wildcard puts each value in the place of its
  placeholder and keeps the rest, though the code replaces text in the whole URI and not
  segment by segment; it needs that no placeholder begins with another one and that no
  value has a colon.
\<close>

theorem rewrite_assemble_segments:
  assumes "rw_match r = SLASH # join SLASH segs" "pattern_ok info segs"
  shows "yaf_route_rewrite_assemble r info query =
    Inr (SLASH # join SLASH (map (pattern_value info) segs) @ trailing_query query)"
proof -
  have ok: "\<forall>s \<in> set segs. s \<noteq> [] \<and> SLASH \<notin> set s \<and> NUL \<notin> set s"
    using assms(2) by (auto simp: pattern_ok_def seg_ok_def)
  have "cstr (SLASH # join SLASH segs) = SLASH # join SLASH segs"
    using ok NUL_join [of SLASH segs] by (intro cstr_id) simp
  moreover have "strtok_all ''/'' (Some (SLASH # join SLASH segs)) = segs"
    using ok strtok_all_join [of segs SLASH] strtok_all.simps [of "''/''" "Some (SLASH # join SLASH segs)"]
      strtok_all.simps [of "''/''" "Some (join SLASH segs)"] by (simp add: strtok_skip)
  moreover have m: "map (pattern_sub info (set segs)) segs = map (pattern_value info) segs"
    "map (pattern_sub info {}) segs = segs"
    by (simp_all add: pattern_sub_def map_idI)
  ultimately show ?thesis
    using rewrite_loop [OF assms(2) subset_refl, of "hcopy [] info" "{}", unfolded m]
    by (simp add: yaf_route_rewrite_assemble_def assms(1) m)
qed

lemma rewrite_assemble_segments_witness:
  "yaf_route_rewrite_assemble (yaf_route_rewrite_instance ''/product/:name/:id'' [] None)
     [(KStr '':name'', ZString ''foo''), (KStr '':id'', ZLong 7)] None = Inr ''/product/foo/7''"
proof -
  have i: "info_string [(KStr '':name'', ZString ''foo''), (KStr '':id'', ZLong 7)] ''product'' = None"
    "info_string [(KStr '':name'', ZString ''foo''), (KStr '':id'', ZLong 7)] '':name'' = Some ''foo''"
    "info_string [(KStr '':name'', ZString ''foo''), (KStr '':id'', ZLong 7)] '':id'' = Some ''7''"
    by code_simp+
  have p: "placeholder '':name''" "placeholder '':id''" "\<not> placeholder ''product''"
    by (auto simp: placeholder_def)
  have "pattern_ok [(KStr '':name'', ZString ''foo''), (KStr '':id'', ZLong 7)] [''product'', '':name'', '':id'']"
    by (auto simp: pattern_ok_def seg_ok_def pattern_seg_def p i strict_prefix_def)
  then show ?thesis
    using rewrite_assemble_segments [of "yaf_route_rewrite_instance ''/product/:name/:id'' [] None"
        "[''product'', '':name'', '':id'']"]
    by (simp add: yaf_route_rewrite_instance_def pattern_value_def p i trailing_query_def)
qed

text \<open>
  The two ways the routes write a query, the flags of the default route and the dropped
  last ampersand of the rewrite and regex routes, give the same text.
\<close>

theorem query_writers_agree: "trailing_query (Some q) = static_query False False q"
proof (cases "query_amp q = []")
  case True
  then have "amp_query q = []"
    using query_amp_shift [of q] by (cases "amp_query q") auto
  with True show ?thesis by (simp add: trailing_query_def static_query_amp)
next
  case False
  then show ?thesis
    using query_amp_butlast [OF False] by (simp add: trailing_query_def static_query_amp)
qed

text \<open>
  C36: A rewrite route whose expression matches takes each name from its defaults, literally
  or from the group the default names, and adds the groups to the parameters; the names
  without a usable default stay (a pattern without a wildcard).
\<close>

theorem rewrite_route_captures:
  assumes "request_rel_uri rq \<noteq> []" "pcre (rewrite_pattern (rw_match r)) (request_rel_uri rq) = Some caps"
    and "caps \<noteq> []" "hwf caps" "\<not> hexists caps (KStr ''__yaf_route_rest'')"
  shows "\<exists>rq'. yaf_route_rewrite_route pcre r rt rq = Inr (True, rq') \<and>
    (\<forall>what get. (what, get) \<in> {(''module'', rq_module), (''controller'', rq_controller), (''action'', rq_action)} \<longrightarrow>
       get rq' = (case hfind (rw_route r) (KStr what) of
         Some (ZString v) \<Rightarrow>
           if chd v \<noteq> CHR '':'' then ZString v
           else (case hfind caps (KStr (tl v)) of Some s \<Rightarrow> ZString s | None \<Rightarrow> get rq)
       | _ \<Rightarrow> get rq)) \<and>
    (\<forall>k. yaf_request_get_param rq' k =
       (case hfind caps (KStr k) of Some s \<Rightarrow> Some (ZString s) | None \<Rightarrow> yaf_request_get_param rq k))"
proof -
  define args where "args = rewrite_args caps []"
  have l: "hfind args (KStr k) = map_option ZString (hfind caps (KStr k))" for k
    using rewrite_args_lookup [OF assms(4,5), of "[]" k] by (simp add: args_def split: option.split)
  have r: "yaf_route_rewrite_route pcre r rt rq = Inr (True, apply_route (rw_route r) args rq)"
    using assms(1-3) by (simp add: yaf_route_rewrite_route_def yaf_route_rewrite_match_def args_def)
  have n: "(case route_name (rw_route r) what args of Some s \<Rightarrow> ZString s | None \<Rightarrow> z) =
      (case hfind (rw_route r) (KStr what) of
         Some (ZString v) \<Rightarrow>
           if chd v \<noteq> CHR '':'' then ZString v
           else (case hfind caps (KStr (tl v)) of Some s \<Rightarrow> ZString s | None \<Rightarrow> z)
       | _ \<Rightarrow> z)" for what z
    by (auto simp: route_name_def l split: option.split zval.split)
  have "hwf args" by (simp add: args_def hwf_rewrite_args)
  then show ?thesis
    by (auto simp: r apply_route_names n apply_route_params l split: option.split)
qed

lemma rewrite_route_captures_witness:
  "\<exists>rq'. yaf_route_rewrite_route (\<lambda>_ _. Some [(KInt 0, ''/p/7''), (KStr ''id'', ''7''), (KInt 1, ''7'')])
      (yaf_route_rewrite_instance ''/p/:id'' [(KStr ''controller'', ZString ''product''), (KStr ''action'', ZString '':id'')] None)
      sample_rt (yaf_request_init\<lparr>rq_uri := ''/p/7''\<rparr>) = Inr (True, rq') \<and>
    rq_controller rq' = ZString ''product'' \<and> rq_action rq' = ZString ''7'' \<and>
    yaf_request_get_param rq' ''id'' = Some (ZString ''7'')"
proof -
  let ?r = "yaf_route_rewrite_instance ''/p/:id'' [(KStr ''controller'', ZString ''product''), (KStr ''action'', ZString '':id'')] None"
  have u: "request_rel_uri (yaf_request_init\<lparr>rq_uri := ''/p/7''\<rparr>) = ''/p/7''" by code_simp
  from rewrite_route_captures [of "yaf_request_init\<lparr>rq_uri := ''/p/7''\<rparr>"
      "\<lambda>_ _. Some [(KInt 0, ''/p/7''), (KStr ''id'', ''7''), (KInt 1, ''7'')]" ?r
      "[(KInt 0, ''/p/7''), (KStr ''id'', ''7''), (KInt 1, ''7'')]" sample_rt]
  show ?thesis
    by (auto simp: u hwf_def hexists_def yaf_route_rewrite_instance_def chd_def)
qed

text \<open>
  A regex route that matches passes on the groups that have a name of their own or one in
  the map of the route; where two get the same name the last one counts.  A route that does
  not match leaves the request as it is.
\<close>

lemma regex_route_captures:
  "yaf_route_regex_route pcre r rt rq =
     (case (if request_rel_uri rq = [] then None else pcre (rx_match r) (request_rel_uri rq)) of
        Some (c # caps) \<Rightarrow> Inr (True, apply_route (rx_route r) (regex_args (rx_map r) (c # caps) []) rq)
      | _ \<Rightarrow> Inr (False, rq)) \<and>
   yaf_request_get_param (apply_route (rx_route r) (regex_args (rx_map r) caps []) rq) k =
     (case map_of (rev (named_caps (rx_map r) caps)) k of
        Some s \<Rightarrow> Some (ZString s) | None \<Rightarrow> yaf_request_get_param rq k)"
proof
  show "yaf_request_get_param (apply_route (rx_route r) (regex_args (rx_map r) caps []) rq) k =
     (case map_of (rev (named_caps (rx_map r) caps)) k of
        Some s \<Rightarrow> Some (ZString s) | None \<Rightarrow> yaf_request_get_param rq k)"
    by (subst apply_route_params) (simp_all add: hwf_regex_args regex_args_lookup split: option.split)
qed (simp add: yaf_route_regex_route_def yaf_route_regex_match_def split: option.split list.split)

end
