(* ===== verification/Yaf_Router.thy ===== *)
theory Yaf_Router
  imports Yaf_Route_Query Yaf_Route_Map Yaf_Route_Pattern
begin

text \<open>
  The router (\<open>yaf_router.c\<close>) and the making of a route from a configuration entry
  (\<open>routes/yaf_route_interface.c\<close>): the ordered table of routes, which is tried from its end,
  and the operations that fill it.  A route written in PHP is a function of the parameter
  \<open>user\<close>; what the router promises for the routes of the extension is proved from the
  contract of a route.
\<close>

section \<open>Routes\<close>

datatype yaf_route =
    RStatic
  | RSimple yaf_route_simple
  | RSupervar yaf_route_supervar
  | RMap yaf_route_map
  | RRewrite yaf_route_rewrite
  | RRegex yaf_route_regex
  | RUser nat

type_synonym user_routes = "nat \<Rightarrow> php_rt \<Rightarrow> yaf_request \<Rightarrow> bool \<times> yaf_request \<times> php_rt"

definition type_is :: "string \<Rightarrow> string \<Rightarrow> bool" where
  "type_is s lit \<longleftrightarrow> length s = length lit \<and> strncasecmp0 s lit (length lit)"

definition cfg_string :: "zval htab \<Rightarrow> string \<Rightarrow> string option" where
  "cfg_string c k = (case hfind c (KStr k) of Some (ZString s) \<Rightarrow> Some s | _ \<Rightarrow> None)"

definition cfg_array :: "zval htab \<Rightarrow> string \<Rightarrow> zval htab option" where
  "cfg_array c k = (case hfind c (KStr k) of Some (ZArray h) \<Rightarrow> Some h | _ \<Rightarrow> None)"

definition yaf_route_instance :: "zval option \<Rightarrow> yaf_route option" where
  \<comment> \<open>\<open>verify\<close> and \<open>reverse\<close> are looked up under the key \<open>route\<close>, as the code has it\<close>
  "yaf_route_instance config =
     (case config of
        Some (ZArray c) \<Rightarrow>
          (case cfg_string c ''type'' of
             None \<Rightarrow> None
           | Some t \<Rightarrow>
               if type_is t ''rewrite'' then
                 (case (cfg_string c ''match'', cfg_array c ''route'') of
                    (Some m, Some def) \<Rightarrow>
                      Some (RRewrite (yaf_route_rewrite_instance m def (cfg_array c ''route'')))
                  | _ \<Rightarrow> None)
               else if type_is t ''regex'' then
                 (case (cfg_string c ''match'', cfg_array c ''route'') of
                    (Some m, Some def) \<Rightarrow>
                      Some (RRegex (yaf_route_regex_instance m def (cfg_array c ''map'')
                        (cfg_array c ''route'') (map_option ZString (cfg_string c ''route''))))
                  | _ \<Rightarrow> None)
               else if type_is t ''map'' then
                 Some (RMap (yaf_route_map_instance
                   (case hfind c (KStr ''controllerPrefer'') of Some v \<Rightarrow> zend_is_true v | None \<Rightarrow> False)
                   (cfg_string c ''delimiter'')))
               else if type_is t ''simple'' then
                 (case (cfg_string c ''module'', cfg_string c ''controller'', cfg_string c ''action'') of
                    (Some m, Some ct, Some a) \<Rightarrow> Some (RSimple (yaf_route_simple_instance m ct a))
                  | _ \<Rightarrow> None)
               else if type_is t ''supervar'' then
                 (case cfg_string c ''varname'' of
                    Some v \<Rightarrow> map_option RSupervar (yaf_route_supervar_instance (Some (ZString v)))
                  | None \<Rightarrow> None)
               else None)
      | _ \<Rightarrow> None)"

fun builtin_route :: "pcre_match \<Rightarrow> yaf_route \<Rightarrow> php_rt \<Rightarrow> yaf_request \<Rightarrow> route_result" where
  "builtin_route pcre RStatic rt rq = yaf_route_static_route rt rq"
| "builtin_route pcre (RSimple r) rt rq = yaf_route_simple_route r rt rq"
| "builtin_route pcre (RSupervar r) rt rq = yaf_route_supervar_route r rt rq"
| "builtin_route pcre (RMap r) rt rq = yaf_route_map_route r rt rq"
| "builtin_route pcre (RRewrite r) rt rq = yaf_route_rewrite_route pcre r rt rq"
| "builtin_route pcre (RRegex r) rt rq = yaf_route_regex_route pcre r rt rq"
| "builtin_route pcre (RUser _) rt rq = Inr (False, rq)"

fun is_builtin :: "yaf_route \<Rightarrow> bool" where
  "is_builtin (RUser _) = False"
| "is_builtin _ = True"

definition call_route ::
    "pcre_match \<Rightarrow> user_routes \<Rightarrow> yaf_route \<Rightarrow> php_rt \<Rightarrow> yaf_request
      \<Rightarrow> mem_error + (bool \<times> yaf_request \<times> php_rt)" where
  \<comment> \<open>\<open>zend_call_method\<close> does nothing while an exception is pending\<close>
  "call_route pcre user r rt rq =
     (if rt_exception rt \<noteq> None then Inr (False, rq, rt)
      else case r of
             RUser i \<Rightarrow> Inr (user i rt rq)
           | _ \<Rightarrow> (case builtin_route pcre r rt rq of
                     Inl e \<Rightarrow> Inl e | Inr (b, rq') \<Rightarrow> Inr (b, rq', rt)))"

section \<open>The router\<close>

record yaf_router =
  ro_routes :: "yaf_route htab"
  ro_current :: zval

definition default_key :: zkey where
  "default_key = KStr ''_default''"

definition yaf_router_instance :: "php_rt \<Rightarrow> yaf_router \<times> php_rt" where
  "yaf_router_instance rt =
     (let router = (\<lambda>r. \<lparr>ro_routes = [(default_key, r)], ro_current = ZNull\<rparr>)
      in case g_default_route (rt_g rt) of
           None \<Rightarrow> (router RStatic, rt)
         | Some cfg \<Rightarrow>
             (case yaf_route_instance (Some cfg) of
                Some r \<Rightarrow> (router r, rt)
              | None \<Rightarrow> (router RStatic, php_error_docref
                  (EWarning ''Unable to initialize default route, use Yaf_Route_Static instead'') rt)))"

fun router_try ::
    "('r \<Rightarrow> php_rt \<Rightarrow> yaf_request \<Rightarrow> mem_error + (bool \<times> yaf_request \<times> php_rt))
      \<Rightarrow> (zkey \<times> 'r) list \<Rightarrow> yaf_request \<Rightarrow> php_rt
      \<Rightarrow> mem_error + (zkey option \<times> yaf_request \<times> php_rt)" where
  \<comment> \<open>the loop; the key of the route that returned true, if one did\<close>
  "router_try call [] rq rt = Inr (None, rq, rt)"
| "router_try call ((k, r) # rs) rq rt =
     (case call r rt rq of
        Inl e \<Rightarrow> Inl e
      | Inr (b, rq', rt') \<Rightarrow> if b then Inr (Some k, rq', rt') else router_try call rs rq' rt')"

definition current_of :: "zkey \<Rightarrow> zval" where
  "current_of k = (case k of KStr s \<Rightarrow> ZString (cstr s) | KInt i \<Rightarrow> ZLong i)"

definition yaf_router_route ::
    "pcre_match \<Rightarrow> user_routes \<Rightarrow> yaf_router \<Rightarrow> yaf_request \<Rightarrow> php_rt
      \<Rightarrow> mem_error + (bool \<times> yaf_router \<times> yaf_request \<times> php_rt)" where
  "yaf_router_route pcre user ro rq rt =
     (case router_try (call_route pcre user) (rev (ro_routes ro)) rq rt of
        Inl e \<Rightarrow> Inl e
      | Inr (None, rq', rt') \<Rightarrow> Inr (False, ro, rq', rt')
      | Inr (Some k, rq', rt') \<Rightarrow>
          Inr (True, ro\<lparr>ro_current := current_of k\<rparr>, yaf_request_set_routed True rq', rt'))"

definition route_warning :: "zkey \<Rightarrow> string" where
  "route_warning k =
     (case k of
        KStr s \<Rightarrow> ''Unable to initialize route named '' @ quoted (cstr s)
      | KInt i \<Rightarrow> ''Unable to initialize route at index '' @ quoted (zend_long_to_str i))"

fun add_config_loop :: "zval htab \<Rightarrow> yaf_route htab \<Rightarrow> php_rt \<Rightarrow> yaf_route htab \<times> php_rt" where
  "add_config_loop [] routes rt = (routes, rt)"
| "add_config_loop ((k, entry) # cs) routes rt =
     (if \<not> is_array entry then add_config_loop cs routes rt
      else case yaf_route_instance (Some entry) of
             None \<Rightarrow> add_config_loop cs routes (php_error_docref (EWarning (route_warning k)) rt)
           | Some r \<Rightarrow> add_config_loop cs (hupdate k r routes) rt)"

definition yaf_router_add_config :: "yaf_router \<Rightarrow> zval option \<Rightarrow> php_rt \<Rightarrow> bool \<times> yaf_router \<times> php_rt" where
  "yaf_router_add_config ro configs rt =
     (case configs of
        Some (ZArray cs) \<Rightarrow>
          (let (routes, rt') = add_config_loop cs (ro_routes ro) rt
           in (True, ro\<lparr>ro_routes := routes\<rparr>, rt'))
      | _ \<Rightarrow> (False, ro, rt))"

definition router_addRoute :: "string \<Rightarrow> yaf_route option \<Rightarrow> yaf_router \<Rightarrow> php_rt \<Rightarrow> bool \<times> yaf_router \<times> php_rt" where
  \<comment> \<open>\<^const>\<open>None\<close> is a value that is no route object\<close>
  "router_addRoute name route ro rt =
     (case route of
        None \<Rightarrow> (False, ro, php_error_docref (EWarning ''Expects a Yaf_Route_Interface instance'') rt)
      | Some r \<Rightarrow> (True, ro\<lparr>ro_routes := hupdate (KStr name) r (ro_routes ro)\<rparr>, rt))"

datatype config_arg = ConfigObject zval | ConfigValue zval

definition router_addConfig :: "config_arg \<Rightarrow> yaf_router \<Rightarrow> php_rt \<Rightarrow> bool \<times> yaf_router \<times> php_rt" where
  "router_addConfig arg ro rt =
     (case arg of
        ConfigObject v \<Rightarrow> yaf_router_add_config ro (Some v) rt
      | ConfigValue v \<Rightarrow>
          if is_array v then yaf_router_add_config ro (Some v) rt
          else (False, ro, php_error_docref (EWarning
                 (''Expect a Yaf_Config_Abstract instance or an array, '' @ zend_zval_type_name v @ '' given'')) rt))"

datatype route_lookup = LookupFalse | LookupNull | LookupRoute yaf_route

definition router_getRoute :: "yaf_router \<Rightarrow> string \<Rightarrow> route_lookup" where
  "router_getRoute ro name =
     (if name = [] then LookupFalse
      else case hfind (ro_routes ro) (KStr name) of Some r \<Rightarrow> LookupRoute r | None \<Rightarrow> LookupNull)"

section \<open>What the contract of a route gives the router\<close>

text \<open>
  A table of routes of which those that satisfy \<open>ok\<close> keep the contract: unmatched, they
  change nothing; matched, they keep the frame of the request.
\<close>

locale route_table =
  fixes ok :: "'r \<Rightarrow> bool"
    and call :: "'r \<Rightarrow> php_rt \<Rightarrow> yaf_request \<Rightarrow> mem_error + (bool \<times> yaf_request \<times> php_rt)"
  assumes call_unmatched: "ok r \<Longrightarrow> call r rt rq = Inr (False, rq', rt') \<Longrightarrow> rq' = rq \<and> rt' = rt"
    and call_frame: "ok r \<Longrightarrow> call r rt rq = Inr (b, rq', rt') \<Longrightarrow>
      request_frame rq' = request_frame rq \<and> rt' = rt \<and> (hwf (rq_params rq) \<longrightarrow> hwf (rq_params rq'))"
begin

definition matches :: "php_rt \<Rightarrow> yaf_request \<Rightarrow> 'r \<Rightarrow> bool" where
  "matches rt rq r = (\<exists>rq' rt'. call r rt rq = Inr (True, rq', rt'))"

lemma try_none:
  "\<forall>(k, r) \<in> set rs. ok r \<Longrightarrow> router_try call rs rq rt = Inr (None, rq', rt') \<Longrightarrow>
     rq' = rq \<and> rt' = rt \<and> (\<forall>(k, r) \<in> set rs. call r rt rq = Inr (False, rq, rt))"
proof (induction rs)
  case Nil
  then show ?case by simp
next
  case (Cons kr rs)
  obtain k r where kr: "kr = (k, r)" by (cases kr)
  with Cons.prems obtain rq1 rt1 where c: "call r rt rq = Inr (False, rq1, rt1)"
    by (auto split: sum.splits prod.splits if_splits)
  with Cons.prems kr call_unmatched [of r rt rq rq1 rt1] have "rq1 = rq \<and> rt1 = rt" by auto
  with Cons c kr show ?case by auto
qed

lemma try_first:
  assumes "\<forall>(k, r) \<in> set pre. call r rt rq = Inr (False, rq, rt)" "call r rt rq = Inr (True, rq', rt')"
  shows "router_try call (pre @ (k, r) # post) rq rt = Inr (Some k, rq', rt')"
  using assms by (induction pre) auto

lemma try_found:
  assumes "\<forall>(k, r) \<in> set rs. ok r" "router_try call rs rq rt = Inr (Some k, rq', rt')"
  shows "\<exists>pre r post. rs = pre @ (k, r) # post \<and> call r rt rq = Inr (True, rq', rt') \<and>
    (\<forall>(k, r) \<in> set pre. call r rt rq = Inr (False, rq, rt))"
  using assms
proof (induction rs)
  case Nil
  then show ?case by simp
next
  case (Cons kr rs)
  obtain k1 r1 where kr: "kr = (k1, r1)" by (cases kr)
  with Cons.prems obtain b rq1 rt1 where c: "call r1 rt rq = Inr (b, rq1, rt1)"
    by (cases "call r1 rt rq") (auto split: prod.splits)
  show ?case
  proof (cases b)
    case True
    with Cons.prems kr c have "k1 = k \<and> rq1 = rq' \<and> rt1 = rt'" by simp
    with True c kr show ?thesis by (intro exI [of _ "[]"]) auto
  next
    case False
    with Cons.prems kr c call_unmatched [of r1 rt rq rq1 rt1] have e: "rq1 = rq" "rt1 = rt" by auto
    with False c kr Cons.prems Cons.IH obtain pre r post where
      "rs = pre @ (k, r) # post" "call r rt rq = Inr (True, rq', rt')"
      "\<forall>(k, r) \<in> set pre. call r rt rq = Inr (False, rq, rt)" by auto
    with False c kr e show ?thesis by (intro exI [of _ "kr # pre"]) auto
  qed
qed

lemma try_frame:
  assumes "\<forall>(k, r) \<in> set rs. ok r" "router_try call rs rq rt = Inr (res, rq', rt')"
  shows "request_frame rq' = request_frame rq \<and> rt' = rt \<and> (hwf (rq_params rq) \<longrightarrow> hwf (rq_params rq'))"
proof (cases res)
  case None
  with assms try_none [of rs rq rt rq' rt'] show ?thesis by auto
next
  case (Some k)
  with assms obtain r pre post where "rs = pre @ (k, r) # post" "call r rt rq = Inr (True, rq', rt')"
    using try_found [of rs rq rt k rq' rt'] by blast
  with assms(1) show ?thesis using call_frame [of r rt rq True rq' rt'] by auto
qed

end

lemma builtin_contract:
  "builtin_route pcre r rt rq = Inr (b, rq') \<Longrightarrow>
     (\<not> b \<longrightarrow> rq' = rq) \<and> request_frame rq' = request_frame rq \<and>
     (hwf (rq_params rq) \<longrightarrow> hwf (rq_params rq'))"
  by (cases r) (auto dest: static_route.contract simple_route.contract supervar_route.contract
      map_route.contract rewrite_route.contract regex_route.contract)

lemma call_route_builtin:
  "is_builtin r \<Longrightarrow> rt_exception rt = None \<Longrightarrow> call_route pcre user r rt rq =
     (case builtin_route pcre r rt rq of Inl e \<Rightarrow> Inl e | Inr (b, rq') \<Rightarrow> Inr (b, rq', rt))"
  by (cases r) (simp_all add: call_route_def)

interpretation router: route_table is_builtin "call_route pcre user"
proof unfold_locales
  fix r rt rq b rq' rt'
  assume "is_builtin r" "call_route pcre user r rt rq = Inr (b, rq', rt')"
  then show "request_frame rq' = request_frame rq \<and> rt' = rt \<and> (hwf (rq_params rq) \<longrightarrow> hwf (rq_params rq'))"
    using builtin_contract [of pcre r rt rq b rq'] call_route_builtin [of r rt pcre user rq]
    by (cases "rt_exception rt") (auto simp: call_route_def split: sum.splits prod.splits)
next
  fix r rt rq rq' rt'
  assume "is_builtin r" "call_route pcre user r rt rq = Inr (False, rq', rt')"
  then show "rq' = rq \<and> rt' = rt"
    using builtin_contract [of pcre r rt rq False rq'] call_route_builtin [of r rt pcre user rq]
    by (cases "rt_exception rt") (auto simp: call_route_def split: sum.splits prod.splits)
qed

section \<open>Properties\<close>

definition all_builtin :: "yaf_router \<Rightarrow> bool" where
  "all_builtin ro \<longleftrightarrow> (\<forall>(k, r) \<in> set (ro_routes ro). is_builtin r)"

text \<open>
  C14: The route added last that matches decides: if the routes added behind it answer false,
  whatever request they hand on, then its key becomes the current route and the request is what
  it made of the request as it came in, now routed: those that were tried before it have left
  no trace, and the older ones are not asked.
\<close>

theorem router_last_match:
  assumes "rt_exception rt = None" "ro_routes ro = older @ (k, r) # newer" "is_builtin r"
    and "\<forall>(k', r') \<in> set newer. is_builtin r' \<and> (\<exists>rq1. builtin_route pcre r' rt rq = Inr (False, rq1))"
    and "builtin_route pcre r rt rq = Inr (True, rq')"
  shows "yaf_router_route pcre user ro rq rt =
    Inr (True, ro\<lparr>ro_current := current_of k\<rparr>, rq'\<lparr>rq_routed := True\<rparr>, rt)"
proof -
  have "\<forall>(k', r') \<in> set (rev newer). call_route pcre user r' rt rq = Inr (False, rq, rt)"
    using assms(1,4) builtin_contract [of pcre _ rt rq False]
    by (auto simp: call_route_builtin split: sum.split prod.split)
  moreover have "call_route pcre user r rt rq = Inr (True, rq', rt)"
    using assms by (simp add: call_route_builtin)
  ultimately show ?thesis
    using router.try_first [of "rev newer"] assms(2)
    by (simp add: yaf_router_route_def yaf_request_set_routed_def)
qed

lemma router_last_match_witness:
  "yaf_router_route (\<lambda>_ _. None) (\<lambda>_ rt rq. (True, rq, rt))
     \<lparr>ro_routes = [(default_key, RStatic), (KStr ''s'', RSupervar \<lparr>sv_varname = ''r''\<rparr>)], ro_current = ZNull\<rparr>
     (yaf_request_init\<lparr>rq_uri := ''/user''\<rparr>) sample_rt =
   Inr (True, \<lparr>ro_routes = [(default_key, RStatic), (KStr ''s'', RSupervar \<lparr>sv_varname = ''r''\<rparr>)],
                ro_current = ZString ''_default''\<rparr>,
        yaf_request_init\<lparr>rq_uri := ''/user'', rq_controller := ZString ''user'', rq_routed := True\<rparr>, sample_rt)"
proof -
  have "builtin_route (\<lambda>_ _. None) RStatic sample_rt (yaf_request_init\<lparr>rq_uri := ''/user''\<rparr>) =
      Inr (True, yaf_request_init\<lparr>rq_uri := ''/user'', rq_controller := ZString ''user''\<rparr>)"
    by code_simp
  moreover have "cstr ''_default'' = ''_default''" by code_simp
  ultimately show ?thesis
    using router_last_match [of sample_rt
      "\<lparr>ro_routes = [(default_key, RStatic), (KStr ''s'', RSupervar \<lparr>sv_varname = ''r''\<rparr>)], ro_current = ZNull\<rparr>"
      "[]" default_key RStatic "[(KStr ''s'', RSupervar \<lparr>sv_varname = ''r''\<rparr>)]" "\<lambda>_ _. None"
      "yaf_request_init\<lparr>rq_uri := ''/user''\<rparr>" _ "\<lambda>_ rt rq. (True, rq, rt)"]
    by (simp add: sample_rt_def yaf_route_supervar_route_def yaf_request_query_def current_of_def default_key_def)
qed

text \<open>
  C15: Whatever routes of the extension the router holds, routing keeps the URI, the base URI,
  the method and the dispatched flag of the request and the state of the runtime.  It answers
  false only if no route matches, and then nothing at all has changed; if it answers true,
  the request is routed and the current route is the key of a route in the table.
\<close>

theorem router_route_frame:
  assumes "all_builtin ro" "yaf_router_route pcre user ro rq rt = Inr (b, ro', rq', rt')"
  shows "rt' = rt \<and> ro_routes ro' = ro_routes ro \<and>
    request_frame (rq'\<lparr>rq_routed := rq_routed rq\<rparr>) = request_frame rq \<and>
    (if b then rq_routed rq' \<and> (\<exists>(k, r) \<in> set (ro_routes ro). ro_current ro' = current_of k)
     else ro' = ro \<and> rq' = rq \<and>
       (\<forall>(k, r) \<in> set (ro_routes ro). call_route pcre user r rt rq = Inr (False, rq, rt)))"
proof -
  have ok: "\<forall>(k, r) \<in> set (rev (ro_routes ro)). is_builtin r"
    using assms(1) by (simp add: all_builtin_def)
  obtain res rq1 where t: "router_try (call_route pcre user) (rev (ro_routes ro)) rq rt = Inr (res, rq1, rt')"
    using assms(2) by (auto simp: yaf_router_route_def split: sum.splits option.splits)
  note f = router.try_frame [OF ok t]
  show ?thesis
  proof (cases res)
    case None
    with assms(2) t f show ?thesis
      using router.try_none [OF ok t [unfolded None]] by (auto simp: yaf_router_route_def)
  next
    case (Some k)
    with t obtain r where "(k, r) \<in> set (ro_routes ro)"
      using router.try_found [OF ok t [unfolded Some]] by (metis in_set_conv_decomp set_rev)
    moreover have "b" "ro' = ro\<lparr>ro_current := current_of k\<rparr>" "rq' = rq1\<lparr>rq_routed := True\<rparr>"
      using Some assms(2) t by (auto simp: yaf_router_route_def yaf_request_set_routed_def)
    ultimately show ?thesis
      using f by (auto simp: request_frame_def)
  qed
qed

lemma router_route_frame_witness:
  "\<exists>ro' rq' rt'. yaf_router_route (\<lambda>_ _. None) (\<lambda>_ rt rq. (True, rq, rt)) (fst (yaf_router_instance sample_rt))
     (yaf_request_init\<lparr>rq_uri := ''/user''\<rparr>) sample_rt = Inr (True, ro', rq', rt') \<and>
   rq_routed rq' \<and> rq_uri rq' = ''/user'' \<and> rt' = sample_rt"
proof -
  have i: "fst (yaf_router_instance sample_rt) = \<lparr>ro_routes = [(default_key, RStatic)], ro_current = ZNull\<rparr>"
    by (simp add: yaf_router_instance_def sample_rt_def yaf_rinit_def yaf_ginit_def Let_def)
  have e: "rt_exception sample_rt = None"
    by (simp add: sample_rt_def)
  obtain ro' rq' rt' where r: "yaf_router_route (\<lambda>_ _. None) (\<lambda>_ rt rq. (True, rq, rt)) (fst (yaf_router_instance sample_rt))
     (yaf_request_init\<lparr>rq_uri := ''/user''\<rparr>) sample_rt = Inr (True, ro', rq', rt')"
    by (simp add: i yaf_router_route_def call_route_def yaf_route_static_route_def e)
  show ?thesis
    using router_route_frame [OF _ r] r
    by (intro exI [of _ ro'] exI [of _ rq'] exI [of _ rt']) (simp add: i all_builtin_def request_frame_def)
qed

lemma add_config_lookup:
  "hwf cs \<Longrightarrow> hfind (fst (add_config_loop cs routes rt)) k =
     (case (case hfind cs k of Some e \<Rightarrow> yaf_route_instance (Some e) | None \<Rightarrow> None) of
        Some r \<Rightarrow> Some r | None \<Rightarrow> hfind routes k)"
proof (induction cs routes rt rule: add_config_loop.induct)
  case (1 routes rt)
  then show ?case by simp
next
  case (2 k' entry cs routes rt)
  have n: "\<not> is_array entry \<Longrightarrow> yaf_route_instance (Some entry) = None"
    by (cases entry) (simp_all add: yaf_route_instance_def)
  have "hfind cs k' = None" "hwf cs"
    using 2(4) by (auto simp: hwf_def hfind_def map_of_eq_None_iff)
  with 2 n show ?case
    by (cases "yaf_route_instance (Some entry)"; cases "is_array entry") (auto split: option.split)
qed

text \<open>
  Adding a configuration puts the route of each usable entry under the key of the entry,
  over a route with that key; entries that make no route and all other routes leave the table
  as it was.  A configuration that is no array is refused.
\<close>

theorem router_add_config_table:
  assumes "\<And>cs. configs = Some (ZArray cs) \<Longrightarrow> hwf cs"
  shows "let (b, ro', rt') = yaf_router_add_config ro configs rt in
    ro_current ro' = ro_current ro \<and> (b \<longleftrightarrow> (\<exists>cs. configs = Some (ZArray cs))) \<and>
    hfind (ro_routes ro') k =
      (case configs of
         Some (ZArray cs) \<Rightarrow>
           (case (case hfind cs k of Some e \<Rightarrow> yaf_route_instance (Some e) | None \<Rightarrow> None) of
              Some r \<Rightarrow> Some r | None \<Rightarrow> hfind (ro_routes ro) k)
       | _ \<Rightarrow> hfind (ro_routes ro) k)"
proof (cases "\<exists>cs. configs = Some (ZArray cs)")
  case True
  then obtain cs where cs: "configs = Some (ZArray cs)" by blast
  show ?thesis
    using add_config_lookup [OF assms [OF cs], of "ro_routes ro" rt k]
    by (cases "add_config_loop cs (ro_routes ro) rt") (simp add: cs yaf_router_add_config_def)
next
  case False
  then show ?thesis
    by (auto simp: yaf_router_add_config_def split: option.split zval.split)
qed

lemma router_add_config_table_witness:
  "hfind (ro_routes (fst (snd (yaf_router_add_config (fst (yaf_router_instance sample_rt))
     (Some (ZArray [(KStr ''m'', ZArray [(KStr ''type'', ZString ''Map'')]), (KStr ''x'', ZTrue)])) sample_rt)))) (KStr ''m'') =
   Some (RMap \<lparr>rm_ctl_prefer = False, rm_delimiter = None\<rparr>)"
proof -
  have "yaf_route_instance (Some (ZArray [(KStr ''type'', ZString ''Map'')])) =
      Some (RMap \<lparr>rm_ctl_prefer = False, rm_delimiter = None\<rparr>)" by code_simp
  then show ?thesis
    using router_add_config_table [of "Some (ZArray [(KStr ''m'', ZArray [(KStr ''type'', ZString ''Map'')]), (KStr ''x'', ZTrue)])"
      "fst (yaf_router_instance sample_rt)" sample_rt "KStr ''m''"]
    by (simp add: hwf_def split: prod.splits)
qed

end
