(* ===== verification/Yaf_Response.thy ===== *)
theory Yaf_Response
  imports Yaf_Request
begin

text \<open>
  The response (\<open>yaf_response.c\<close>) and its HTTP class (\<open>responses/yaf_response_http.c\<close>): the
  body, a table of named parts in the order of their first use, and the headers.  The
  server's \<open>sapi_header_op\<close> is a parameter: it gives the header list after a line is
  accepted, or \<^const>\<open>None\<close> if it refuses the line.
\<close>

section \<open>The response\<close>

datatype response_class = ResponseHttp | ResponseCli

record yaf_response =
  rp_class :: response_class
  rp_header :: "string htab"
  rp_body :: "string htab"
  rp_response_code :: zlong

definition yaf_response_instance :: "string \<Rightarrow> yaf_response" where
  \<comment> \<open>four bytes are compared, the terminator with them\<close>
  "yaf_response_instance sapi =
     \<lparr>rp_class = (if strncasecmp0 sapi ''cli'' 4 then ResponseCli else ResponseHttp),
      rp_header = [], rp_body = [], rp_response_code = 0\<rparr>"

datatype body_flag = RESPONSE_REPLACE | RESPONSE_PREPEND | RESPONSE_APPEND

definition default_body :: string where
  "default_body = ''content''"

definition yaf_response_alter_body ::
    "yaf_response \<Rightarrow> string option \<Rightarrow> string \<Rightarrow> body_flag \<Rightarrow> yaf_response" where
  "yaf_response_alter_body rp name body flag =
     (if body = [] then rp
      else
        (let name = (case name of Some n \<Rightarrow> n | None \<Rightarrow> default_body);
             new = (case hfind (rp_body rp) (KStr name) of
                      None \<Rightarrow> body
                    | Some obody \<Rightarrow>
                        (case flag of
                           RESPONSE_PREPEND \<Rightarrow> body @ obody
                         | RESPONSE_APPEND \<Rightarrow> obody @ body
                         | RESPONSE_REPLACE \<Rightarrow> body))
         in rp\<lparr>rp_body := hupdate (KStr name) new (rp_body rp)\<rparr>))"

definition yaf_response_clear_body :: "yaf_response \<Rightarrow> string option \<Rightarrow> yaf_response" where
  "yaf_response_clear_body rp name =
     (case name of
        Some n \<Rightarrow> rp\<lparr>rp_body := hdel (KStr n) (rp_body rp)\<rparr>
      | None \<Rightarrow> rp\<lparr>rp_body := []\<rparr>)"

datatype body_view = WholeBody "string htab" | BodyPart string

definition yaf_response_get_body :: "yaf_response \<Rightarrow> string option \<Rightarrow> body_view option" where
  "yaf_response_get_body rp name =
     (case name of
        None \<Rightarrow> Some (WholeBody (rp_body rp))
      | Some n \<Rightarrow> map_option BodyPart (hfind (rp_body rp) (KStr n)))"

definition php_write :: "string \<Rightarrow> php_rt \<Rightarrow> php_rt" where
  "php_write s rt = rt\<lparr>rt_output := rt_output rt @ s\<rparr>"

fun write_parts :: "string htab \<Rightarrow> php_rt \<Rightarrow> php_rt" where
  "write_parts [] rt = rt"
| "write_parts ((_, s) # h) rt = write_parts h (php_write s rt)"

definition yaf_response_send :: "yaf_response \<Rightarrow> php_rt \<Rightarrow> bool \<times> php_rt" where
  "yaf_response_send rp rt = (True, write_parts (rp_body rp) rt)"

subsection \<open>Methods\<close>

definition response_clearBody :: "yaf_response \<Rightarrow> string option \<Rightarrow> mem_error + yaf_response" where
  \<comment> \<open>without an argument the name pointer is read before anything is stored in it\<close>
  "response_clearBody rp arg =
     (case arg of None \<Rightarrow> Inl WildRead | Some n \<Rightarrow> Inr (yaf_response_clear_body rp (Some n)))"

definition response_getBody :: "yaf_response \<Rightarrow> zval option \<Rightarrow> body_view" where
  "response_getBody rp name =
     (case (case name of
              None \<Rightarrow> yaf_response_get_body rp (Some default_body)
            | Some v \<Rightarrow> if v = ZNull then yaf_response_get_body rp None
                       else yaf_response_get_body rp (Some (zval_get_string v))) of
        Some b \<Rightarrow> b
      | None \<Rightarrow> BodyPart [])"

definition response_toString :: "yaf_response \<Rightarrow> string" where
  "response_toString rp = concat (map snd (rp_body rp))"

section \<open>Headers\<close>

definition yaf_response_get_header :: "yaf_response \<Rightarrow> string option \<Rightarrow> body_view option" where
  "yaf_response_get_header rp name =
     (case name of
        None \<Rightarrow> Some (WholeBody (rp_header rp))
      | Some n \<Rightarrow> map_option BodyPart (hfind (rp_header rp) (KStr n)))"

definition yaf_response_clear_header :: "yaf_response \<Rightarrow> string option \<Rightarrow> yaf_response" where
  "yaf_response_clear_header rp name =
     (case name of
        Some n \<Rightarrow> rp\<lparr>rp_header := hdel (KStr n) (rp_header rp)\<rparr>
      | None \<Rightarrow> rp\<lparr>rp_header := []\<rparr>)"

definition yaf_response_alter_header ::
    "yaf_response \<Rightarrow> string option \<Rightarrow> string \<Rightarrow> bool \<Rightarrow> yaf_response" where
  \<comment> \<open>a header not found is added by a symbol-table insert, which turns a decimal name into
      an integer key\<close>
  "yaf_response_alter_header rp name v rep =
     (case name of
        None \<Rightarrow> rp
      | Some n \<Rightarrow>
         (case hfind (rp_header rp) (KStr n) of
            None \<Rightarrow> rp\<lparr>rp_header := hupdate (symkey n) v (rp_header rp)\<rparr>
          | Some oheader \<Rightarrow>
              rp\<lparr>rp_header := hupdate (KStr n) (if rep then v else oheader @ '', '' @ v) (rp_header rp)\<rparr>))"

record sapi_out =
  so_code :: "32 word" \<comment> \<open>\<open>http_response_code\<close> is an \<open>int\<close>: of the 64 bits the low ones are stored\<close>
  so_headers :: "string list"

text \<open>
  The server's \<open>sapi_header_op\<close>: whether it took a line, the lines and the code behind it, and the
  state of the runtime, since a line that comes too late is reported as a warning, and the error
  handler of the user may make an exception of that.
\<close>

type_synonym header_op = "string \<Rightarrow> sapi_out \<times> php_rt \<Rightarrow> bool \<times> sapi_out \<times> php_rt"

definition yaf_response_set_redirect :: "header_op \<Rightarrow> string \<Rightarrow> sapi_out \<times> php_rt \<Rightarrow> bool \<times> sapi_out \<times> php_rt" where
  "yaf_response_set_redirect op url s = op (''Location: '' @ cstr url) s"

definition response_setRedirect :: "header_op \<Rightarrow> string \<Rightarrow> sapi_out \<times> php_rt \<Rightarrow> bool \<times> sapi_out \<times> php_rt" where
  "response_setRedirect op url s = (if url = [] then (False, s) else yaf_response_set_redirect op url s)"

definition ulong_text :: "zlong \<Rightarrow> string" where
  "ulong_text n = nat_to_str (unat n)"

definition header_line :: "zkey \<Rightarrow> string \<Rightarrow> string" where
  "header_line k v =
     (case k of KStr n \<Rightarrow> cstr n | KInt i \<Rightarrow> ulong_text i) @ '': '' @ cstr v"

fun send_headers :: "header_op \<Rightarrow> string htab \<Rightarrow> sapi_out \<times> php_rt \<Rightarrow> bool \<times> sapi_out \<times> php_rt" where
  \<comment> \<open>stops at the first line the server refuses; an exception does not stop it\<close>
  "send_headers op [] s = (True, s)"
| "send_headers op ((k, v) # h) s =
     (case op (header_line k v) s of
        (True, s') \<Rightarrow> send_headers op h s'
      | (False, s') \<Rightarrow> (False, s'))"

definition yaf_response_http_send ::
    "header_op \<Rightarrow> yaf_response \<Rightarrow> sapi_out \<Rightarrow> php_rt \<Rightarrow> bool \<times> sapi_out \<times> php_rt" where
  "yaf_response_http_send op rp so rt =
     (let so = (if rp_response_code rp \<noteq> 0 then so\<lparr>so_code := ucast (rp_response_code rp)\<rparr> else so)
      in case send_headers op (rp_header rp) (so, rt) of
           (False, so', rt') \<Rightarrow> (False, so', rt')
         | (True, so', rt') \<Rightarrow> (True, so', write_parts (rp_body rp) rt'))"

definition response_http_setHeader :: "string \<Rightarrow> string \<Rightarrow> bool \<Rightarrow> zlong \<Rightarrow> yaf_response \<Rightarrow> yaf_response" where
  "response_http_setHeader name v rep code rp =
     yaf_response_alter_header (if code \<noteq> 0 then rp\<lparr>rp_response_code := code\<rparr> else rp) (Some name) v rep"

fun response_http_setAllHeaders :: "zval htab \<Rightarrow> yaf_response \<Rightarrow> yaf_response" where
  \<comment> \<open>an entry without a string key passes a null name on, which is skipped\<close>
  "response_http_setAllHeaders [] rp = rp"
| "response_http_setAllHeaders ((k, v) # h) rp =
     response_http_setAllHeaders h
       (yaf_response_alter_header rp (case k of KStr n \<Rightarrow> Some n | KInt _ \<Rightarrow> None) (zval_get_string v) True)"

section \<open>Facts\<close>

definition response_wf :: "yaf_response \<Rightarrow> bool" where
  "response_wf rp \<longleftrightarrow> hwf (rp_body rp) \<and> hwf (rp_header rp) \<and> [] \<notin> snd ` set (rp_body rp)"

lemma write_parts_output: "rt_output (write_parts h rt) = rt_output rt @ concat (map snd h)"
  by (induction h rt rule: write_parts.induct) (auto simp: php_write_def)

lemma write_parts_frame [simp]:
  "rt_g (write_parts h rt) = rt_g rt" "rt_exception (write_parts h rt) = rt_exception rt"
  by (induction h rt rule: write_parts.induct) (auto simp: php_write_def)

lemma snd_hupdate: "snd ` set (hupdate k v h) \<subseteq> insert v (snd ` set h)"
  by (induction k v h rule: hupdate.induct) auto

lemma alter_body_wf: "response_wf rp \<Longrightarrow> response_wf (yaf_response_alter_body rp name body flag)"
proof (cases "body = []")
  case False
  assume wf: "response_wf rp"
  obtain n v where a: "yaf_response_alter_body rp name body flag =
      rp\<lparr>rp_body := hupdate (KStr n) v (rp_body rp)\<rparr>" "v \<noteq> []"
    using False by (cases name; cases flag)
      (auto simp: yaf_response_alter_body_def Let_def split: option.split)
  then show ?thesis
    using wf snd_hupdate [of "KStr n" v "rp_body rp"] by (auto simp: response_wf_def)
qed (simp add: yaf_response_alter_body_def)

lemma clear_body_wf: "response_wf rp \<Longrightarrow> response_wf (yaf_response_clear_body rp name)"
  by (cases name) (auto simp: response_wf_def yaf_response_clear_body_def hdel_def hwf_def distinct_map_filter)

lemma alter_header_wf: "response_wf rp \<Longrightarrow> response_wf (yaf_response_alter_header rp name v rep)"
  by (auto simp: response_wf_def yaf_response_alter_header_def split: option.split)

subsection \<open>The body as a table\<close>

text \<open>
  With non-empty texts the body is a symbol table: replacing puts a part, clearing takes it
  away.
\<close>

definition set_body :: "string \<Rightarrow> char \<times> string \<Rightarrow> yaf_response \<Rightarrow> yaf_response" where
  "set_body name t rp = yaf_response_alter_body rp (Some name) (fst t # snd t) RESPONSE_REPLACE"

definition body_part :: "yaf_response \<Rightarrow> string \<Rightarrow> (char \<times> string) option" where
  "body_part rp name = map_option (\<lambda>s. (hd s, tl s)) (hfind (rp_body rp) (KStr name))"

interpretation response_body: symtab response_wf body_part set_body
    "\<lambda>name rp. yaf_response_clear_body rp (Some name)"
proof unfold_locales
  fix rp k v
  show "response_wf rp \<Longrightarrow> response_wf (set_body k v rp)"
    by (simp add: set_body_def alter_body_wf)
next
  fix rp k and v :: "char \<times> string" and k'
  show "body_part (set_body k v rp) k' = (if k' = k then Some v else body_part rp k')"
    by (auto simp: body_part_def set_body_def yaf_response_alter_body_def split: option.split)
next
  fix rp k
  show "response_wf rp \<Longrightarrow> response_wf (yaf_response_clear_body rp (Some k))"
    by (rule clear_body_wf)
next
  fix rp k k'
  show "body_part (yaf_response_clear_body rp (Some k)) k' = (if k' = k then None else body_part rp k')"
    by (simp add: body_part_def yaf_response_clear_body_def)
qed

section \<open>Properties\<close>

definition buffer_op :: "body_flag \<times> string \<Rightarrow> string \<Rightarrow> string" where
  \<comment> \<open>the text a part is in the abstract\<close>
  "buffer_op = (\<lambda>(flag, b) t.
     case flag of RESPONSE_APPEND \<Rightarrow> t @ b | RESPONSE_PREPEND \<Rightarrow> b @ t
     | RESPONSE_REPLACE \<Rightarrow> if b = [] then t else b)"

definition body_op :: "string option \<Rightarrow> body_flag \<times> string \<Rightarrow> yaf_response \<Rightarrow> yaf_response" where
  "body_op name = (\<lambda>(flag, b) rp. yaf_response_alter_body rp name b flag)"

definition body_is :: "string \<Rightarrow> string \<Rightarrow> yaf_response \<Rightarrow> bool" where
  \<comment> \<open>one part with that text, or nothing for the empty text\<close>
  "body_is name t rp \<longleftrightarrow> rp_body rp = (if t = [] then [] else [(KStr name, t)])"

lemma body_op_is:
  "body_is (case name of Some n \<Rightarrow> n | None \<Rightarrow> default_body) t rp \<Longrightarrow>
     body_is (case name of Some n \<Rightarrow> n | None \<Rightarrow> default_body) (buffer_op op t) (body_op name op rp)"
  by (cases op; cases "fst op")
    (auto simp: body_is_def body_op_def buffer_op_def yaf_response_alter_body_def Let_def split: if_splits)

lemma body_ops_is:
  "body_is (case name of Some n \<Rightarrow> n | None \<Rightarrow> default_body) t rp \<Longrightarrow>
     body_is (case name of Some n \<Rightarrow> n | None \<Rightarrow> default_body) (fold buffer_op ops t) (fold (body_op name) ops rp)"
  by (induction ops arbitrary: t rp) (auto intro: body_op_is)

text \<open>
  C20: A response refines a text buffer: after any sequence of appends, prepends and
  replacements of one part of a fresh response, sending it writes exactly the text that the
  same operations give on a string; an empty text changes nothing, even as a replacement.
\<close>

theorem response_refines_buffer:
  "rt_output (snd (yaf_response_send (fold (body_op name) ops (yaf_response_instance sapi)) rt)) =
     rt_output rt @ fold buffer_op ops []"
proof -
  have "body_is (case name of Some n \<Rightarrow> n | None \<Rightarrow> default_body) (fold buffer_op ops [])
      (fold (body_op name) ops (yaf_response_instance sapi))"
    by (rule body_ops_is) (simp add: body_is_def yaf_response_instance_def)
  then show ?thesis
    by (auto simp: body_is_def yaf_response_send_def write_parts_output split: if_splits)
qed

text \<open>
  Changing one part of the body leaves every other part and the headers alone, and the
  part itself is the old text with the new one before it, behind it or instead of it; the
  invariant of the response is kept.
\<close>

theorem response_alter_body_parts:
  assumes "response_wf rp" "b \<noteq> []"
  shows "response_wf (yaf_response_alter_body rp (Some n) b flag) \<and>
    rp_header (yaf_response_alter_body rp (Some n) b flag) = rp_header rp \<and>
    response_getBody (yaf_response_alter_body rp (Some n) b flag) (Some (ZString k)) =
      (if k = n then BodyPart (buffer_op (flag, b) (case hfind (rp_body rp) (KStr n) of Some t \<Rightarrow> t | None \<Rightarrow> []))
       else response_getBody rp (Some (ZString k)))"
  using alter_body_wf [OF assms(1), of "Some n" b flag]
proof (intro conjI)
  show "response_getBody (yaf_response_alter_body rp (Some n) b flag) (Some (ZString k)) =
      (if k = n then BodyPart (buffer_op (flag, b) (case hfind (rp_body rp) (KStr n) of Some t \<Rightarrow> t | None \<Rightarrow> []))
       else response_getBody rp (Some (ZString k)))"
    using assms(2) by (cases flag) (auto simp: yaf_response_alter_body_def response_getBody_def
        yaf_response_get_body_def buffer_op_def split: option.split)
qed (auto simp: yaf_response_alter_body_def Let_def)

lemma response_alter_body_parts_witness:
  "response_getBody (yaf_response_alter_body
      (yaf_response_alter_body (yaf_response_instance ''fpm'') (Some ''a'') ''x'' RESPONSE_APPEND)
      (Some ''a'') ''y'' RESPONSE_PREPEND) (Some (ZString ''a'')) = BodyPart ''yx''"
proof -
  have "response_wf (yaf_response_alter_body (yaf_response_instance ''fpm'') (Some ''a'') ''x'' RESPONSE_APPEND)"
    by (rule alter_body_wf) (simp add: response_wf_def yaf_response_instance_def)
  then show ?thesis
    using response_alter_body_parts [of "yaf_response_alter_body (yaf_response_instance ''fpm'') (Some ''a'') ''x'' RESPONSE_APPEND"
        "''y''" "''a''" RESPONSE_PREPEND "''a''"]
    by (simp add: buffer_op_def yaf_response_alter_body_def yaf_response_instance_def)
qed

text \<open>
  Two values of a header without replacement are kept in one line, separated by a comma;
  but where the name is a decimal number the second value takes the place of the first,
  because the lookup does not see the integer key the first one was stored under.
\<close>

theorem response_header_twice:
  assumes "hfind (rp_header rp) (KStr n) = None"
  shows "hfind (rp_header (yaf_response_alter_header (yaf_response_alter_header rp (Some n) v r) (Some n) w False))
      (symkey n) = Some (if symkey n = KStr n then v @ '', '' @ w else w)"
  using assms by (auto simp: yaf_response_alter_header_def split: option.split)

lemma response_header_twice_witness:
  "hfind (rp_header (yaf_response_alter_header (yaf_response_alter_header (yaf_response_instance ''fpm'')
       (Some ''404'') ''a'' False) (Some ''404'') ''b'' False)) (KInt 404) = Some ''b''"
proof -
  have "symkey ''404'' = KInt 404" by code_simp
  then show ?thesis
    using response_header_twice [of "yaf_response_instance ''fpm''" "''404''" "''a''" False "''b''"]
    by (simp add: yaf_response_instance_def)
qed

text \<open>
  The HTTP response sends its headers before its body: if the server refuses a header the
  answer is false and nothing of the body is written, otherwise the whole body is, in the
  order of its parts, whatever the server did in between.
\<close>

theorem response_http_send_output:
  assumes "yaf_response_http_send op rp so rt = (b, so', rt')"
  shows "\<exists>rt1. send_headers op (rp_header rp)
      (if rp_response_code rp \<noteq> 0 then so\<lparr>so_code := ucast (rp_response_code rp)\<rparr> else so, rt) = (b, so', rt1)
    \<and> rt_output rt' = rt_output rt1 @ (if b then response_toString rp else [])
    \<and> rt_exception rt' = rt_exception rt1"
  using assms by (auto simp: yaf_response_http_send_def response_toString_def write_parts_output Let_def
      split: prod.splits bool.splits if_splits)

end
