(* ===== verification/Yaf_View.thy ===== *)
theory Yaf_View
  imports Yaf_Runtime
begin

text \<open>
  The built-in template engine (\<open>views/yaf_view_simple.c\<close>): the assigned variables, the symbol
  table a template sees, the path of the template, and rendering into a string or into the
  output.  Templates are PHP files: the parameter \<open>tpl_engine\<close> says whether a path can be
  resolved, what compiling it gives, and what running the code with a symbol table does to the
  state.  The output buffers of the engine open and close when asked to.
\<close>

section \<open>The view\<close>

record yaf_view =
  vw_vars :: "zval htab"
  vw_dir :: zval
  vw_opts :: zval

definition is_absolute_path :: "string \<Rightarrow> bool" where
  "is_absolute_path s \<longleftrightarrow> chd s = SLASH"

definition yaf_view_simple_instance :: "zval option \<Rightarrow> zval option \<Rightarrow> php_rt \<Rightarrow> yaf_view option \<times> php_rt" where
  "yaf_view_simple_instance tpl_dir options rt =
     (let view = \<lparr>vw_vars = [], vw_dir = ZNull, vw_opts = ZNull\<rparr>;
          opts = (\<lambda>v. case options of Some (ZArray h) \<Rightarrow> v\<lparr>vw_opts := ZArray h\<rparr> | _ \<Rightarrow> v)
      in case tpl_dir of
           Some (ZString d) \<Rightarrow>
             if is_absolute_path d then (Some (opts (view\<lparr>vw_dir := ZString d\<rparr>)), rt)
             else (None, yaf_trigger_error ERR_TYPE_ERROR
                     ''Expects an absolute path for templates directory'' rt)
         | _ \<Rightarrow> (Some (opts view), rt))"

definition yaf_view_simple_assign_single :: "string \<Rightarrow> zval \<Rightarrow> yaf_view \<Rightarrow> yaf_view" where
  "yaf_view_simple_assign_single name v vw = vw\<lparr>vw_vars := hupdate (KStr name) v (vw_vars vw)\<rparr>"

definition yaf_view_simple_assign_multi :: "zval \<Rightarrow> yaf_view \<Rightarrow> bool \<times> yaf_view" where
  "yaf_view_simple_assign_multi v vw =
     (case v of ZArray h \<Rightarrow> (True, vw\<lparr>vw_vars := hcopy (vw_vars vw) h\<rparr>) | _ \<Rightarrow> (False, vw))"

definition yaf_view_simple_clear_assign :: "string option \<Rightarrow> yaf_view \<Rightarrow> yaf_view" where
  \<comment> \<open>a symbol-table delete, while \<open>assign\<close> stores under the string itself\<close>
  "yaf_view_simple_clear_assign name vw =
     (case name of
        Some n \<Rightarrow> vw\<lparr>vw_vars := hdel (symkey n) (vw_vars vw)\<rparr>
      | None \<Rightarrow> vw\<lparr>vw_vars := []\<rparr>)"

definition view_get :: "string option \<Rightarrow> yaf_view \<Rightarrow> zval" where
  "view_get name vw =
     (case name of
        None \<Rightarrow> ZArray (vw_vars vw)
      | Some n \<Rightarrow> (case hfind (vw_vars vw) (KStr n) of Some v \<Rightarrow> v | None \<Rightarrow> ZNull))"

definition view_isset :: "string \<Rightarrow> yaf_view \<Rightarrow> bool" where
  "view_isset name vw = hexists (vw_vars vw) (KStr name)"

definition view_setScriptPath :: "zval \<Rightarrow> yaf_view \<Rightarrow> bool \<times> yaf_view" where
  "view_setScriptPath d vw =
     (case d of
        ZString s \<Rightarrow> if is_absolute_path s then (True, vw\<lparr>vw_dir := d\<rparr>) else (False, vw)
      | _ \<Rightarrow> (False, vw))"

definition view_getScriptPath :: "yaf_globals \<Rightarrow> yaf_view \<Rightarrow> zval" where
  "view_getScriptPath g vw =
     (if \<not> is_string (vw_dir vw) then (case g_view_directory g of Some d \<Rightarrow> ZString d | None \<Rightarrow> vw_dir vw)
      else vw_dir vw)"

section \<open>The symbol table of a template\<close>

definition name_start :: "char \<Rightarrow> bool" where
  "name_start c \<longleftrightarrow> (let n = (of_char c :: nat) in
     c = CHR ''_'' \<or> (65 \<le> n \<and> n \<le> 90) \<or> (97 \<le> n \<and> n \<le> 122) \<or> 127 \<le> n)"

definition yaf_view_simple_valid_var_name :: "string \<Rightarrow> bool" where
  "yaf_view_simple_valid_var_name s =
     (case s of [] \<Rightarrow> False | c # cs \<Rightarrow> name_start c \<and> list_all (\<lambda>c. name_start c \<or> is_digit c) cs)"

definition visible_name :: "bool \<Rightarrow> string \<Rightarrow> bool" where
  \<comment> \<open>\<open>this\<close> is taken inside a class\<close>
  "visible_name in_class n \<longleftrightarrow>
     n \<noteq> ''GLOBALS'' \<and> \<not> (n = ''this'' \<and> in_class) \<and> yaf_view_simple_valid_var_name n"

fun symtable_add :: "bool \<Rightarrow> zval htab \<Rightarrow> zval htab \<Rightarrow> mem_error + zval htab" where
  \<comment> \<open>the newest entry in front: \<open>zend_hash_add_new\<close> does not look for an older entry, and a
      lookup meets the newest first.  An integer key is a null name, which is compared.\<close>
  "symtable_add in_class [] tab = Inr tab"
| "symtable_add in_class ((KInt _, _) # h) tab = Inl NullDeref"
| "symtable_add in_class ((KStr n, v) # h) tab =
     symtable_add in_class h (if visible_name in_class n then (KStr n, v) # tab else tab)"

definition yaf_view_build_symtable :: "bool \<Rightarrow> zval \<Rightarrow> zval option \<Rightarrow> mem_error + zval htab" where
  "yaf_view_build_symtable in_class tpl_vars vars =
     (let add = (\<lambda>z tab. case z of ZArray h \<Rightarrow> symtable_add in_class h tab | _ \<Rightarrow> Inr tab)
      in case add tpl_vars [] of
           Inl e \<Rightarrow> Inl e
         | Inr tab \<Rightarrow> (case vars of Some z \<Rightarrow> add z tab | None \<Rightarrow> Inr tab))"

section \<open>Rendering\<close>

type_synonym tpl_code = "zval htab \<Rightarrow> php_rt \<Rightarrow> php_rt" \<comment> \<open>run with a symbol table\<close>

record tpl_engine =
  tpl_realpath :: "string \<Rightarrow> php_rt \<Rightarrow> bool" \<comment> \<open>\<open>VCWD_REALPATH\<close>\<close>
  tpl_compile :: "string \<Rightarrow> php_rt \<Rightarrow> tpl_code compiled \<times> php_rt" \<comment> \<open>\<open>zend_compile_file\<close>\<close>

definition yaf_view_exec_tpl :: "tpl_code \<Rightarrow> zval htab \<Rightarrow> bool \<Rightarrow> php_rt \<Rightarrow> zval option \<times> php_rt" where
  \<comment> \<open>with \<open>capture\<close> the output goes to a buffer of its own, which is the result; a template
      that throws has none\<close>
  "yaf_view_exec_tpl run tab capture rt =
     (if capture then
        (let rt' = run tab (rt\<lparr>rt_output := []\<rparr>);
             back = rt'\<lparr>rt_output := rt_output rt\<rparr>
         in if rt_exception rt' \<noteq> None then (None, back) else (Some (ZString (rt_output rt')), back))
      else
        (let rt' = run tab rt in if rt_exception rt' \<noteq> None then (None, rt') else (Some ZTrue, rt')))"

definition yaf_view_render_tpl ::
    "tpl_engine \<Rightarrow> zval htab \<Rightarrow> string \<Rightarrow> bool \<Rightarrow> php_rt \<Rightarrow> zval option \<times> php_rt" where
  \<comment> \<open>a template that compiles is one of the included files from then on\<close>
  "yaf_view_render_tpl eng tab script capture rt =
     (if \<not> tpl_realpath eng (cstr script) rt
      then (None, yaf_trigger_error ERR_NOTFOUND_VIEW
              (''Failed opening template '' @ cstr script @ '': '' @ rt_errno rt) rt)
      else
        (let (c, rt) = tpl_compile eng (cstr script) rt;
             rt = note_opened script c rt
         in case cp_run c of
              None \<Rightarrow> (None, rt)
            | Some run \<Rightarrow> yaf_view_exec_tpl run tab capture rt))"

definition tpl_script :: "yaf_globals \<Rightarrow> yaf_view \<Rightarrow> string \<Rightarrow> string option" where
  \<comment> \<open>an absolute name, or one below the directory of the view, or below the one the
      dispatcher chose\<close>
  "tpl_script g vw tpl =
     (if is_absolute_path tpl then Some tpl
      else case vw_dir vw of
             ZString d \<Rightarrow> Some (cstr d @ SLASH # cstr tpl)
           | _ \<Rightarrow> map_option (\<lambda>d. cstr d @ SLASH # cstr tpl) (g_view_directory g))"

definition yaf_view_simple_render ::
    "tpl_engine \<Rightarrow> bool \<Rightarrow> yaf_view \<Rightarrow> zval \<Rightarrow> zval option \<Rightarrow> bool \<Rightarrow> php_rt
      \<Rightarrow> mem_error + (zval option \<times> php_rt)" where
  "yaf_view_simple_render eng in_class vw tpl vars capture rt =
     (case tpl of
        ZString t \<Rightarrow>
          (case yaf_view_build_symtable in_class (ZArray (vw_vars vw)) vars of
             Inl e \<Rightarrow> Inl e
           | Inr tab \<Rightarrow>
              (case tpl_script (rt_g rt) vw t of
                 None \<Rightarrow> Inr (None, yaf_trigger_error ERR_NOTFOUND_VIEW
                   ''Could not determine the view script path, you should call Yaf_View_Simple::setScriptPath to specific it'' rt)
               | Some script \<Rightarrow> Inr (yaf_view_render_tpl eng tab script capture rt)))
      | _ \<Rightarrow> Inr (None, rt))"

definition view_render ::
    "tpl_engine \<Rightarrow> bool \<Rightarrow> yaf_view \<Rightarrow> zval \<Rightarrow> zval option \<Rightarrow> php_rt \<Rightarrow> mem_error + (zval \<times> php_rt)" where
  "view_render eng in_class vw tpl vars rt =
     (case yaf_view_simple_render eng in_class vw tpl vars True rt of
        Inl e \<Rightarrow> Inl e
      | Inr (None, rt') \<Rightarrow> Inr (ZFalse, rt')
      | Inr (Some v, rt') \<Rightarrow> Inr (v, rt'))"

definition view_display ::
    "tpl_engine \<Rightarrow> bool \<Rightarrow> yaf_view \<Rightarrow> zval \<Rightarrow> zval option \<Rightarrow> php_rt \<Rightarrow> mem_error + (bool \<times> php_rt)" where
  "view_display eng in_class vw tpl vars rt =
     (case yaf_view_simple_render eng in_class vw tpl vars False rt of
        Inl e \<Rightarrow> Inl e
      | Inr (r, rt') \<Rightarrow> Inr (r \<noteq> None, rt'))"

definition view_eval ::
    "(string \<Rightarrow> php_rt \<Rightarrow> tpl_code option \<times> php_rt) \<Rightarrow> bool \<Rightarrow> yaf_view \<Rightarrow> zval \<Rightarrow> zval option
      \<Rightarrow> php_rt \<Rightarrow> mem_error + (zval \<times> php_rt)" where
  \<comment> \<open>the template is compiled from text; its failure is not reported\<close>
  "view_eval compile in_class vw tpl vars rt =
     (case tpl of
        ZString t \<Rightarrow>
          (case yaf_view_build_symtable in_class (ZArray (vw_vars vw)) vars of
             Inl e \<Rightarrow> Inl e
           | Inr tab \<Rightarrow>
               if t = [] then Inr (ZNull, rt)
               else (case compile (''?>'' @ cstr t) rt of
                       (None, rt) \<Rightarrow> Inr (ZNull, rt)
                     | (Some run, rt) \<Rightarrow>
                         (case yaf_view_exec_tpl run tab True rt of
                            (Some v, rt') \<Rightarrow> Inr (v, rt')
                          | (None, rt') \<Rightarrow> Inr (ZNull, rt'))))
      | _ \<Rightarrow> Inr (ZFalse, rt))"

section \<open>Facts\<close>

interpretation view_vars: store "\<lambda>vw. hwf (vw_vars vw)" "\<lambda>vw n. hfind (vw_vars vw) (KStr n)"
    yaf_view_simple_assign_single
  by unfold_locales (auto simp: yaf_view_simple_assign_single_def)

definition string_keys :: "zval htab \<Rightarrow> bool" where
  "string_keys h \<longleftrightarrow> (\<forall>(k, v) \<in> set h. \<exists>s. k = KStr s)"

lemma symtable_add_lookup:
  "string_keys h \<Longrightarrow> hwf h \<Longrightarrow> \<exists>tab'. symtable_add in_class h tab = Inr tab' \<and>
     (\<forall>n. hfind tab' (KStr n) =
        (case (if visible_name in_class n then hfind h (KStr n) else None) of
           Some v \<Rightarrow> Some v | None \<Rightarrow> hfind tab (KStr n)))"
proof (induction in_class h tab rule: symtable_add.induct)
  case (3 in_class m v h tab)
  have "hfind h (KStr m) = None" "hwf h" "string_keys h"
    using 3(2,3) by (auto simp: hwf_def hfind_def map_of_eq_None_iff string_keys_def)
  with 3(1) obtain tab' where "symtable_add in_class h (if visible_name in_class m then (KStr m, v) # tab else tab) = Inr tab'"
    and l: "\<And>n. hfind tab' (KStr n) = (case (if visible_name in_class n then hfind h (KStr n) else None) of
           Some v \<Rightarrow> Some v | None \<Rightarrow> hfind (if visible_name in_class m then (KStr m, v) # tab else tab) (KStr n))"
    by blast
  then show ?case
    using \<open>hfind h (KStr m) = None\<close> by (intro exI [of _ tab']) (auto split: option.split)
qed (auto simp: string_keys_def)

lemma case_option_id: "(case x of None \<Rightarrow> hfind [] k | Some v \<Rightarrow> Some v) = x"
  by (cases x) simp_all

lemma symtable_add_error:
  "\<not> string_keys h \<Longrightarrow> symtable_add in_class h tab = Inl NullDeref"
  by (induction in_class h tab rule: symtable_add.induct) (auto simp: string_keys_def)

section \<open>Properties\<close>

text \<open>
  C37: A template sees, under a valid variable name, the value passed to \<open>render\<close>, else the
  assigned one; \<open>GLOBALS\<close>, inside a class \<open>this\<close>, and every other name are not there.
\<close>

theorem view_symtable_lookup:
  assumes "string_keys assigned" "hwf assigned" "string_keys passed" "hwf passed"
  shows "\<exists>tab. yaf_view_build_symtable in_class (ZArray assigned) (Some (ZArray passed)) = Inr tab \<and>
    (\<forall>n. hfind tab (KStr n) =
       (if visible_name in_class n
        then (case hfind passed (KStr n) of Some v \<Rightarrow> Some v | None \<Rightarrow> hfind assigned (KStr n))
        else None))"
proof -
  obtain t1 where t1: "symtable_add in_class assigned [] = Inr t1"
    "\<And>n. hfind t1 (KStr n) = (if visible_name in_class n then hfind assigned (KStr n) else None)"
    using symtable_add_lookup [OF assms(1,2), of in_class "[]"] by (auto simp: case_option_id)
  obtain t2 where "symtable_add in_class passed t1 = Inr t2"
    "\<And>n. hfind t2 (KStr n) = (case (if visible_name in_class n then hfind passed (KStr n) else None) of
       Some v \<Rightarrow> Some v | None \<Rightarrow> hfind t1 (KStr n))"
    using symtable_add_lookup [OF assms(3,4), of in_class t1] by auto
  then show ?thesis
    by (intro exI [of _ t2]) (auto simp: yaf_view_build_symtable_def t1 split: option.split)
qed

lemma view_symtable_lookup_witness:
  "\<exists>tab. yaf_view_build_symtable True (ZArray [(KStr ''a'', ZTrue), (KStr ''this'', ZTrue)])
      (Some (ZArray [(KStr ''a'', ZFalse)])) = Inr tab \<and>
    hfind tab (KStr ''a'') = Some ZFalse \<and> hfind tab (KStr ''this'') = None"
proof -
  have "visible_name True ''a''" "\<not> visible_name True ''this''" by code_simp+
  moreover obtain tab where "yaf_view_build_symtable True (ZArray [(KStr ''a'', ZTrue), (KStr ''this'', ZTrue)])
      (Some (ZArray [(KStr ''a'', ZFalse)])) = Inr tab"
    "\<forall>n. hfind tab (KStr n) = (if visible_name True n
       then (case hfind [(KStr ''a'', ZFalse)] (KStr n) of Some v \<Rightarrow> Some v
             | None \<Rightarrow> hfind [(KStr ''a'', ZTrue), (KStr ''this'', ZTrue)] (KStr n)) else None)"
    using view_symtable_lookup [of "[(KStr ''a'', ZTrue), (KStr ''this'', ZTrue)]" "[(KStr ''a'', ZFalse)]" True]
    by (auto simp: string_keys_def hwf_def)
  ultimately show ?thesis by (intro exI [of _ tab]) simp
qed

definition code_appends :: "tpl_code \<Rightarrow> bool" where
  \<comment> \<open>only adds to the output, the same text whatever stands before\<close>
  "code_appends run \<longleftrightarrow> (\<forall>tab rt out.
     rt_output (run tab rt) = rt_output rt @ rt_output (run tab (rt\<lparr>rt_output := []\<rparr>)) \<and>
     (run tab (rt\<lparr>rt_output := out\<rparr>))\<lparr>rt_output := []\<rparr> = (run tab rt)\<lparr>rt_output := []\<rparr>)"

definition tpl_appends :: "tpl_engine \<Rightarrow> bool" where
  \<comment> \<open>compiling writes nothing, and templates append\<close>
  "tpl_appends eng \<longleftrightarrow> (\<forall>s rt c rt'. tpl_compile eng s rt = (c, rt') \<longrightarrow>
     rt_output rt' = rt_output rt \<and> (case cp_run c of Some run \<Rightarrow> code_appends run | None \<Rightarrow> True))"

lemma exec_tpl_appends:
  assumes "code_appends run" "yaf_view_exec_tpl run tab True rt = (Some v, rt')"
  shows "\<exists>s. v = ZString s \<and> rt_output rt' = rt_output rt \<and>
    yaf_view_exec_tpl run tab False rt = (Some ZTrue, rt'\<lparr>rt_output := rt_output rt @ s\<rparr>)"
proof -
  define r0 where "r0 = run tab (rt\<lparr>rt_output := []\<rparr>)"
  define r1 where "r1 = run tab rt"
  have e: "rt_exception r0 = None" "v = ZString (rt_output r0)" "rt' = r0\<lparr>rt_output := rt_output rt\<rparr>"
    using assms(2) by (auto simp: yaf_view_exec_tpl_def Let_def r0_def split: if_splits)
  have a: "rt_output r1 = rt_output rt @ rt_output r0" "r0\<lparr>rt_output := []\<rparr> = r1\<lparr>rt_output := []\<rparr>"
    using assms(1) unfolding code_appends_def r0_def r1_def by blast+
  have "r1 = r0\<lparr>rt_output := rt_output rt @ rt_output r0\<rparr>"
    using a by (metis (no_types, lifting) php_rt.surjective php_rt.update_convs(5) php_rt.ext_inject a(1) php_rt.simps)
  with e show ?thesis by (simp add: yaf_view_exec_tpl_def r1_def)
qed

text \<open>
  C38: Rendering into a string leaves the output alone, and for a template that only appends
  to the output, displaying writes exactly the text rendering returns.
\<close>

theorem view_render_display:
  assumes "tpl_appends eng" "view_render eng in_class vw tpl vars rt = Inr (ZString s, rt')"
  shows "rt_output rt' = rt_output rt \<and>
    view_display eng in_class vw tpl vars rt = Inr (True, rt'\<lparr>rt_output := rt_output rt @ s\<rparr>)"
proof -
  obtain t tab script c r2 run where r: "tpl = ZString t"
    "yaf_view_build_symtable in_class (ZArray (vw_vars vw)) vars = Inr tab"
    "tpl_script (rt_g rt) vw t = Some script" "tpl_realpath eng (cstr script) rt"
    "tpl_compile eng (cstr script) rt = (c, r2)" "cp_run c = Some run"
    "yaf_view_exec_tpl run tab True (note_opened script c r2) = (Some (ZString s), rt')"
    using assms(2) by (auto simp: view_render_def yaf_view_simple_render_def yaf_view_render_tpl_def Let_def
        split: zval.splits sum.splits option.splits prod.splits if_splits)
  moreover from r(5,6) assms(1) have "rt_output r2 = rt_output rt" "code_appends run"
    unfolding tpl_appends_def by fastforce+
  ultimately show ?thesis
    using exec_tpl_appends [OF _ r(7)]
    by (simp add: view_display_def yaf_view_simple_render_def yaf_view_render_tpl_def)
qed

lemma view_render_display_witness:
  "view_display \<lparr>tpl_realpath = (\<lambda>_ _. True), tpl_compile = (\<lambda>_ rt.
       (\<lparr>cp_run = Some (\<lambda>_ rt. rt\<lparr>rt_output := rt_output rt @ ''hi''\<rparr>), cp_handle = True, cp_opened = None\<rparr>, rt))\<rparr>
     True \<lparr>vw_vars = [], vw_dir = ZString ''/v'', vw_opts = ZNull\<rparr> (ZString ''a.phtml'') None sample_rt =
   Inr (True, sample_rt\<lparr>rt_included := [''/v/a.phtml''], rt_output := ''hi''\<rparr>)"
proof -
  let ?eng = "\<lparr>tpl_realpath = (\<lambda>_ _. True), tpl_compile = (\<lambda>_ rt.
       (\<lparr>cp_run = Some (\<lambda>_ rt. rt\<lparr>rt_output := rt_output rt @ ''hi''\<rparr>), cp_handle = True, cp_opened = None\<rparr>, rt))\<rparr>"
  let ?vw = "\<lparr>vw_vars = [], vw_dir = ZString ''/v'', vw_opts = ZNull\<rparr>"
  have "tpl_appends ?eng" by (simp add: tpl_appends_def code_appends_def)
  moreover have "cstr ''/v'' @ SLASH # cstr ''a.phtml'' = ''/v/a.phtml''" "\<not> is_absolute_path ''a.phtml''"
    by code_simp+
  then have "view_render ?eng True ?vw (ZString ''a.phtml'') None sample_rt
      = Inr (ZString ''hi'', sample_rt\<lparr>rt_included := [''/v/a.phtml'']\<rparr>)"
    by (simp add: view_render_def yaf_view_simple_render_def yaf_view_build_symtable_def tpl_script_def
        yaf_view_render_tpl_def yaf_view_exec_tpl_def note_opened_def add_included_def sample_rt_def)
  ultimately show ?thesis
    using view_render_display [of ?eng True ?vw "ZString ''a.phtml''" None sample_rt "''hi''"
        "sample_rt\<lparr>rt_included := [''/v/a.phtml'']\<rparr>"]
    by (simp add: sample_rt_def)
qed

end
