(* ===== verification/Yaf_Controller.thy ===== *)
theory Yaf_Controller
  imports Yaf_Request Yaf_Response Yaf_View
begin

text \<open>
  The base class of controllers and actions (\<open>yaf_controller.c\<close>): the name of the template of
  an action, rendering through the view, forwarding to another action, and the access to the
  view path and the invocation arguments.
\<close>

section \<open>The controller\<close>

record yaf_controller =
  ct_name :: zval
  ct_module :: zval
  ct_args :: zval

definition underscores_to_slashes :: "string \<Rightarrow> string" where
  "underscores_to_slashes s = map (\<lambda>c. if c = CHR ''_'' then SLASH else c) s"

definition controller_template :: "yaf_globals \<Rightarrow> string \<Rightarrow> string \<Rightarrow> string" where
  \<comment> \<open>the path \<open>render\<close> and \<open>display\<close> ask the view for; the parts are printed as C strings\<close>
  "controller_template g name action =
     underscores_to_slashes (cstr (zend_str_tolower name)) @ SLASH #
     underscores_to_slashes (cstr action) @ CHR ''.'' # cstr (g_view_ext g)"

type_synonym view_call = "zval \<Rightarrow> zval option \<Rightarrow> php_rt \<Rightarrow> zval \<times> php_rt"

definition yaf_controller_render ::
    "view_call \<Rightarrow> yaf_controller \<Rightarrow> string \<Rightarrow> zval option \<Rightarrow> php_rt \<Rightarrow> mem_error + (string option \<times> php_rt)" where
  \<comment> \<open>\<open>render\<close> of the view is a parameter, as the view may be the user's; its undefined result
      is the one of a call that threw\<close>
  "yaf_controller_render vrender c action vars rt =
     (case ct_name c of
        ZString name \<Rightarrow>
          (case vrender (ZString (controller_template (rt_g rt) name action)) vars rt of
             (ZString s, rt') \<Rightarrow> if rt_exception rt' \<noteq> None then Inr (None, rt') else Inr (Some s, rt')
           | (_, rt') \<Rightarrow> Inr (None, rt'))
      | _ \<Rightarrow> Inl WildRead)"

definition yaf_controller_display ::
    "view_call \<Rightarrow> yaf_controller \<Rightarrow> string \<Rightarrow> zval option \<Rightarrow> php_rt \<Rightarrow> mem_error + (bool \<times> php_rt)" where
  "yaf_controller_display vdisplay c action vars rt =
     (case ct_name c of
        ZString name \<Rightarrow>
          (let (ret, rt') = vdisplay (ZString (controller_template (rt_g rt) name action)) vars rt
           in Inr (ret \<noteq> ZUndef \<and> rt_exception rt' = None \<and> ret \<noteq> ZFalse, rt'))
      | _ \<Rightarrow> Inl WildRead)"

section \<open>Forwarding\<close>

datatype forward_args =
    Forward1 zval
  | Forward2 zval zval
  | Forward3 zval zval zval
  | Forward4 zval zval zval zval

definition add_params :: "zval htab \<Rightarrow> yaf_request \<Rightarrow> yaf_request" where
  "add_params h rq = rq\<lparr>rq_params := hcopy (rq_params rq) h\<rparr>"

definition forward_update :: "forward_args \<Rightarrow> yaf_request \<Rightarrow> yaf_request option" where
  \<comment> \<open>what the arguments mean depends on how many there are and on the type of the last one\<close>
  "forward_update args rq =
     (case args of
        Forward1 a \<Rightarrow> if is_string a then Some (rq\<lparr>rq_action := a\<rparr>) else None
      | Forward2 x y \<Rightarrow>
          (case y of
             ZString _ \<Rightarrow> Some (rq\<lparr>rq_controller := x, rq_action := y\<rparr>)
           | ZArray h \<Rightarrow> Some ((add_params h rq)\<lparr>rq_action := x\<rparr>)
           | _ \<Rightarrow> None)
      | Forward3 x y z \<Rightarrow>
          (case z of
             ZString _ \<Rightarrow> Some (rq\<lparr>rq_module := x, rq_controller := y, rq_action := z\<rparr>)
           | ZArray h \<Rightarrow> Some ((add_params h rq)\<lparr>rq_controller := x, rq_action := y\<rparr>)
           | _ \<Rightarrow> None)
      | Forward4 m c a p \<Rightarrow>
          (case p of
             ZArray h \<Rightarrow> Some ((add_params h rq)\<lparr>rq_module := m, rq_controller := c, rq_action := a\<rparr>)
           | _ \<Rightarrow> None))"

definition forward_warning :: "forward_args \<Rightarrow> php_rt \<Rightarrow> php_rt" where
  "forward_warning args rt =
     (case args of
        Forward1 _ \<Rightarrow> php_error_docref (EWarning ''Expect a string action name'') rt
      | Forward4 _ _ _ _ \<Rightarrow> php_error_docref (EWarning ''Parameters must be an array'') rt
      | _ \<Rightarrow> rt)"

definition controller_forward :: "forward_args \<Rightarrow> yaf_request \<times> php_rt \<Rightarrow> bool \<times> yaf_request \<times> php_rt" where
  "controller_forward args = (\<lambda>(rq, rt).
     case forward_update args rq of
       Some rq' \<Rightarrow> (True, yaf_request_set_dispatched False rq', rt)
     | None \<Rightarrow> (False, rq, forward_warning args rt))"

section \<open>The view path and the arguments\<close>

definition controller_setViewpath :: "zval \<Rightarrow> yaf_view \<Rightarrow> bool \<times> yaf_view" where
  \<comment> \<open>for the built-in view; unlike its own \<open>setScriptPath\<close>, a relative path is taken\<close>
  "controller_setViewpath path vw =
     (if \<not> is_string path then (False, vw) else (True, vw\<lparr>vw_dir := path\<rparr>))"

definition controller_getViewpath :: "yaf_globals \<Rightarrow> yaf_view \<Rightarrow> zval" where
  "controller_getViewpath g vw =
     (if \<not> is_string (vw_dir vw) \<and> g_view_directory g \<noteq> None
      then ZString (the (g_view_directory g)) else vw_dir vw)"

definition controller_getInvokeArg :: "yaf_controller \<Rightarrow> string \<Rightarrow> mem_error + zval" where
  "controller_getInvokeArg c name =
     (case ct_args c of
        ZNull \<Rightarrow> Inr ZNull
      | ZArray h \<Rightarrow> Inr (case hfind h (KStr name) of Some v \<Rightarrow> v | None \<Rightarrow> ZNull)
      | _ \<Rightarrow> Inl WildRead)"

definition controller_redirect :: "header_op \<Rightarrow> string \<Rightarrow> sapi_out \<times> php_rt \<Rightarrow> bool \<times> sapi_out \<times> php_rt" where
  \<comment> \<open>true whatever the server says\<close>
  "controller_redirect op location s = (True, snd (yaf_response_set_redirect op location s))"

section \<open>Properties\<close>

lemma viewpath_same: "controller_getViewpath g vw = view_getScriptPath g vw"
  by (auto simp: controller_getViewpath_def view_getScriptPath_def split: option.split)

text \<open>
  A forward that is accepted clears the dispatched flag and sets names and parameters
  only, a refused one changes nothing in the request; it is refused exactly if its last
  argument has no type the number of arguments allows.
\<close>

lemma controller_forward_effect:
  "(case controller_forward args (rq, rt) of (ok, rq', rt') \<Rightarrow>
      (if ok then \<not> rq_dispatched rq' \<and> rt' = rt \<and>
         rq_uri rq' = rq_uri rq \<and> rq_base_uri rq' = rq_base_uri rq \<and> rq_routed rq' = rq_routed rq \<and>
         rq_method rq' = rq_method rq
       else rq' = rq) \<and>
      ok = (case args of
              Forward1 a \<Rightarrow> is_string a
            | Forward2 _ y \<Rightarrow> is_string y \<or> is_array y
            | Forward3 _ _ z \<Rightarrow> is_string z \<or> is_array z
            | Forward4 _ _ _ p \<Rightarrow> is_array p))"
  by (auto simp: controller_forward_def forward_update_def yaf_request_set_dispatched_def add_params_def
      split: forward_args.split zval.split)

text \<open>
  Forwarding with an array merges it into the parameters of the request: a key of the
  array has its value from it, every other parameter stays.
\<close>

theorem controller_forward_params:
  assumes "hwf h" "args \<in> {Forward2 x (ZArray h), Forward3 x y (ZArray h), Forward4 x y z (ZArray h)}"
  shows "\<exists>rq' rt'. controller_forward args (rq, rt) = (True, rq', rt') \<and>
    yaf_request_get_param rq' k =
      (case hfind h (KStr k) of Some v \<Rightarrow> Some v | None \<Rightarrow> yaf_request_get_param rq k)"
  using assms by (auto simp: controller_forward_def forward_update_def yaf_request_set_dispatched_def
      add_params_def yaf_request_get_param_def hfind_hcopy split: option.split)

lemma controller_forward_params_witness:
  "\<exists>rq' rt'. controller_forward (Forward2 (ZString ''list'') (ZArray [(KStr ''id'', ZLong 7)]))
     (yaf_request_init, sample_rt) = (True, rq', rt') \<and> yaf_request_get_param rq' ''id'' = Some (ZLong 7)"
  using controller_forward_params [of "[(KStr ''id'', ZLong 7)]"
      "Forward2 (ZString ''list'') (ZArray [(KStr ''id'', ZLong 7)])" "ZString ''list''" ZNull ZNull
      yaf_request_init sample_rt "''id''"]
  by (simp add: hwf_def)

text \<open>
  The template of an action is the controller's name in lower case and the action's name,
  with every underscore as a slash, and the extension of the views; it depends on the case of
  the action's name but not on that of the controller's.
\<close>

theorem controller_template_text:
  assumes "NUL \<notin> set name" "NUL \<notin> set action" "NUL \<notin> set (g_view_ext g)"
  shows "controller_template g name action =
      map (\<lambda>c. if c = CHR ''_'' then SLASH else c) (zend_str_tolower name @ SLASH # action) @ CHR ''.'' # g_view_ext g \<and>
    controller_template g (zend_str_tolower name) action = controller_template g name action"
proof -
  have "NUL \<notin> set (zend_str_tolower name)"
    using assms(1) by (auto simp: zend_str_tolower_def)
  then show ?thesis
    using assms by (simp add: controller_template_def underscores_to_slashes_def)
qed

lemma controller_template_text_witness:
  "controller_template (yaf_rinit yaf_ginit) ''Admin_User'' ''list'' = ''admin/user/list.phtml''"
proof -
  have "zend_str_tolower ''Admin_User'' = ''admin_user''" by code_simp
  then show ?thesis
    using controller_template_text [of "''Admin_User''" "''list''" "yaf_rinit yaf_ginit"]
    by (simp add: yaf_rinit_def)
qed

end
