(* ===== verification/Yaf_Loader.thy ===== *)
theory Yaf_Loader
  imports Yaf_Runtime
begin

text \<open>
  The class loader (\<open>yaf_loader.c\<close>): the kinds of class names, the local namespaces, the path
  of a class, and the autoload function.  Opening, compiling and running a file
  (\<open>yaf_loader_import\<close>) is the parameter \<open>import\<close>: it says whether the file could be opened
  and compiled, and gives the state after it ran.  The search through the local namespaces
  is a partial function, \<^const>\<open>None\<close> being a search that does not return.
\<close>

type_synonym import_fn = "string \<Rightarrow> php_rt \<Rightarrow> bool \<times> php_rt"

section \<open>Kinds of class names\<close>

definition yaf_loader_is_category :: "yaf_globals \<Rightarrow> string \<Rightarrow> string \<Rightarrow> mem_error + bool" where
  \<comment> \<open>with a suffix, the separator is looked for before the category, even if no byte is left
      for it there\<close>
  "yaf_loader_is_category g cls category =
     (let sep = g_name_separator g
      in if g_name_suffix g then
           (if length cls > length category \<and> strncmp0 (drop (length cls - length category) cls) category (length category)
            then (if sep = [] then Inr True
                  else if length cls < length category + length sep then Inl OutOfBounds
                  else Inr (strncmp0 (drop (length cls - length category - length sep) cls) sep (length sep)))
            else Inr False)
         else Inr (strncmp0 cls category (length category) \<and>
                   (sep = [] \<or> strncmp0 (drop (length category) cls) sep (length sep))))"

section \<open>Local namespaces\<close>

definition ns_prefix :: "string \<Rightarrow> string" where
  \<comment> \<open>the part of the class name before the first underscore, else before the first backslash\<close>
  "ns_prefix cls =
     (case strstr cls ''_'' of
        Some i \<Rightarrow> take i cls
      | None \<Rightarrow> (case strstr cls [CHR 0x5C] of Some i \<Rightarrow> take i cls | None \<Rightarrow> cls))"

definition ns_end :: "string \<Rightarrow> bool" where
  \<comment> \<open>a path separator or the terminator\<close>
  "ns_end s \<longleftrightarrow> chd s = CHR '':'' \<or> chd s = NUL"

text \<open>
  The loop keeps the byte before \<open>ns\<close>: NUL at the start, where the byte before the text of
  a \<open>zend_string\<close> is the high byte of its length.
\<close>

partial_function (option) ns_loop :: "string \<Rightarrow> char \<Rightarrow> string \<Rightarrow> bool option" where
  "ns_loop pre prev ns =
     (case strstr ns pre of
        None \<Rightarrow> Some False
      | Some i \<Rightarrow>
          (let rest = drop (i + length pre) ns;
               before = (if i = 0 then prev else ns ! (i - 1));
               prev' = (if pre = [] then before else last pre)
           in if i = 0 \<and> ns_end rest then Some True
              else if before = CHR '':'' \<and> ns_end rest then Some True
              else ns_loop pre prev' rest))"

declare ns_loop.simps [code]

definition yaf_loader_is_local_namespace :: "yaf_globals \<Rightarrow> string \<Rightarrow> bool option" where
  "yaf_loader_is_local_namespace g cls =
     (case g_local_namespaces g of
        None \<Rightarrow> Some False
      | Some ns \<Rightarrow> ns_loop (ns_prefix (cstr cls)) NUL (cstr ns))"

definition yaf_loader_register_namespace_single :: "string \<Rightarrow> yaf_globals \<Rightarrow> yaf_globals" where
  "yaf_loader_register_namespace_single p g =
     g\<lparr>g_local_namespaces := Some (case g_local_namespaces g of
          Some ns \<Rightarrow> ns @ CHR '':'' # p
        | None \<Rightarrow> p)\<rparr>"

fun yaf_loader_register_namespace_multi :: "zval htab \<Rightarrow> yaf_globals \<Rightarrow> yaf_globals" where
  "yaf_loader_register_namespace_multi [] g = g"
| "yaf_loader_register_namespace_multi ((_, v) # h) g =
     yaf_loader_register_namespace_multi h
       (case v of ZString s \<Rightarrow> yaf_loader_register_namespace_single s g | _ \<Rightarrow> g)"

definition loader_registerLocalNamespace :: "zval \<Rightarrow> php_rt \<Rightarrow> bool \<times> php_rt" where
  "loader_registerLocalNamespace v rt =
     (case v of
        ZString s \<Rightarrow> (True, rt\<lparr>rt_g := yaf_loader_register_namespace_single s (rt_g rt)\<rparr>)
      | ZArray h \<Rightarrow> (True, rt\<lparr>rt_g := yaf_loader_register_namespace_multi h (rt_g rt)\<rparr>)
      | _ \<Rightarrow> (False, php_error_docref (EWarning ''Invalid parameters provided, must be a string, or an array'') rt))"

definition loader_clearLocalNamespace :: "yaf_globals \<Rightarrow> mem_error + yaf_globals" where
  \<comment> \<open>the string is released without a test for the null pointer\<close>
  "loader_clearLocalNamespace g =
     (case g_local_namespaces g of
        None \<Rightarrow> Inl NullDeref
      | Some _ \<Rightarrow> Inr (g\<lparr>g_local_namespaces := None\<rparr>))"

section \<open>The loader\<close>

record yaf_loader =
  ld_library :: string
  ld_global :: string

definition yaf_loader_instance ::
    "yaf_loader option \<Rightarrow> string option \<Rightarrow> string option \<Rightarrow> php_rt \<Rightarrow> yaf_loader option \<times> php_rt" where
  \<comment> \<open>the first argument is the static instance, the result the new one; registering the
      autoload function with SPL is not part of it\<close>
  "yaf_loader_instance inst library_path global_path rt =
     (case inst of
        Some l \<Rightarrow>
          (Some (l\<lparr>ld_library := (case library_path of Some p \<Rightarrow> p | None \<Rightarrow> ld_library l),
                   ld_global := (case global_path of Some p \<Rightarrow> p | None \<Rightarrow> ld_global l)\<rparr>), rt)
      | None \<Rightarrow>
          (case (library_path, global_path) of
             (None, None) \<Rightarrow> (None, php_error_docref (EWarning ''Missed library directory arguments'') rt)
           | (Some l, Some g) \<Rightarrow> (Some \<lparr>ld_library = l, ld_global = g\<rparr>, rt)
           | (Some l, None) \<Rightarrow> (Some \<lparr>ld_library = l, ld_global = l\<rparr>, rt)
           | (None, Some g) \<Rightarrow> (Some \<lparr>ld_library = g, ld_global = g\<rparr>, rt)))"

definition loader_setLibraryPath :: "string \<Rightarrow> bool \<Rightarrow> yaf_loader \<Rightarrow> yaf_loader" where
  "loader_setLibraryPath library global l =
     (if \<not> global then l\<lparr>ld_library := library\<rparr> else l\<lparr>ld_global := library\<rparr>)"

definition loader_getLibraryPath :: "bool \<Rightarrow> yaf_loader \<Rightarrow> string" where
  "loader_getLibraryPath global l = (if \<not> global then ld_library l else ld_global l)"

section \<open>The path of a class\<close>

function autoload_dirs :: "nat \<Rightarrow> string \<Rightarrow> string \<Rightarrow> string \<times> string" where
  \<comment> \<open>\<open>skip\<close> bytes from \<open>p\<close> on are not looked at; the buffer and what is left at \<open>p\<close>\<close>
  "autoload_dirs skip p buf =
     (case dropWhile (\<lambda>c. c \<noteq> CHR ''_'') (drop skip p) of
        [] \<Rightarrow> (buf, p)
      | _ # p' \<Rightarrow>
          autoload_dirs 0 p' (buf @ take skip p @ takeWhile (\<lambda>c. c \<noteq> CHR ''_'') (drop skip p) @ [SLASH]))"
  by pat_completeness auto
termination
proof (relation "measure (\<lambda>(skip, p, buf). length p)", goal_cases)
  case 1
  then show ?case by simp
next
  case (2 skip p buf c p')
  then have "length (c # p') \<le> length (drop skip p)"
    by (metis length_dropWhile_le)
  then show ?case by simp
qed

declare autoload_dirs.simps [simp del]

definition autoload_path :: "yaf_globals \<Rightarrow> string \<Rightarrow> string \<Rightarrow> mem_error + string" where
  \<comment> \<open>the first step of the scan is past the terminator of an empty name\<close>
  "autoload_path g dir file_name =
     (if file_name = [] then Inl OutOfBounds
      else (let (dirs, base) = autoload_dirs 1 file_name [SLASH];
                dirs = (if g_lowcase_path g then zend_str_tolower dirs else dirs)
            in Inr (dir @ dirs @ base @ ''.'' @ g_ext g)))"

definition autoload_from ::
    "import_fn \<Rightarrow> string \<Rightarrow> string \<Rightarrow> php_rt \<Rightarrow> mem_error + (bool \<times> string \<times> php_rt)" where
  \<comment> \<open>the part behind the choice of the directory: the path is built and the file is run\<close>
  "autoload_from import file_name dir rt =
     (case autoload_path (rt_g rt) dir (cstr file_name) of
        Inl e \<Rightarrow> Inl e
      | Inr path \<Rightarrow> (let (status, rt') = import path rt in Inr (status, path, rt')))"

definition yaf_internal_autoload ::
    "import_fn \<Rightarrow> yaf_loader option \<Rightarrow> string \<Rightarrow> string option \<Rightarrow> php_rt
      \<Rightarrow> (mem_error + (bool \<times> string option \<times> php_rt)) option" where
  \<comment> \<open>the answer, the new \<open>*directory\<close> and the state; without a directory the library paths
      of the loader are used\<close>
  "yaf_internal_autoload import inst file_name directory rt =
     (let go = (\<lambda>dir. case autoload_from import file_name dir rt of
                   Inl e \<Rightarrow> Inl e
                 | Inr (status, path, rt') \<Rightarrow> Inr (status, Some path, rt'))
      in case directory of
           Some dir \<Rightarrow> Some (go dir)
         | None \<Rightarrow>
             (case yaf_loader_instance inst None None rt of
                (None, rt') \<Rightarrow>
                  Some (Inr (False, None, php_error_docref (EWarning ''Yaf_Loader need to be initialize first'') rt'))
              | (Some l, _) \<Rightarrow>
                  map_option (\<lambda>local. go (if local then ld_library l else ld_global l))
                    (yaf_loader_is_local_namespace (rt_g rt) file_name)))"

definition loader_import ::
    "import_fn \<Rightarrow> yaf_loader option \<Rightarrow> string \<Rightarrow> php_rt \<Rightarrow> bool \<times> php_rt" where
  "loader_import import inst file rt =
     (if file = [] then (False, rt)
      else
        (let run = (\<lambda>file. if file \<in> set (rt_included rt) then (True, rt) else import file rt)
         in if chd file = SLASH then run file
            else case inst of
                   None \<Rightarrow>
                     (False, php_error_docref (EWarning ''Yaf_Loader need to be initialize first'')
                       (php_error_docref (EWarning ''Missed library directory arguments'') rt))
                 | Some l \<Rightarrow> run (cstr (ld_library l) @ SLASH # cstr file)))"

section \<open>Autoloading\<close>

definition underscored :: "string \<Rightarrow> string" where
  \<comment> \<open>every backslash up to the terminator becomes an underscore\<close>
  "underscored cls =
     (if CHR 0x5C \<in> set (cstr cls)
      then map (\<lambda>c. if c = CHR 0x5C then CHR ''_'' else c) (cstr cls) @ drop (length (cstr cls)) cls
      else cls)"

datatype class_kind = MvcClass string string | LibraryClass string "string option" | BadName mem_error

definition category_file :: "yaf_globals \<Rightarrow> string \<Rightarrow> string \<Rightarrow> string" where
  "category_file g cls category =
     (if g_name_suffix g then take (length cls - length (g_name_separator g) - length category) cls
      else drop (length category + length (g_name_separator g)) cls)"

fun find_category :: "yaf_globals \<Rightarrow> string \<Rightarrow> (string \<times> string) list \<Rightarrow> class_kind option" where
  "find_category g cls [] = None"
| "find_category g cls ((category, dir) # cats) =
     (case yaf_loader_is_category g cls category of
        Inl e \<Rightarrow> Some (BadName e)
      | Inr True \<Rightarrow> Some (MvcClass dir (category_file g cls category))
      | Inr False \<Rightarrow> find_category g cls cats)"

definition autoload_kind :: "yaf_globals \<Rightarrow> string \<Rightarrow> class_kind" where
  "autoload_kind g cls =
     (case find_category g cls [(''Model'', ''models''), (''Plugin'', ''plugins''), (''Controller'', ''controllers'')] of
        Some k \<Rightarrow> k
      | None \<Rightarrow>
          LibraryClass cls
            (if g_st_compatible g \<and> (strncmp0 cls ''Dao_'' 4 \<or> strncmp0 cls ''Service_'' 8)
             then Some ''models'' else None))"

definition reserved_warning :: "string \<Rightarrow> php_rt \<Rightarrow> php_rt" where
  "reserved_warning cls rt =
     (if strncmp0 cls ''Yaf_'' 3
      then php_error_docref (EWarning ''You should not use 'Yaf_' as class name prefix'') rt else rt)"

definition class_exists :: "php_rt \<Rightarrow> string \<Rightarrow> bool" where
  "class_exists rt cls \<longleftrightarrow> class_find rt (zend_str_tolower cls) \<noteq> None"

definition autoload_run ::
    "import_fn \<Rightarrow> yaf_loader option \<Rightarrow> string \<Rightarrow> string \<Rightarrow> string \<Rightarrow> string option \<Rightarrow> php_rt
      \<Rightarrow> (mem_error + (bool \<times> php_rt)) option" where
  \<comment> \<open>the file is loaded and must bring the class; what is reported if not depends on
      \<open>yaf.use_spl_autoload\<close>\<close>
  "autoload_run import inst origin cls file directory rt =
     map_option (\<lambda>r. case r of
         Inl e \<Rightarrow> Inl e
       | Inr (ok, path, rt') \<Rightarrow>
           (let found = ok \<and> class_exists rt' origin;
                path = (case path of Some p \<Rightarrow> p | None \<Rightarrow> ''(null)'')
            in if g_use_spl_autoload (rt_g rt) then Inr (found, rt')
               else if found then Inr (True, rt')
               else if ok then Inr (True, php_error_docref
                      (EStrict (''Could not find class '' @ cls @ '' in '' @ path)) rt')
               else Inr (True, php_error_docref
                      (EWarning (''Failed opening script '' @ path @ '': '' @ rt_errno rt')) rt')))
       (yaf_internal_autoload import inst file directory rt)"

definition loader_autoload ::
    "import_fn \<Rightarrow> yaf_loader option \<Rightarrow> string \<Rightarrow> php_rt \<Rightarrow> (mem_error + (bool \<times> php_rt)) option" where
  "loader_autoload import inst class_name rt =
     (if class_name = [] then
        (case inst of
           None \<Rightarrow> autoload_run import inst [] [] [] None rt
         | Some _ \<Rightarrow> Some (Inl NullDeref))
      else
        (let cls = underscored class_name; rt = reserved_warning cls rt;
             mvc = (\<lambda>file dir. case g_directory (rt_g rt) of
                 None \<Rightarrow> Some (Inr (False, php_error_docref
                   (EWarning ''Couldn't load a MVC class unless an Yaf_Application is initialized'') rt))
               | Some app \<Rightarrow> autoload_run import inst class_name cls file (Some (cstr app @ SLASH # dir)) rt)
         in case autoload_kind (rt_g rt) cls of
              BadName e \<Rightarrow> Some (Inl e)
            | MvcClass dir file \<Rightarrow> mvc file dir
            | LibraryClass file (Some dir) \<Rightarrow> mvc file dir
            | LibraryClass file None \<Rightarrow> autoload_run import inst class_name cls file None rt))"

section \<open>Facts\<close>

subsection \<open>The path\<close>

definition path_char :: "char \<Rightarrow> char" where
  "path_char c = (if c = CHR ''_'' then SLASH else c)"

lemma map_path_char: "CHR ''_'' \<notin> set s \<Longrightarrow> map path_char s = s"
  by (induction s) (auto simp: path_char_def)

lemma autoload_dirs_none: "CHR ''_'' \<notin> set (drop skip p) \<Longrightarrow> autoload_dirs skip p buf = (buf, p)"
proof -
  assume "CHR ''_'' \<notin> set (drop skip p)"
  then have "dropWhile (\<lambda>c. c \<noteq> CHR ''_'') (drop skip p) = []" by (auto simp: dropWhile_eq_Nil_conv)
  then show ?thesis by (simp only: autoload_dirs.simps [of skip p buf] list.case)
qed

lemma autoload_dirs_last:
  assumes "CHR ''_'' \<notin> set base"
  shows "drop skip p = dirs @ CHR ''_'' # base \<Longrightarrow>
    autoload_dirs skip p buf = (buf @ take skip p @ map path_char dirs @ [SLASH], base)"
proof (induction skip p buf arbitrary: dirs rule: autoload_dirs.induct)
  case (1 skip p buf)
  let ?d = "takeWhile (\<lambda>c. c \<noteq> CHR ''_'') dirs"
  show ?case
  proof (cases "CHR ''_'' \<in> set dirs")
    case False
    then have "dropWhile (\<lambda>c. c \<noteq> CHR ''_'') (drop skip p) = CHR ''_'' # base"
      "takeWhile (\<lambda>c. c \<noteq> CHR ''_'') (drop skip p) = dirs"
      by (auto simp: 1(2) takeWhile_append dropWhile_append)
    moreover have "map path_char dirs = dirs" using False by (simp add: map_path_char)
    ultimately show ?thesis
      using autoload_dirs_none [of 0 base] assms by (simp add: autoload_dirs.simps [of skip p buf])
  next
    case True
    then obtain d1 d2 where d: "dirs = d1 @ CHR ''_'' # d2" "CHR ''_'' \<notin> set d1"
      by (meson split_list_first)
    have split: "dropWhile (\<lambda>c. c \<noteq> CHR ''_'') (drop skip p) = CHR ''_'' # d2 @ CHR ''_'' # base"
      "takeWhile (\<lambda>c. c \<noteq> CHR ''_'') (drop skip p) = d1"
      using d by (auto simp: 1(2) takeWhile_append dropWhile_append)
    moreover have "map path_char d1 = d1" "path_char (CHR ''_'') = SLASH"
      using d(2) by (simp_all add: map_path_char path_char_def)
    ultimately show ?thesis
      using 1(1) [OF split(1), of d2] by (simp add: autoload_dirs.simps [of skip p buf] d(1))
  qed
qed

lemma tolower_slash: "zend_str_tolower [SLASH] = [SLASH]"
  by code_simp

subsection \<open>The search through the local namespaces\<close>

lemma ns_loop_returns: "pre \<noteq> [] \<Longrightarrow> \<exists>b. ns_loop pre prev ns = Some b"
proof (induction "length ns" arbitrary: prev ns rule: less_induct)
  case less
  show ?case
  proof (cases "strstr ns pre")
    case None
    then show ?thesis
      by (intro exI [of _ False]) (simp add: ns_loop.simps [of pre prev ns])
  next
    case (Some i)
    then have "i + length pre \<le> length ns"
      by (auto dest: strstr_Some_prefix)
    with less.prems have "length (drop (i + length pre) ns) < length ns"
      by (cases pre) auto
    note ih = less.hyps [OF this less.prems]
    have "ns_loop pre prev ns = Some True \<or>
        (\<exists>p. ns_loop pre prev ns = ns_loop pre p (drop (i + length pre) ns))"
      using Some by (simp only: ns_loop.simps [of pre prev ns] Let_def option.case) auto
    with ih show ?thesis by metis
  qed
qed

lemma ns_loop_component:
  assumes "pre \<noteq> []" "CHR '':'' \<notin> set pre"
  shows "ns = a @ pre @ b \<Longrightarrow> a = [] \<or> last a = CHR '':'' \<Longrightarrow> ns_end b \<Longrightarrow> ns_loop pre prev ns = Some True"
proof (induction "length ns" arbitrary: prev ns a rule: less_induct)
  case less
  have "prefix pre (drop (length a) ns)" by (simp add: less.prems)
  then obtain i where i: "strstr ns pre = Some i" "i \<le> length a"
    using strstr_first [of pre "length a" ns] by blast
  then have occ: "prefix pre (drop i ns)" by (auto dest: strstr_Some_prefix)
  show ?case
  proof (cases "i = length a")
    case True
    have "i = 0 \<or> ns ! (i - 1) = CHR '':''"
    proof (cases "a = []")
      case False
      with True less.prems show ?thesis by (simp add: nth_append last_conv_nth)
    qed (simp add: True)
    moreover have "drop (i + length pre) ns = b"
      by (simp add: True less.prems)
    ultimately have "drop (i + length pre) ns = b" "i = 0 \<or> ns ! (i - 1) = CHR '':''" by simp_all
    with less.prems(3) i show ?thesis
      by (auto simp: ns_loop.simps [of pre prev ns] Let_def)
  next
    case False
    have far: "i + length pre \<le> length a"
    proof (rule ccontr)
      assume n: "\<not> i + length pre \<le> length a"
      have "a \<noteq> []" using False i by auto
      then have "ns ! (length a - 1) = CHR '':''"
        using less.prems by (auto simp: nth_append last_conv_nth)
      moreover have k: "length a - 1 - i < length pre" "i + (length a - 1 - i) = length a - 1"
          "i \<le> length ns"
        using n False i less.prems(1) by auto
      moreover have "ns ! (length a - 1) = pre ! (length a - 1 - i)"
      proof -
        obtain z where "drop i ns = pre @ z" using occ by (auto simp: prefix_def)
        then have "drop i ns ! (length a - 1 - i) = pre ! (length a - 1 - i)"
          using k(1) by (simp only: nth_append if_True)
        then show ?thesis using k(2,3) by (simp only: nth_drop)
      qed
      ultimately show False using assms(2) by (metis nth_mem)
    qed
    have "drop (i + length pre) ns = drop (i + length pre) a @ pre @ b"
      using far by (simp add: less.prems)
    moreover have "drop (i + length pre) a = [] \<or> last (drop (i + length pre) a) = CHR '':''"
      using less.prems(2) far by (cases "i + length pre < length a") (auto simp: last_drop)
    moreover have "length (drop (i + length pre) ns) < length ns"
      using assms(1) less.prems(1) by (cases pre) auto
    ultimately have "ns_loop pre prev' (drop (i + length pre) ns) = Some True" for prev'
      using less.hyps [of "drop (i + length pre) ns" "drop (i + length pre) a"] less.prems(3) by blast
    with i show ?thesis
      by (simp add: ns_loop.simps [of pre prev ns] Let_def)
  qed
qed

lemma ns_loop_empty:
  assumes "\<not> ns_end ns" "prev \<noteq> CHR '':''"
  shows "ns_loop [] prev ns = None"
proof -
  have "ns_loop pre p s = Some b \<Longrightarrow> pre \<noteq> [] \<or> p = CHR '':'' \<or> ns_end s" for pre p s b
  proof (rule ns_loop.raw_induct [where P = "\<lambda>pre p s b. pre \<noteq> [] \<or> p = CHR '':'' \<or> ns_end s"], goal_cases)
    case (1 f pre p s b)
    then show ?case
    proof (cases "pre = []")
      case True
      then have "strstr s pre = Some 0" by (cases s) auto
      with 1 True show ?thesis by (auto simp: Let_def split: if_splits)
    qed simp
  qed
  with assms have "ns_loop [] prev ns \<noteq> Some b" for b by blast
  then show ?thesis by (cases "ns_loop [] prev ns") auto
qed

subsection \<open>Kinds of names\<close>

lemma strncmp0_drop:
  assumes "NUL \<notin> set cls" "NUL \<notin> set c" "length c \<le> length cls"
  shows "strncmp0 (drop (length cls - length c) cls) c (length c) \<longleftrightarrow> suffix c cls"
proof -
  have "NUL \<notin> set (drop (length cls - length c) cls)"
    using assms(1) by (meson in_set_dropD)
  then have "strncmp0 (drop (length cls - length c) cls) c (length c) \<longleftrightarrow>
      prefix c (drop (length cls - length c) cls)"
    using assms(2) by (simp add: strncmp0_prefix)
  also have "\<dots> \<longleftrightarrow> suffix c cls"
  proof
    assume "prefix c (drop (length cls - length c) cls)"
    moreover have "length (drop (length cls - length c) cls) = length c"
      using assms(3) by simp
    ultimately have "c = drop (length cls - length c) cls"
      by (metis nat_less_le prefix_length_less strict_prefix_def)
    then show "suffix c cls" by (metis suffix_drop)
  qed (auto simp: suffix_def)
  finally show ?thesis .
qed

lemma category_suffix:
  assumes "g_name_suffix g" "NUL \<notin> set (n @ g_name_separator g @ c)" "n @ g_name_separator g \<noteq> []"
  shows "yaf_loader_is_category g (n @ g_name_separator g @ c) c = Inr True \<and>
    category_file g (n @ g_name_separator g @ c) c = n"
proof -
  have "strncmp0 c c (length c)"
    using assms(2) by (simp add: strncmp0_prefix)
  moreover have "strncmp0 (g_name_separator g @ c) (g_name_separator g) (length (g_name_separator g))"
    using assms(2) by (simp add: strncmp0_prefix)
  ultimately show ?thesis
    using assms(1,3) by (auto simp: yaf_loader_is_category_def category_file_def Let_def)
qed

lemma category_prefix:
  assumes "\<not> g_name_suffix g" "NUL \<notin> set (c @ g_name_separator g @ n)"
  shows "yaf_loader_is_category g (c @ g_name_separator g @ n) c = Inr True \<and>
    category_file g (c @ g_name_separator g @ n) c = n"
  using assms by (auto simp: yaf_loader_is_category_def category_file_def strncmp0_prefix Let_def)

lemma other_category:
  assumes "NUL \<notin> set cls" "NUL \<notin> set d" "d \<noteq> []"
    and "if g_name_suffix g then cls \<noteq> [] \<and> last cls \<noteq> last d else cls \<noteq> [] \<and> hd cls \<noteq> hd d"
  shows "yaf_loader_is_category g cls d = Inr False"
proof (cases "g_name_suffix g")
  case True
  have "\<not> suffix d cls"
    using assms True by (auto simp: suffix_def)
  with True assms show ?thesis
    by (simp add: yaf_loader_is_category_def strncmp0_drop Let_def)
next
  case False
  have "\<not> prefix d cls"
    using assms False by (cases d) (auto simp: prefix_def)
  with False assms show ?thesis
    by (simp add: yaf_loader_is_category_def strncmp0_prefix)
qed

section \<open>Properties\<close>

definition mvc_class_name :: "yaf_globals \<Rightarrow> string \<Rightarrow> string \<Rightarrow> string" where
  "mvc_class_name g n c =
     (if g_name_suffix g then n @ g_name_separator g @ c else c @ g_name_separator g @ n)"

text \<open>
  C30: A name made of a class's own name and one of the three category words, in the order and
  with the separator the configuration sets, is found to be of that category and gives back
  the own name as the file to load.
\<close>

theorem autoload_kind_mvc:
  assumes "n \<noteq> []" "NUL \<notin> set n" "NUL \<notin> set (g_name_separator g)"
    and "(c, dir) \<in> {(''Model'', ''models''), (''Plugin'', ''plugins''), (''Controller'', ''controllers'')}"
  shows "autoload_kind g (mvc_class_name g n c) = MvcClass dir n"
proof -
  have nul: "NUL \<notin> set (mvc_class_name g n c)" "NUL \<notin> set c"
    using assms by (auto simp: mvc_class_name_def)
  have hit: "yaf_loader_is_category g (mvc_class_name g n c) c = Inr True"
    "category_file g (mvc_class_name g n c) c = n"
    using category_suffix [of g n c] category_prefix [of g c n] assms(1) nul
    by (auto simp: mvc_class_name_def)
  have miss: "yaf_loader_is_category g (mvc_class_name g n c) d = Inr False"
    if "d \<in> {''Model'', ''Plugin'', ''Controller''}" "d \<noteq> c" for d
  proof (rule other_category [OF nul(1)])
    show "if g_name_suffix g then mvc_class_name g n c \<noteq> [] \<and> last (mvc_class_name g n c) \<noteq> last d
          else mvc_class_name g n c \<noteq> [] \<and> hd (mvc_class_name g n c) \<noteq> hd d"
      using assms(4) that by (auto simp: mvc_class_name_def)
  qed (use that in auto)
  show ?thesis
    using assms(4) hit miss [of "''Model''"] miss [of "''Plugin''"]
    by (auto simp: autoload_kind_def)
qed

lemma autoload_kind_mvc_witness:
  "autoload_kind (yaf_ginit\<lparr>g_name_separator := ''_''\<rparr>) ''User_Model'' = MvcClass ''models'' ''User'' \<and>
   mvc_class_name (yaf_ginit\<lparr>g_name_separator := ''_''\<rparr>) ''User'' ''Model'' = ''User_Model''"
  using autoload_kind_mvc [of "''User''" "yaf_ginit\<lparr>g_name_separator := ''_''\<rparr>" "''Model''" "''models''"]
  by (simp add: mvc_class_name_def yaf_ginit_def)

text \<open>
  C32: The path of a class whose name is a first byte and more is the directory, a slash, the
  name with every underscore but a leading one as a slash, a dot and the extension.  With
  \<open>yaf.lowcase_path\<close> the part made of the name is in lower case up to the slash of the last
  underscore, and the file name behind it is as it was given; the given directory is never
  changed.  An empty name is read out of bounds.
\<close>

theorem autoload_path_text:
  assumes "CHR ''_'' \<notin> set base"
  shows "autoload_path g dir [] = Inl OutOfBounds
    \<and> autoload_path g dir (c # base) = Inr (dir @ SLASH # c # base @ ''.'' @ g_ext g)
    \<and> autoload_path g dir (c # dirs @ CHR ''_'' # base) =
        Inr (dir @ (if g_lowcase_path g then zend_str_tolower (SLASH # c # map path_char dirs @ [SLASH])
                    else SLASH # c # map path_char dirs @ [SLASH])
          @ base @ ''.'' @ g_ext g)"
  using autoload_dirs_last [OF assms, of 1 "c # dirs @ CHR ''_'' # base" dirs "[SLASH]"]
    autoload_dirs_none [of 1 "c # base" "[SLASH]"] assms
  by (simp add: autoload_path_def tolower_slash)

lemma autoload_path_text_witness:
  "autoload_path (yaf_ginit\<lparr>g_lowcase_path := True, g_ext := ''php''\<rparr>) ''/lib'' ''Foo_Bar_Baz'' = Inr ''/lib/foo/bar/Baz.php''
   \<and> autoload_path (yaf_ginit\<lparr>g_lowcase_path := False, g_ext := ''php''\<rparr>) ''/lib'' ''Foo_Bar_Baz'' = Inr ''/lib/Foo/Bar/Baz.php''"
proof -
  have "zend_str_tolower (SLASH # ''Foo/Bar'' @ [SLASH]) = ''/foo/bar/''" by code_simp
  then show ?thesis
    using autoload_path_text [of "''Baz''" "yaf_ginit\<lparr>g_lowcase_path := True, g_ext := ''php''\<rparr>" "''/lib''" "CHR ''F''" "''oo_Bar''"]
      autoload_path_text [of "''Baz''" "yaf_ginit\<lparr>g_lowcase_path := False, g_ext := ''php''\<rparr>" "''/lib''" "CHR ''F''" "''oo_Bar''"]
    by (simp add: path_char_def)
qed

text \<open>
  A local namespace stays local: after a prefix is registered, whatever was registered
  before, every class whose name starts with the prefix and an underscore is found local.
\<close>

theorem registered_namespace_is_local:
  assumes "p \<noteq> []" "NUL \<notin> set p" "CHR ''_'' \<notin> set p" "CHR '':'' \<notin> set p" "NUL \<notin> set n"
    and "case g_local_namespaces g of Some ns \<Rightarrow> NUL \<notin> set ns | None \<Rightarrow> True"
  shows "yaf_loader_is_local_namespace (yaf_loader_register_namespace_single p g) (p @ CHR ''_'' # n) = Some True"
proof -
  have "ns_prefix (cstr (p @ CHR ''_'' # n)) = p"
    using assms by (simp add: ns_prefix_def)
  then show ?thesis
    using assms ns_loop_component [OF assms(1,4), of p "[]" "[]" NUL]
      ns_loop_component [OF assms(1,4), of "the (g_local_namespaces g) @ CHR '':'' # p"
        "the (g_local_namespaces g) @ '':''" "[]" NUL]
    by (cases "g_local_namespaces g")
      (simp_all add: yaf_loader_is_local_namespace_def yaf_loader_register_namespace_single_def ns_end_def chd_def)
qed

lemma registered_namespace_is_local_witness:
  "yaf_loader_is_local_namespace (yaf_loader_register_namespace_single ''Foo'' (yaf_ginit\<lparr>g_local_namespaces := Some ''Bar''\<rparr>))
     ''Foo_Baz'' = Some True"
  using registered_namespace_is_local [of "''Foo''" "''Baz''" "yaf_ginit\<lparr>g_local_namespaces := Some ''Bar''\<rparr>"]
  by simp

text \<open>
  C33: The search through the local namespaces returns for every class name, except one that
  starts with an underscore or a backslash (or is empty): for these it runs forever as soon
  as a namespace is registered.
\<close>

theorem local_namespace_returns:
  assumes "g_local_namespaces g = Some ns" "NUL \<notin> set ns" "ns \<noteq> []" "hd ns \<noteq> CHR '':''"
  shows "yaf_loader_is_local_namespace g cls \<noteq> None \<longleftrightarrow> ns_prefix (cstr cls) \<noteq> []"
proof -
  have "\<not> ns_end ns"
    using assms by (cases ns) (auto simp: ns_end_def chd_def)
  then show ?thesis
    using assms ns_loop_empty [of ns NUL] ns_loop_returns [of "ns_prefix (cstr cls)" NUL ns]
    by (cases "ns_prefix (cstr cls) = []") (auto simp: yaf_loader_is_local_namespace_def)
qed

lemma local_namespace_returns_witness:
  "yaf_loader_is_local_namespace (yaf_ginit\<lparr>g_local_namespaces := Some ''Foo''\<rparr>) ''_Bar'' = None"
proof -
  have "ns_prefix (cstr ''_Bar'') = []" by code_simp
  then show ?thesis
    using local_namespace_returns [of "yaf_ginit\<lparr>g_local_namespaces := Some ''Foo''\<rparr>" "''Foo''" "''_Bar''"]
    by simp
qed

end
