(* ===== verification/Yaf_Dispatcher.thy ===== *)
theory Yaf_Dispatcher
  imports Yaf_Router Yaf_Controller Yaf_Loader
begin

text \<open>
  The dispatcher (\<open>yaf_dispatcher.c\<close>): the normal form of the names, the class of a controller
  and of an action, the handling of one request, the handling of an exception by the error
  controller, and the dispatch loop with the plugins around it.  The user's PHP code is a
  record of functions on the whole state.  A result is \<^const>\<open>None\<close> if the C code does not
  return, an error value if it leaves its buffers or dereferences a null pointer.
\<close>

section \<open>State and user code\<close>

datatype dispatch_router = NoRouter | BuiltinRouter yaf_router | CustomRouter

record yaf_dispatcher =
  dp_router :: dispatch_router
  dp_view :: "yaf_view option"
  dp_plugins :: "nat list"
  dp_has_request :: bool
  dp_auto_render :: bool
  dp_return_response :: bool
  dp_instantly_flush :: bool
  dp_module :: zval
  dp_controller :: zval
  dp_action :: zval

record app_state =
  as_dp :: yaf_dispatcher
  as_rq :: yaf_request
  as_rp :: yaf_response
  as_out :: sapi_out
  as_rt :: php_rt

record executor =
  ex_class :: php_class
  ex_name :: zval
  ex_controller :: "php_class option"

text \<open>
  The user's code: importing a file, the \<open>init\<close> of a controller, a method of a class (with
  its return value, undefined if it threw), the hooks of the plugins, \<open>render\<close> and
  \<open>display\<close> of an executor, the \<open>actions\<close> and \<open>yafAutoRender\<close> properties, a router and
  routes of the user's own, and the outside: PCRE and the server.
\<close>

record user_code =
  uc_import :: import_fn
  uc_init :: "php_class \<Rightarrow> app_state \<Rightarrow> app_state"
  uc_call :: "php_class \<Rightarrow> string \<Rightarrow> zval list \<Rightarrow> app_state \<Rightarrow> zval \<times> app_state"
  uc_plugin :: "nat \<Rightarrow> string \<Rightarrow> app_state \<Rightarrow> app_state"
  uc_view :: "executor \<Rightarrow> string \<Rightarrow> zval \<Rightarrow> app_state \<Rightarrow> zval \<times> app_state"
  uc_actions :: "php_class \<Rightarrow> app_state \<Rightarrow> zval"
  uc_auto_render :: "executor \<Rightarrow> app_state \<Rightarrow> zval option"
  uc_router :: "app_state \<Rightarrow> bool \<times> app_state"
  uc_routes :: user_routes
  uc_pcre :: pcre_match
  uc_header_op :: header_op
  uc_sapi :: string

definition throws :: "app_state \<Rightarrow> bool" where
  "throws st \<longleftrightarrow> rt_exception (as_rt st) \<noteq> None"

definition on_rt :: "(php_rt \<Rightarrow> php_rt) \<Rightarrow> app_state \<Rightarrow> app_state" where
  "on_rt f st = st\<lparr>as_rt := f (as_rt st)\<rparr>"

definition on_rq :: "(yaf_request \<Rightarrow> yaf_request) \<Rightarrow> app_state \<Rightarrow> app_state" where
  "on_rq f st = st\<lparr>as_rq := f (as_rq st)\<rparr>"

definition fails :: "yaf_err \<Rightarrow> string \<Rightarrow> app_state \<Rightarrow> bool \<times> app_state" where
  "fails e msg st = (False, on_rt (yaf_trigger_error e msg) st)"

definition user_call :: "(app_state \<Rightarrow> zval \<times> app_state) \<Rightarrow> app_state \<Rightarrow> zval \<times> app_state" where
  \<comment> \<open>no user function is entered while an exception is pending\<close>
  "user_call f st = (if throws st then (ZUndef, st) else f st)"

section \<open>The names of a request\<close>

fun upper_words :: "string \<Rightarrow> string" where
  \<comment> \<open>the loop over \<open>q\<close>: the byte behind an underscore or a backslash is raised and stepped over\<close>
  "upper_words [] = []"
| "upper_words [c] = [c]"
| "upper_words (c # d # s) =
     (if c = NUL then c # d # s
      else if (c = CHR ''_'' \<or> c = CHR 0x5C) \<and> d \<noteq> NUL then c # toupper d # upper_words s
      else c # upper_words (d # s))"

definition nonempty_string :: "zval \<Rightarrow> string option" where
  "nonempty_string v = (case v of ZString s \<Rightarrow> if s = [] then None else Some s | _ \<Rightarrow> None)"

definition module_form :: "string \<Rightarrow> string" where
  "module_form s = ucfirst (zend_str_tolower s)"

definition controller_form :: "string \<Rightarrow> string" where
  "controller_form s = upper_words (ucfirst (zend_str_tolower s))"

definition yaf_dispatcher_fix_default :: "yaf_dispatcher \<Rightarrow> yaf_request \<Rightarrow> yaf_request" where
  "yaf_dispatcher_fix_default dp rq =
     rq\<lparr>rq_module := (case nonempty_string (rq_module rq) of
          None \<Rightarrow> dp_module dp | Some s \<Rightarrow> ZString (module_form s)),
        rq_controller := (case nonempty_string (rq_controller rq) of
          None \<Rightarrow> dp_controller dp | Some s \<Rightarrow> ZString (controller_form s)),
        rq_action := (case nonempty_string (rq_action rq) of
          None \<Rightarrow> dp_action dp | Some s \<Rightarrow> ZString (zend_str_tolower s))\<rparr>"

section \<open>Setting the dispatcher up\<close>

definition yaf_dispatcher_new :: "php_rt \<Rightarrow> yaf_dispatcher \<times> php_rt" where
  \<comment> \<open>the first call of \<open>yaf_dispatcher_instance\<close>, with the declared defaults of the class\<close>
  "yaf_dispatcher_new rt =
     (let (router, rt') = yaf_router_instance rt; g = rt_g rt
      in (\<lparr>dp_router = BuiltinRouter router, dp_view = None, dp_plugins = [], dp_has_request = False,
           dp_auto_render = True, dp_return_response = False, dp_instantly_flush = False,
           dp_module = ZString (g_default_module g), dp_controller = ZString (g_default_controller g),
           dp_action = ZString (g_default_action g)\<rparr>, rt'))"

definition yaf_dispatcher_instance :: "yaf_dispatcher option \<Rightarrow> php_rt \<Rightarrow> yaf_dispatcher \<times> php_rt" where
  "yaf_dispatcher_instance inst rt =
     (case inst of Some dp \<Rightarrow> (dp, rt) | None \<Rightarrow> yaf_dispatcher_new rt)"

definition yaf_dispatcher_set_request :: "yaf_request option \<Rightarrow> app_state \<Rightarrow> bool \<times> app_state" where
  "yaf_dispatcher_set_request rq st =
     (case rq of
        None \<Rightarrow> (False, st)
      | Some r \<Rightarrow> (True, st\<lparr>as_rq := r, as_dp := (as_dp st)\<lparr>dp_has_request := True\<rparr>\<rparr>))"

definition dispatcher_setDefaultModule :: "php_rt \<Rightarrow> zval \<Rightarrow> yaf_dispatcher \<Rightarrow> bool \<times> yaf_dispatcher" where
  \<comment> \<open>\<open>ZVAL_STRING\<close> copies up to the terminator\<close>
  "dispatcher_setDefaultModule rt v dp =
     (case nonempty_string v of
        Some s \<Rightarrow>
          if yaf_application_is_module_name rt s
          then (True, dp\<lparr>dp_module := ZString (ucfirst (cstr (zend_str_tolower s)))\<rparr>)
          else (False, dp)
      | None \<Rightarrow> (False, dp))"

definition dispatcher_setDefaultController :: "zval \<Rightarrow> yaf_dispatcher \<Rightarrow> bool \<times> yaf_dispatcher" where
  "dispatcher_setDefaultController v dp =
     (case nonempty_string v of
        Some s \<Rightarrow> (True, dp\<lparr>dp_controller := ZString (ucfirst (cstr (zend_str_tolower s)))\<rparr>)
      | None \<Rightarrow> (False, dp))"

definition dispatcher_setDefaultAction :: "zval \<Rightarrow> yaf_dispatcher \<Rightarrow> bool \<times> yaf_dispatcher" where
  "dispatcher_setDefaultAction v dp =
     (case nonempty_string v of
        Some s \<Rightarrow> (True, dp\<lparr>dp_action := ZString (cstr (zend_str_tolower s))\<rparr>)
      | None \<Rightarrow> (False, dp))"

definition dispatcher_registerPlugin :: "nat option \<Rightarrow> yaf_dispatcher \<times> php_rt \<Rightarrow> bool \<times> yaf_dispatcher \<times> php_rt" where
  "dispatcher_registerPlugin plugin = (\<lambda>(dp, rt).
     case plugin of
       None \<Rightarrow> (False, dp, php_error_docref (EWarning ''Expect a Yaf_Plugin_Abstract instance'') rt)
     | Some p \<Rightarrow> (True, dp\<lparr>dp_plugins := dp_plugins dp @ [p]\<rparr>, rt))"

definition dispatcher_enableView :: "yaf_dispatcher \<Rightarrow> yaf_dispatcher" where
  "dispatcher_enableView dp = dp\<lparr>dp_auto_render := True\<rparr>"

definition dispatcher_disableView :: "yaf_dispatcher \<Rightarrow> yaf_dispatcher" where
  "dispatcher_disableView dp = dp\<lparr>dp_auto_render := False\<rparr>"

datatype 'o flag_result = FlagSet 'o | FlagIs bool

definition dispatcher_autoRender :: "bool option \<Rightarrow> yaf_dispatcher \<Rightarrow> yaf_dispatcher flag_result" where
  "dispatcher_autoRender flag dp =
     (case flag of Some b \<Rightarrow> FlagSet (dp\<lparr>dp_auto_render := b\<rparr>) | None \<Rightarrow> FlagIs (dp_auto_render dp))"

definition dispatcher_returnResponse :: "bool option \<Rightarrow> yaf_dispatcher \<Rightarrow> yaf_dispatcher flag_result" where
  "dispatcher_returnResponse flag dp =
     (case flag of Some b \<Rightarrow> FlagSet (dp\<lparr>dp_return_response := b\<rparr>) | None \<Rightarrow> FlagIs (dp_return_response dp))"

definition dispatcher_flushInstantly :: "bool option \<Rightarrow> yaf_dispatcher \<Rightarrow> yaf_dispatcher flag_result" where
  "dispatcher_flushInstantly flag dp =
     (case flag of Some b \<Rightarrow> FlagSet (dp\<lparr>dp_instantly_flush := b\<rparr>) | None \<Rightarrow> FlagIs (dp_instantly_flush dp))"

definition dispatcher_throwException :: "bool option \<Rightarrow> yaf_globals \<Rightarrow> yaf_globals flag_result" where
  "dispatcher_throwException flag g =
     (case flag of Some b \<Rightarrow> FlagSet (g\<lparr>g_throw_exception := b\<rparr>) | None \<Rightarrow> FlagIs (g_throw_exception g))"

definition dispatcher_catchException :: "bool option \<Rightarrow> yaf_globals \<Rightarrow> yaf_globals flag_result" where
  "dispatcher_catchException flag g =
     (case flag of Some b \<Rightarrow> FlagSet (g\<lparr>g_catch_exception := b\<rparr>) | None \<Rightarrow> FlagIs (g_catch_exception g))"

definition dispatcher_setView :: "yaf_view option \<Rightarrow> yaf_dispatcher \<Rightarrow> bool \<times> yaf_dispatcher" where
  "dispatcher_setView v dp =
     (case v of Some w \<Rightarrow> (True, dp\<lparr>dp_view := Some w\<rparr>) | None \<Rightarrow> (False, dp))"

definition yaf_dispatcher_init_view ::
    "zval option \<Rightarrow> zval option \<Rightarrow> app_state \<Rightarrow> yaf_view option \<times> app_state" where
  \<comment> \<open>an existing view is kept, whatever the arguments\<close>
  "yaf_dispatcher_init_view tpl_dir options st =
     (case dp_view (as_dp st) of
        Some v \<Rightarrow> (Some v, st)
      | None \<Rightarrow>
          (case yaf_view_simple_instance tpl_dir options (as_rt st) of
             (None, rt') \<Rightarrow> (None, st\<lparr>as_rt := rt'\<rparr>)
           | (Some v, rt') \<Rightarrow> (Some v, st\<lparr>as_rt := rt', as_dp := (as_dp st)\<lparr>dp_view := Some v\<rparr>\<rparr>)))"

section \<open>Arguments of an action\<close>

fun call_slots :: "zval htab \<Rightarrow> string list \<Rightarrow> zval option list" where
  \<comment> \<open>one slot per parameter, \<^const>\<open>None\<close> if nothing is stored in it; the second search leaves
      \<open>arg\<close> on the last value, so the loop only stops early if there are no parameters at all\<close>
  "call_slots params [] = []"
| "call_slots params (p # ps) =
     (case hfind params (KStr p) of
        Some v \<Rightarrow> Some v # call_slots params ps
      | None \<Rightarrow> if params = [] then [] else None # call_slots params ps)"

definition yaf_dispatcher_get_call_parameters :: "zval htab \<Rightarrow> string list \<Rightarrow> zval option list \<times> nat" where
  "yaf_dispatcher_get_call_parameters params names =
     (let slots = call_slots params names in (slots, length (filter (\<lambda>s. s \<noteq> None) slots)))"

definition call_args :: "zval htab \<Rightarrow> string list \<Rightarrow> mem_error + zval list" where
  \<comment> \<open>the call passes the first \<open>count\<close> slots\<close>
  "call_args params names =
     (case yaf_dispatcher_get_call_parameters params names of
        (slots, count) \<Rightarrow>
          if None \<in> set (take count slots) then Inl WildRead
          else Inr (map the (take count slots)))"

section \<open>The class of a controller and of an action\<close>

definition class_word :: "yaf_globals \<Rightarrow> string \<Rightarrow> string \<Rightarrow> string" where
  \<comment> \<open>the class name made of a name and a category word\<close>
  "class_word g name word =
     (if g_name_suffix g then cstr name @ g_name_separator g @ word
      else word @ g_name_separator g @ cstr name)"

definition mvc_directory :: "string \<Rightarrow> string \<Rightarrow> bool \<Rightarrow> string \<Rightarrow> string" where
  "mvc_directory app module def_module kind =
     (if def_module then cstr app @ SLASH # kind
      else cstr app @ ''/modules/'' @ cstr module @ SLASH # kind)"

type_synonym class_result = "mem_error + (php_class option \<times> app_state)"

definition lost_class :: "yaf_err \<Rightarrow> string \<Rightarrow> app_state \<Rightarrow> class_result" where
  "lost_class e msg st = Inr (None, on_rt (yaf_trigger_error e msg) st)"

definition yaf_dispatcher_get_controller ::
    "user_code \<Rightarrow> string \<Rightarrow> string \<Rightarrow> string \<Rightarrow> bool \<Rightarrow> app_state \<Rightarrow> class_result" where
  \<comment> \<open>a class that is there already is not tested\<close>
  "yaf_dispatcher_get_controller uc app module controller def_module st =
     (let dir = mvc_directory app module def_module ''controllers'';
          cls = class_word (rt_g (as_rt st)) controller ''Controller'';
          lc = zend_str_tolower cls
      in case class_find (as_rt st) lc of
           Some ce \<Rightarrow> Inr (Some ce, st)
         | None \<Rightarrow>
            (case autoload_from (uc_import uc) controller dir (as_rt st) of
               Inl e \<Rightarrow> Inl e
             | Inr (ok, path, rt') \<Rightarrow>
                (let st = st\<lparr>as_rt := rt'\<rparr>
                 in if \<not> ok then lost_class ERR_NOTFOUND_CONTROLLER
                      (''Failed opening controller script '' @ path @ '': '' @ rt_errno rt') st
                    else case class_find rt' lc of
                           None \<Rightarrow> lost_class ERR_AUTOLOAD_FAILED
                             (''Could not find class '' @ cls @ '' in controller script '' @ path) st
                         | Some ce \<Rightarrow>
                             if instanceof_function ce ''Yaf_Controller_Abstract'' then Inr (Some ce, st)
                             else lost_class ERR_TYPE_ERROR
                               ''Controller must be an instance of Yaf_Controller_Abstract'' st)))"

definition action_extends :: "string \<Rightarrow> php_class \<Rightarrow> app_state \<Rightarrow> class_result" where
  "action_extends cls ce st =
     (if instanceof_function ce ''Yaf_Action_Abstract'' then Inr (Some ce, st)
      else lost_class ERR_TYPE_ERROR
        (''Action '' @ cls @ '' must extends from Yaf_Action_Abstract'') st)"

definition mapped_action ::
    "user_code \<Rightarrow> string \<Rightarrow> php_class \<Rightarrow> zval htab \<Rightarrow> string \<Rightarrow> app_state \<Rightarrow> class_result" where
  \<comment> \<open>the class is known, or the map of the controller names its file; for a class of that file
      that is no action the strings are released twice\<close>
  "mapped_action uc app ctrl actions action st =
     (let cls = class_word (rt_g (as_rt st)) (ucfirst action) ''Action'';
          lc = zend_str_tolower cls
      in case class_find (as_rt st) lc of
           Some ce \<Rightarrow> action_extends cls ce st
         | None \<Rightarrow>
            (case hfind actions (KStr action) of
               None \<Rightarrow> lost_class ERR_NOTFOUND_ACTION
                 (''There is no method '' @ cstr action @ ''Action in '' @ cl_name ctrl @ ''::$actions'') st
             | Some (ZString file) \<Rightarrow>
                (let path = cstr app @ SLASH # cstr file; (ok, rt') = uc_import uc path (as_rt st);
                     st = st\<lparr>as_rt := rt'\<rparr>
                 in if \<not> ok then lost_class ERR_NOTFOUND_ACTION
                      (''Failed opening action script '' @ path @ '': '' @ rt_errno rt') st
                    else case class_find rt' lc of
                           Some ce \<Rightarrow> if instanceof_function ce ''Yaf_Action_Abstract'' then Inr (Some ce, st)
                                      else Inl WildRead
                         | None \<Rightarrow> lost_class ERR_NOTFOUND_ACTION
                             (''Could not find action '' @ cls @ '' in '' @ path) st)
             | Some _ \<Rightarrow> Inl WildRead))"

definition compatible_action ::
    "user_code \<Rightarrow> string \<Rightarrow> string \<Rightarrow> bool \<Rightarrow> string \<Rightarrow> app_state \<Rightarrow> class_result" where
  \<comment> \<open>\<open>yaf.st_compatible\<close>: a file of its own per action\<close>
  "compatible_action uc app module def_module action st =
     (let upper = upper_words (ucfirst action);
          dir = mvc_directory app module def_module ''actions'';
          cls = class_word (rt_g (as_rt st)) upper ''Action'';
          lc = zend_str_tolower cls
      in case class_find (as_rt st) lc of
           Some ce \<Rightarrow> Inr (Some ce, st)
         | None \<Rightarrow>
            (case autoload_from (uc_import uc) upper dir (as_rt st) of
               Inl e \<Rightarrow> Inl e
             | Inr (ok, path, rt') \<Rightarrow>
                (let st = st\<lparr>as_rt := rt'\<rparr>
                 in if \<not> ok then lost_class ERR_NOTFOUND_ACTION
                      (''Failed opening action script '' @ path @ '': '' @ rt_errno rt') st
                    else case class_find rt' lc of
                           None \<Rightarrow> lost_class ERR_AUTOLOAD_FAILED
                             (''Could find class '' @ cls @ '' in action script '' @ path) st
                         | Some ce \<Rightarrow>
                             if instanceof_function ce ''Yaf_Action_Abstract'' then Inr (Some ce, st)
                             else lost_class ERR_TYPE_ERROR
                               ''Action must be an instance of Yaf_Action_Abstract'' st)))"

definition yaf_dispatcher_get_action ::
    "user_code \<Rightarrow> string \<Rightarrow> php_class \<Rightarrow> string \<Rightarrow> bool \<Rightarrow> string \<Rightarrow> app_state \<Rightarrow> class_result" where
  "yaf_dispatcher_get_action uc app ctrl module def_module action st =
     (case uc_actions uc ctrl st of
        ZArray actions \<Rightarrow> mapped_action uc app ctrl actions action st
      | _ \<Rightarrow>
          if g_st_compatible (rt_g (as_rt st)) then compatible_action uc app module def_module action st
          else lost_class ERR_NOTFOUND_ACTION
            (''There is no method '' @ cstr action @ ''Action in '' @ cl_name ctrl) st)"

section \<open>Handling a request\<close>

type_synonym handle_result = "mem_error + (bool \<times> app_state)"

definition auto_render :: "user_code \<Rightarrow> executor \<Rightarrow> app_state \<Rightarrow> bool" where
  \<comment> \<open>the executor's property comes first\<close>
  "auto_render uc ex st =
     (case uc_auto_render uc ex st of
        Some v \<Rightarrow> (case v of ZTrue \<Rightarrow> True | ZLong n \<Rightarrow> n \<noteq> 0 | _ \<Rightarrow> False)
      | None \<Rightarrow> dp_auto_render (as_dp st))"

definition handle_render :: "user_code \<Rightarrow> executor \<Rightarrow> zval \<Rightarrow> app_state \<Rightarrow> bool \<times> app_state" where
  "handle_render uc ex action st =
     (if \<not> auto_render uc ex st then (True, st)
      else if \<not> dp_instantly_flush (as_dp st) then
        (let (ret, st) = user_call (uc_view uc ex ''render'' action) st
         in case ret of
              ZUndef \<Rightarrow> (False, st)
            | ZFalse \<Rightarrow> (False, st)
            | ZString s \<Rightarrow> (True, st\<lparr>as_rp := yaf_response_alter_body (as_rp st) None s RESPONSE_APPEND\<rparr>)
            | _ \<Rightarrow> (True, st))
      else
        (let (ret, st) = user_call (uc_view uc ex ''display'' action) st
         in (ret \<noteq> ZUndef \<and> ret \<noteq> ZFalse, st)))"

definition run_executor ::
    "user_code \<Rightarrow> executor \<Rightarrow> string \<Rightarrow> string list \<Rightarrow> zval \<Rightarrow> app_state \<Rightarrow> handle_result" where
  \<comment> \<open>the call of the action; \<open>false\<close> from it means no rendering\<close>
  "run_executor uc ex fname names action st =
     (case call_args (rq_params (as_rq st)) names of
        Inl e \<Rightarrow> Inl e
      | Inr args \<Rightarrow>
          (let (ret, st) = user_call (uc_call uc (ex_class ex) fname args) st
           in case ret of
                ZUndef \<Rightarrow> Inr (False, st)
              | ZFalse \<Rightarrow> Inr (True, st)
              | _ \<Rightarrow> Inr (handle_render uc ex action st)))"

definition controller_construct :: "user_code \<Rightarrow> php_class \<Rightarrow> app_state \<Rightarrow> app_state" where
  \<comment> \<open>\<open>yaf_controller_construct\<close>: \<open>init\<close> is run for controllers that have one\<close>
  "controller_construct uc ce st =
     (if \<not> instanceof_function ce ''Yaf_Action_Abstract'' \<and> map_of (cl_methods ce) ''init'' \<noteq> None
         \<and> \<not> throws st
      then uc_init uc ce st else st)"

definition directory_module :: "bool \<Rightarrow> app_state \<Rightarrow> mem_error + string" where
  \<comment> \<open>the request's module, read again without a test once \<open>init\<close> was run; the default module has
      no directory of its own\<close>
  "directory_module def_module st =
     (if def_module then Inr []
      else case rq_module (as_rq st) of ZString m \<Rightarrow> Inr m | _ \<Rightarrow> Inl WildRead)"

definition handle_method ::
    "user_code \<Rightarrow> string \<Rightarrow> string \<Rightarrow> bool \<Rightarrow> zval \<Rightarrow> php_class \<Rightarrow> app_state \<Rightarrow> handle_result" where
  \<comment> \<open>the action is a method of the controller or a class\<close>
  "handle_method uc app module def_module controller ce st =
     (case rq_action (as_rq st) of
        ZString a \<Rightarrow>
          (let fname = zend_str_tolower (cstr a @ ''action'')
           in case map_of (cl_methods ce) fname of
                Some names \<Rightarrow>
                  run_executor uc \<lparr>ex_class = ce, ex_name = controller, ex_controller = None\<rparr>
                    fname names (ZString a) st
              | None \<Rightarrow>
                  (case yaf_dispatcher_get_action uc app ce module def_module a st of
                     Inl e \<Rightarrow> Inl e
                   | Inr (None, st) \<Rightarrow> Inr (False, st)
                   | Inr (Some ace, st) \<Rightarrow>
                       (case map_of (cl_methods ace) ''execute'' of
                          None \<Rightarrow> Inr (False, st)
                        | Some names \<Rightarrow>
                            run_executor uc
                              \<lparr>ex_class = ace, ex_name = controller, ex_controller = Some ce\<rparr>
                              ''execute'' names (ZString a) (controller_construct uc ace st))))
      | _ \<Rightarrow> Inl WildRead)"

definition handle_action :: "user_code \<Rightarrow> string \<Rightarrow> bool \<Rightarrow> php_class \<Rightarrow> app_state \<Rightarrow> handle_result" where
  \<comment> \<open>from the view directory on; the names are those of the request behind \<open>init\<close>\<close>
  "handle_action uc app def_module ce st =
     (case directory_module def_module st of
        Inl e \<Rightarrow> Inl e
      | Inr m \<Rightarrow>
          handle_method uc app m def_module (rq_controller (as_rq st)) ce
            (on_rt (\<lambda>rt. rt\<lparr>rt_g := (rt_g rt)\<lparr>g_view_directory :=
               Some (mvc_directory app m def_module ''views'')\<rparr>\<rparr>) st))"

datatype prepared = Refused app_state | Prepared string bool php_class app_state

definition handle_prepare :: "user_code \<Rightarrow> app_state \<Rightarrow> mem_error + prepared" where
  \<comment> \<open>the checks of module and controller, the controller's class and its construction\<close>
  "handle_prepare uc st =
     (let st = on_rq (yaf_request_set_dispatched True) st;
          refuse = (\<lambda>e msg. Inr (Refused (on_rt (yaf_trigger_error e msg) st)))
      in case g_directory (rt_g (as_rt st)) of
           None \<Rightarrow> refuse ERR_STARTUP_FAILED
             ''Yaf_Dispatcher requires Yaf_Application(which set the application.directory) to be initialized first''
         | Some app \<Rightarrow>
            (case nonempty_string (rq_module (as_rq st)) of
               None \<Rightarrow> refuse ERR_DISPATCH_FAILED ''Unexcepted a empty module name''
             | Some m \<Rightarrow>
                 if \<not> yaf_application_is_module_name (as_rt st) m
                 then refuse ERR_NOTFOUND_MODULE (''There is no module '' @ cstr m)
                 else
                   (case nonempty_string (rq_controller (as_rq st)) of
                      None \<Rightarrow> refuse ERR_DISPATCH_FAILED ''Unexcepted a empty controller name''
                    | Some c \<Rightarrow>
                        (let def_module = (dp_module (as_dp st) = ZString m)
                         in case yaf_dispatcher_get_controller uc app m c def_module st of
                              Inl e \<Rightarrow> Inl e
                            | Inr (None, st) \<Rightarrow> Inr (Refused st)
                            | Inr (Some ce, st) \<Rightarrow>
                                Inr (Prepared app def_module ce
                                  (controller_construct uc ce st))))))"

partial_function (option) yaf_dispatcher_handle ::
    "user_code \<Rightarrow> app_state \<Rightarrow> handle_result option" where
  \<comment> \<open>a forward out of \<open>init\<close> starts again\<close>
  "yaf_dispatcher_handle uc st =
     (case handle_prepare uc st of
        Inl e \<Rightarrow> Some (Inl e)
      | Inr (Refused st') \<Rightarrow> Some (Inr (False, st'))
      | Inr (Prepared app d ce st') \<Rightarrow>
          (if throws st' then Some (Inr (False, st'))
           else if \<not> yaf_request_is_dispatched (as_rq st') then yaf_dispatcher_handle uc st'
           else Some (handle_action uc app d ce st')))"

declare yaf_dispatcher_handle.simps [code]

section \<open>The error controller\<close>

definition error_request :: "app_state \<Rightarrow> php_exc \<Rightarrow> app_state" where
  \<comment> \<open>the request is turned to the error controller and carries the exception\<close>
  "error_request st e =
     (let rq = as_rq st;
          rq = (case nonempty_string (rq_module rq) of
                  Some _ \<Rightarrow> rq | None \<Rightarrow> rq\<lparr>rq_module := dp_module (as_dp st)\<rparr>);
          rq = rq\<lparr>rq_controller := ZString ''Error'', rq_action := ZString ''error'', rq_exception := ZExc e\<rparr>;
          rq = yaf_request_set_params_single ''exception'' (ZExc e) rq;
          rq = yaf_request_set_dispatched False rq
      in st\<lparr>as_rq := rq, as_rt := (as_rt st)\<lparr>rt_exception := None\<rparr>\<rparr>)"

definition exception_fallback :: "user_code \<Rightarrow> app_state \<Rightarrow> (mem_error + app_state) option" where
  \<comment> \<open>the error controller was not found: the default module's is tried\<close>
  "exception_fallback uc st =
     (case rt_exception (as_rt st) of
        Some e \<Rightarrow>
          if exc_instanceof e ''Yaf_Exception_LoadFailed_Controller'' then
            map_option (\<lambda>r. case r of Inl x \<Rightarrow> Inl x | Inr (_, st') \<Rightarrow> Inr st')
              (yaf_dispatcher_handle uc
                 (on_rt (\<lambda>rt. rt\<lparr>rt_exception := None\<rparr>)
                    (on_rq (\<lambda>rq. rq\<lparr>rq_module := dp_module (as_dp st)\<rparr>) st)))
          else Some (Inr st)
      | None \<Rightarrow> Some (Inr st))"

definition send_out :: "app_state \<Rightarrow> app_state" where
  "send_out st = on_rt (\<lambda>rt. snd (yaf_response_send (as_rp st) rt)) st"

definition yaf_dispatcher_exception_handler :: "user_code \<Rightarrow> app_state \<Rightarrow> (mem_error + app_state) option" where
  "yaf_dispatcher_exception_handler uc st =
     (case rt_exception (as_rt st) of
        None \<Rightarrow> Some (Inr st)
      | Some e \<Rightarrow>
          if g_in_exception (rt_g (as_rt st)) then Some (Inr st)
          else
            (let st = on_rt (\<lambda>rt. rt\<lparr>rt_g := (rt_g rt)\<lparr>g_in_exception := True\<rparr>\<rparr>) st;
                 st = error_request st e
             in case yaf_dispatcher_init_view None None st of
                  (None, st) \<Rightarrow> Some (Inr st)
                | (Some _, st) \<Rightarrow>
                    (case yaf_dispatcher_handle uc st of
                       None \<Rightarrow> None
                     | Some (Inl x) \<Rightarrow> Some (Inl x)
                     | Some (Inr (True, st)) \<Rightarrow> Some (Inr (send_out st))
                     | Some (Inr (False, st)) \<Rightarrow>
                         (case exception_fallback uc st of
                            None \<Rightarrow> None
                          | Some (Inl x) \<Rightarrow> Some (Inl x)
                          | Some (Inr st) \<Rightarrow> Some (Inr (send_out st))))))"

definition catch_exception :: "user_code \<Rightarrow> app_state \<Rightarrow> (mem_error + app_state) option" where
  \<comment> \<open>\<open>YAF_EXCEPTION_HANDLE_NORET\<close>, for a pending exception\<close>
  "catch_exception uc st =
     (case rt_exception (as_rt st) of
        None \<Rightarrow> Some (Inr st)
      | Some e \<Rightarrow>
          if g_catch_exception (rt_g (as_rt st)) \<and> exc_instanceof e exception_default_ce
          then yaf_dispatcher_exception_handler uc st else Some (Inr st))"

section \<open>Dispatching\<close>

fun run_plugins :: "user_code \<Rightarrow> nat list \<Rightarrow> string \<Rightarrow> app_state \<Rightarrow> app_state" where
  "run_plugins uc [] hook st = st"
| "run_plugins uc (p # ps) hook st =
     run_plugins uc ps hook (if throws st then st else uc_plugin uc p hook st)"

definition plugin_hook :: "user_code \<Rightarrow> string \<Rightarrow> app_state \<Rightarrow> (mem_error + (bool \<times> app_state)) option" where
  \<comment> \<open>\<open>YAF_PLUGIN_HANDLE\<close> and \<open>YAF_EXCEPTION_HANDLE\<close>: false where the caller returns null;
      the plugins are those registered when the hook is reached\<close>
  "plugin_hook uc hook st =
     (let st = run_plugins uc (dp_plugins (as_dp st)) hook st
      in if throws st
         then map_option (\<lambda>r. case r of Inl e \<Rightarrow> Inl e | Inr st' \<Rightarrow> Inr (False, st')) (catch_exception uc st)
         else Some (Inr (True, st)))"

definition yaf_dispatcher_route :: "user_code \<Rightarrow> app_state \<Rightarrow> mem_error + (bool \<times> app_state)" where
  \<comment> \<open>the answer of the built-in router is not passed on\<close>
  "yaf_dispatcher_route uc st =
     (case dp_router (as_dp st) of
        NoRouter \<Rightarrow> Inr (False, st)
      | BuiltinRouter ro \<Rightarrow>
          (case yaf_router_route (uc_pcre uc) (uc_routes uc) ro (as_rq st) (as_rt st) of
             Inl e \<Rightarrow> Inl e
           | Inr (_, ro', rq', rt') \<Rightarrow>
               Inr (True, st\<lparr>as_dp := (as_dp st)\<lparr>dp_router := BuiltinRouter ro'\<rparr>, as_rq := rq', as_rt := rt'\<rparr>))
      | CustomRouter \<Rightarrow>
          (let (ok, st) = (if throws st then (False, st) else uc_router uc st)
           in if ok then Inr (True, st) else Inr (fails ERR_ROUTE_FAILED ''Routing request faild'' st)))"

datatype step = Stopped app_state | Went app_state

definition stop_after :: "(mem_error + app_state) option \<Rightarrow> (mem_error + step) option" where
  "stop_after r = map_option (\<lambda>r. case r of Inl e \<Rightarrow> Inl e | Inr st \<Rightarrow> Inr (Stopped st)) r"

definition fix_default_st :: "app_state \<Rightarrow> app_state" where
  "fix_default_st st = on_rq (yaf_dispatcher_fix_default (as_dp st)) st"

definition dispatch_once :: "user_code \<Rightarrow> app_state \<Rightarrow> (mem_error + step) option" where
  \<comment> \<open>the body of the dispatch loop\<close>
  "dispatch_once uc st =
     (case plugin_hook uc ''predispatch'' st of
        None \<Rightarrow> None
      | Some (Inl e) \<Rightarrow> Some (Inl e)
      | Some (Inr (False, st)) \<Rightarrow> Some (Inr (Stopped st))
      | Some (Inr (True, st)) \<Rightarrow>
          (case yaf_dispatcher_handle uc st of
             None \<Rightarrow> None
           | Some (Inl e) \<Rightarrow> Some (Inl e)
           | Some (Inr (False, st)) \<Rightarrow> stop_after (catch_exception uc st)
           | Some (Inr (True, st)) \<Rightarrow>
               (case plugin_hook uc ''postdispatch'' (fix_default_st st) of
                  None \<Rightarrow> None
                | Some (Inl e) \<Rightarrow> Some (Inl e)
                | Some (Inr (False, st)) \<Rightarrow> Some (Inr (Stopped st))
                | Some (Inr (True, st)) \<Rightarrow> Some (Inr (Went st)))))"

function dispatch_loop ::
    "user_code \<Rightarrow> 32 word \<Rightarrow> app_state \<Rightarrow> (mem_error + (32 word \<times> step)) option" where
  \<comment> \<open>\<open>do ... while (--nesting > 0 \<and> \<not> dispatched)\<close> on an unsigned counter\<close>
  "dispatch_loop uc nesting st =
     (case dispatch_once uc st of
        None \<Rightarrow> None
      | Some (Inl e) \<Rightarrow> Some (Inl e)
      | Some (Inr (Stopped st')) \<Rightarrow> Some (Inr (nesting, Stopped st'))
      | Some (Inr (Went st')) \<Rightarrow>
          (let nesting' = nesting - 1
           in if nesting' > 0 \<and> \<not> yaf_request_is_dispatched (as_rq st')
              then dispatch_loop uc nesting' st'
              else Some (Inr (nesting', Went st'))))"
  by pat_completeness auto
termination
proof (relation "measure (\<lambda>(uc, nesting, st). unat (nesting - 1))", goal_cases)
  case 1
  then show ?case by simp
next
  case (2 uc nesting st)
  then have "nesting - 1 \<noteq> 0" by auto
  from measure_unat [OF this] 2 show ?case by (auto simp: algebra_simps)
qed

declare dispatch_loop.simps [simp del]

definition send_response :: "user_code \<Rightarrow> app_state \<Rightarrow> app_state" where
  \<comment> \<open>the \<open>response\<close> method of the response's class, then its body is cleared\<close>
  "send_response uc st =
     (let st = (case rp_class (as_rp st) of
                  ResponseCli \<Rightarrow> send_out st
                | ResponseHttp \<Rightarrow>
                    (case yaf_response_http_send (uc_header_op uc) (as_rp st) (as_out st) (as_rt st) of
                       (_, out, rt) \<Rightarrow> st\<lparr>as_out := out, as_rt := rt\<rparr>))
      in st\<lparr>as_rp := yaf_response_clear_body (as_rp st) None\<rparr>)"

definition dispatch_finish ::
    "user_code \<Rightarrow> 32 word \<Rightarrow> app_state \<Rightarrow> (mem_error + (bool \<times> app_state)) option" where
  \<comment> \<open>behind the loop\<close>
  "dispatch_finish uc nesting st =
     (case plugin_hook uc ''dispatchloopshutdown'' st of
        None \<Rightarrow> None
      | Some (Inl e) \<Rightarrow> Some (Inl e)
      | Some (Inr (False, st)) \<Rightarrow> Some (Inr (False, st))
      | Some (Inr (True, st)) \<Rightarrow>
          if nesting = 0 \<and> \<not> yaf_request_is_dispatched (as_rq st) then
            map_option (\<lambda>r. case r of Inl e \<Rightarrow> Inl e | Inr st' \<Rightarrow> Inr (False, st'))
              (catch_exception uc (snd (fails ERR_DISPATCH_FAILED
                 (''The max dispatch nesting '' @ zend_long_to_str (g_forward_limit (rt_g (as_rt st)))
                  @ '' was reached'') st)))
          else Some (Inr (True, if dp_return_response (as_dp st) then st else send_response uc st)))"

definition dispatch_route :: "user_code \<Rightarrow> app_state \<Rightarrow> (mem_error + (bool \<times> app_state)) option" where
  \<comment> \<open>routing, for a request that is not routed yet\<close>
  "dispatch_route uc st =
     (if yaf_request_is_routed (as_rq st) then Some (Inr (True, fix_default_st st))
      else
        (case plugin_hook uc ''routerstartup'' st of
           None \<Rightarrow> None
         | Some (Inl e) \<Rightarrow> Some (Inl e)
         | Some (Inr (False, st)) \<Rightarrow> Some (Inr (False, st))
         | Some (Inr (True, st)) \<Rightarrow>
             (case yaf_dispatcher_route uc st of
                Inl e \<Rightarrow> Some (Inl e)
              | Inr (False, st) \<Rightarrow>
                  map_option (\<lambda>r. case r of Inl e \<Rightarrow> Inl e | Inr st' \<Rightarrow> Inr (False, st'))
                    (catch_exception uc (snd (fails ERR_ROUTE_FAILED ''Routing request failed'' st)))
              | Inr (True, st) \<Rightarrow>
                  (case plugin_hook uc ''routershutdown'' (fix_default_st st) of
                     None \<Rightarrow> None
                   | Some (Inl e) \<Rightarrow> Some (Inl e)
                   | Some (Inr (False, st)) \<Rightarrow> Some (Inr (False, st))
                   | Some (Inr (True, st)) \<Rightarrow>
                       Some (Inr (True, on_rq (yaf_request_set_routed True) st))))))"

definition yaf_dispatcher_dispatch :: "user_code \<Rightarrow> app_state \<Rightarrow> (mem_error + (bool \<times> app_state)) option" where
  \<comment> \<open>true where the response is returned, false where null is\<close>
  "yaf_dispatcher_dispatch uc st =
     (let nesting = ucast (g_forward_limit (rt_g (as_rt st))) :: 32 word;
          st = st\<lparr>as_rp := yaf_response_instance (uc_sapi uc)\<rparr>
      in if \<not> dp_has_request (as_dp st)
         then Some (Inr (fails ERR_TYPE_ERROR ''Expect a Yaf_Request_Abstract instance'' st))
         else
           (case dispatch_route uc st of
              None \<Rightarrow> None
            | Some (Inl e) \<Rightarrow> Some (Inl e)
            | Some (Inr (False, st)) \<Rightarrow> Some (Inr (False, st))
            | Some (Inr (True, st)) \<Rightarrow>
                (case plugin_hook uc ''dispatchloopstartup'' st of
                   None \<Rightarrow> None
                 | Some (Inl e) \<Rightarrow> Some (Inl e)
                 | Some (Inr (False, st)) \<Rightarrow> Some (Inr (False, st))
                 | Some (Inr (True, st)) \<Rightarrow>
                     (case yaf_dispatcher_init_view None None st of
                        (None, st) \<Rightarrow> Some (Inr (False, st))
                      | (Some _, st) \<Rightarrow>
                          (case dispatch_loop uc nesting st of
                             None \<Rightarrow> None
                           | Some (Inl e) \<Rightarrow> Some (Inl e)
                           | Some (Inr (_, Stopped st)) \<Rightarrow> Some (Inr (False, st))
                           | Some (Inr (n, Went st)) \<Rightarrow> dispatch_finish uc n st)))))"

end
