(* ===== verification/Yaf_Application.thy ===== *)
theory Yaf_Application
  imports Yaf_Config_Read Yaf_Dispatcher
begin

text \<open>
  The application (\<open>yaf_application.c\<close>): the options of the configuration and the module
  globals they set, the constructor that makes the configuration, the request, the dispatcher
  and the loader, the bootstrap class with its \<open>_init\<close> methods, running, and the last error.
\<close>

section \<open>INI directives\<close>

definition ini_bool :: "string \<Rightarrow> bool" where
  \<comment> \<open>\<open>OnUpdateBool\<close>; a number is cut to the byte it is stored in\<close>
  "ini_bool s =
     (if zend_str_tolower s = ''on'' \<or> zend_str_tolower s = ''yes'' \<or> zend_str_tolower s = ''true'' then True
      else strtol 10 (cstr s) AND 255 \<noteq> 0)"

definition ini_long_ge_zero :: "string \<Rightarrow> zlong \<Rightarrow> zlong" where
  \<comment> \<open>\<open>OnUpdateLongGEZero\<close>: a negative value leaves the old one\<close>
  "ini_long_ge_zero s old = (let n = zend_atol s in if n <s 0 then old else n)"

definition zend_alter_ini_entry :: "string \<Rightarrow> string \<Rightarrow> yaf_globals \<Rightarrow> yaf_globals" where
  \<comment> \<open>the directives of the extension a script may change\<close>
  "zend_alter_ini_entry name v g =
     (if name = ''yaf.library'' then g\<lparr>g_global_library := v\<rparr>
      else if name = ''yaf.action_prefer'' then g\<lparr>g_action_prefer := ini_bool v\<rparr>
      else if name = ''yaf.lowcase_path'' then g\<lparr>g_lowcase_path := ini_bool v\<rparr>
      else if name = ''yaf.use_spl_autoload'' then g\<lparr>g_use_spl_autoload := ini_bool v\<rparr>
      else if name = ''yaf.forward_limit'' then g\<lparr>g_forward_limit := ini_long_ge_zero v (g_forward_limit g)\<rparr>
      else if name = ''yaf.name_suffix'' then g\<lparr>g_name_suffix := ini_bool v\<rparr>
      else if name = ''yaf.name_separator'' then g\<lparr>g_name_separator := v\<rparr>
      else if name = ''yaf.st_compatible'' then g\<lparr>g_st_compatible := ini_bool v\<rparr>
      else g)"

definition system_name :: "string \<Rightarrow> string" where
  \<comment> \<open>the name of a directive, in a buffer of 128 bytes\<close>
  "system_name key = take 127 (''yaf.'' @ cstr key)"

fun system_entries :: "zval htab \<Rightarrow> yaf_globals \<Rightarrow> mem_error + yaf_globals" where
  \<comment> \<open>the loop over \<open>system\<close>; an element without a text key has a null pointer for its name\<close>
  "system_entries [] g = Inr g"
| "system_entries ((KInt i, v) # h) g = Inl NullDeref"
| "system_entries ((KStr k, v) # h) g =
     system_entries h (zend_alter_ini_entry (system_name k) (zval_get_string v) g)"

section \<open>Options\<close>

definition str_option :: "zval htab \<Rightarrow> string \<Rightarrow> string option" where
  "str_option h name = (case hfind h (KStr name) of Some (ZString s) \<Rightarrow> Some s | _ \<Rightarrow> None)"

definition arr_option :: "zval htab \<Rightarrow> string \<Rightarrow> zval htab option" where
  "arr_option h name = (case hfind h (KStr name) of Some (ZArray a) \<Rightarrow> Some a | _ \<Rightarrow> None)"

definition set_option :: "('v \<Rightarrow> yaf_globals \<Rightarrow> yaf_globals) \<Rightarrow> 'v option \<Rightarrow> yaf_globals \<Rightarrow> yaf_globals" where
  "set_option f v g = (case v of Some x \<Rightarrow> f x g | None \<Rightarrow> g)"

definition app_directory :: "string \<Rightarrow> string" where
  \<comment> \<open>of a string that is not empty: one slash at the end is dropped\<close>
  "app_directory s = (if last s = SLASH then butlast s else s)"

definition library_directory :: "string \<Rightarrow> string" where
  \<comment> \<open>the byte tested is the terminator\<close>
  "library_directory s = (if (s @ [NUL]) ! length s = SLASH then butlast s else s)"

definition namespace_text :: "string \<Rightarrow> string" where
  "namespace_text s = concat (map (\<lambda>c. if c = CHR '','' then '':'' else if c = CHR '' '' then [] else [c]) s)"

definition library_options :: "zval \<Rightarrow> yaf_globals \<Rightarrow> yaf_globals" where
  "library_options v g =
     (case v of
        ZString s \<Rightarrow> g\<lparr>g_local_library := Some (library_directory s)\<rparr>
      | ZArray h \<Rightarrow>
          set_option (\<lambda>ns g. if ns = [] then g else yaf_loader_register_namespace_single (namespace_text ns) g)
            (str_option h ''namespace'')
            (set_option (\<lambda>d g. g\<lparr>g_local_library := Some (library_directory d)\<rparr>) (str_option h ''directory'') g)
      | _ \<Rightarrow> g)"

definition dispatcher_options :: "zval htab \<Rightarrow> yaf_globals \<Rightarrow> yaf_globals" where
  "dispatcher_options h g =
     set_option (\<lambda>r g. case r of ZArray _ \<Rightarrow> g\<lparr>g_default_route := Some r\<rparr> | _ \<Rightarrow> g) (hfind h (KStr ''defaultRoute''))
       (set_option (\<lambda>v g. g\<lparr>g_catch_exception := zend_is_true v\<rparr>) (hfind h (KStr ''catchException''))
         (set_option (\<lambda>v g. g\<lparr>g_throw_exception := zend_is_true v\<rparr>) (hfind h (KStr ''throwException''))
           (set_option (\<lambda>s g. g\<lparr>g_default_action := zend_str_tolower s\<rparr>) (str_option h ''defaultAction'')
             (set_option (\<lambda>s g. g\<lparr>g_default_controller := ucfirst (zend_str_tolower s)\<rparr>) (str_option h ''defaultController'')
               (set_option (\<lambda>s g. g\<lparr>g_default_module := ucfirst (zend_str_tolower s)\<rparr>)
                 (str_option h ''defaultModule'') g)))))"

definition module_table :: "string list \<Rightarrow> zval htab" where
  "module_table names = foldl (\<lambda>h s. happend (ZString s) h) [] names"

definition module_options :: "zval htab \<Rightarrow> yaf_globals \<Rightarrow> yaf_globals" where
  "module_options h g =
     g\<lparr>g_modules := ZArray (case str_option h ''modules'' of
          Some s \<Rightarrow> if s = [] then module_table [g_default_module g]
                    else module_table (map ucfirst (strtok_all '','' (Some (cstr s))))
        | None \<Rightarrow> module_table [g_default_module g])\<rparr>"

definition plain_options :: "zval htab \<Rightarrow> yaf_globals \<Rightarrow> yaf_globals" where
  \<comment> \<open>everything between the directory and the modules\<close>
  "plain_options h g =
     set_option dispatcher_options (arr_option h ''dispatcher'')
       (set_option (\<lambda>s g. g\<lparr>g_base_uri := Some s\<rparr>) (str_option h ''baseUri'')
         (set_option (\<lambda>a. set_option (\<lambda>s g. g\<lparr>g_view_ext := s\<rparr>) (str_option a ''ext'')) (arr_option h ''view'')
           (set_option library_options (hfind h (KStr ''library''))
             (set_option (\<lambda>s g. g\<lparr>g_bootstrap := Some s\<rparr>) (str_option h ''bootstrap'')
               (set_option (\<lambda>s g. g\<lparr>g_ext := s\<rparr>) (str_option h ''ext'') g)))))"

definition application_options :: "zval htab \<Rightarrow> zval option" where
  "application_options conf =
     (case hfind conf (KStr ''application'') of Some v \<Rightarrow> Some v | None \<Rightarrow> hfind conf (KStr ''yaf''))"

definition yaf_application_parse_option :: "zval htab \<Rightarrow> php_rt \<Rightarrow> mem_error + (bool \<times> php_rt)" where
  "yaf_application_parse_option conf rt =
     (case application_options conf of
        Some (ZArray app) \<Rightarrow>
          (case str_option app ''directory'' of
             Some d \<Rightarrow>
               if d = [] then Inr (False, yaf_trigger_error ERR_STARTUP_FAILED
                 ''Expected a directory entry in application configures'' rt)
               else
                 (let g = module_options app (plain_options app ((rt_g rt)\<lparr>g_directory := Some (app_directory d)\<rparr>))
                  in case (case arr_option app ''system'' of Some h \<Rightarrow> system_entries h g | None \<Rightarrow> Inr g) of
                       Inl e \<Rightarrow> Inl e
                     | Inr g' \<Rightarrow> Inr (True, rt\<lparr>rt_g := g'\<rparr>))
           | None \<Rightarrow> Inr (False, yaf_trigger_error ERR_STARTUP_FAILED
               ''Expected a directory entry in application configures'' rt))
      | _ \<Rightarrow> Inr (False, yaf_trigger_error ERR_TYPE_ERROR ''Expected an array of application configure'' rt))"

section \<open>Construction\<close>

text \<open>
  Before there is an application there may be a dispatcher and a loader already, the static
  instances of their classes.  The outside of the construction is the files of the
  configuration, the parser of URLs and the server.
\<close>

record world =
  w_dispatcher :: "yaf_dispatcher option"
  w_request :: "yaf_request option"
  w_loader :: "yaf_loader option"
  w_rt :: php_rt

record outside =
  out_files :: "string \<Rightarrow> ini_file"
  out_url_parse :: "string \<Rightarrow> parsed_url"
  out_sapi :: sapi_info

definition w_fails :: "string \<Rightarrow> world \<Rightarrow> mem_error + (bool \<times> world)" where
  "w_fails msg w = Inr (False, w\<lparr>w_rt := yaf_trigger_error ERR_STARTUP_FAILED msg (w_rt w)\<rparr>)"

definition config_section :: "zval option \<Rightarrow> yaf_globals \<Rightarrow> zval" where
  \<comment> \<open>the section that is read: the argument, or the environment's\<close>
  "config_section section g =
     (case section of
        Some (ZString s) \<Rightarrow> if s = [] then ZString (cstr (g_environ_name g)) else ZString s
      | _ \<Rightarrow> ZString (cstr (g_environ_name g)))"

definition construct_loader :: "world \<Rightarrow> world" where
  \<comment> \<open>with a library directory, the application's own by default\<close>
  "construct_loader w =
     (let g = rt_g (w_rt w);
          local = (case g_local_library g of
             Some l \<Rightarrow> l
           | None \<Rightarrow> cstr (case g_directory g of Some d \<Rightarrow> d | None \<Rightarrow> []) @ ''/library'');
          global = (if cstr (g_global_library g) = [] then None else Some (cstr (g_global_library g)));
          (l, rt) = yaf_loader_instance (w_loader w) (Some local) global (w_rt w)
      in w\<lparr>w_loader := l, w_rt := rt\<rparr>)"

definition construct_parts :: "yaf_request \<Rightarrow> world \<Rightarrow> world" where
  \<comment> \<open>the dispatcher, which gets the request, and the loader\<close>
  "construct_parts rq w =
     (let (dp, rt) = yaf_dispatcher_instance None (w_rt w)
      in construct_loader (w\<lparr>w_rt := rt, w_request := Some rq,
           w_dispatcher := Some (dp\<lparr>dp_has_request := True\<rparr>)\<rparr>))"

definition new_application :: "zval \<Rightarrow> yaf_globals \<Rightarrow> yaf_application" where
  \<comment> \<open>\<open>app_config\<close> is the array in the configuration object\<close>
  "new_application config g =
     \<lparr>app_config = config, app_running = False, app_environ = cstr (g_environ_name g),
      app_modules = (case g_modules g of ZArray h \<Rightarrow> ZArray h | _ \<Rightarrow> ZNull), app_err_no = 0, app_err_msg = []\<rparr>"

definition application_construct ::
    "outside \<Rightarrow> zval \<Rightarrow> zval option \<Rightarrow> world \<Rightarrow> mem_error + (bool \<times> world)" where
  \<comment> \<open>\<open>yaf_dispatcher_instance\<close> answers with a dispatcher that is there already and leaves its
      argument as it is, while the answer is not looked at\<close>
  "application_construct ou config section w =
     (let rt = w_rt w
      in if rt_app rt \<noteq> None then w_fails ''Only one application can be initialized'' w
         else case yaf_config_instance (out_files ou) config (Some (config_section section (rt_g rt))) rt of
                Inl e \<Rightarrow> Inl e
              | Inr (None, rt) \<Rightarrow> w_fails ''Initialization of application config failed'' (w\<lparr>w_rt := rt\<rparr>)
              | Inr (Some cf, rt) \<Rightarrow>
                  (case cf_config cf of
                     ZArray conf \<Rightarrow>
                       (case yaf_application_parse_option conf rt of
                          Inl e \<Rightarrow> Inl e
                        | Inr (False, rt) \<Rightarrow>
                            w_fails ''Initialization of application config failed'' (w\<lparr>w_rt := rt\<rparr>)
                        | Inr (True, rt) \<Rightarrow>
                            (case yaf_request_instance (out_url_parse ou) (out_sapi ou) rt (g_base_uri (rt_g rt)) of
                               Inl e \<Rightarrow> Inl e
                             | Inr rq \<Rightarrow>
                                 if w_dispatcher w \<noteq> None
                                 then w_fails ''Instantiation of application dispatcher failed'' (w\<lparr>w_rt := rt\<rparr>)
                                 else
                                   (let w = construct_parts rq (w\<lparr>w_rt := rt\<rparr>)
                                    in Inr (True, w\<lparr>w_rt := (w_rt w)\<lparr>rt_app :=
                                         Some (new_application (cf_config cf) (rt_g (w_rt w)))\<rparr>\<rparr>))))
                   | _ \<Rightarrow> Inl NullDeref))"

definition application_destruct :: "php_rt \<Rightarrow> php_rt" where
  \<comment> \<open>of any object of the class\<close>
  "application_destruct rt = rt\<lparr>rt_app := None\<rparr>"

definition world_state :: "yaf_response \<Rightarrow> sapi_out \<Rightarrow> world \<Rightarrow> app_state option" where
  \<comment> \<open>what the methods of a constructed application work on\<close>
  "world_state rp out w =
     (case (w_dispatcher w, w_request w) of
        (Some dp, Some rq) \<Rightarrow> Some \<lparr>as_dp = dp, as_rq = rq, as_rp = rp, as_out = out, as_rt = w_rt w\<rparr>
      | _ \<Rightarrow> None)"

section \<open>Running\<close>

datatype run_answer = RunTrue | RunFalse | RunResponse

definition set_running :: "bool \<Rightarrow> php_rt \<Rightarrow> php_rt" where
  "set_running b rt = rt\<lparr>rt_app := map_option (\<lambda>a. a\<lparr>app_running := b\<rparr>) (rt_app rt)\<rparr>"

definition application_run :: "user_code \<Rightarrow> app_state \<Rightarrow> (mem_error + (run_answer \<times> app_state)) option" where
  \<comment> \<open>of the object that is the static instance; one that was not constructed to its end has null
      for its dispatcher\<close>
  "application_run uc st =
     (case rt_app (as_rt st) of
        None \<Rightarrow> Some (Inl WildRead)
      | Some app \<Rightarrow>
          if app_running app
          then Some (Inr (RunTrue, on_rt (yaf_trigger_error ERR_STARTUP_FAILED
                 ''An application instance already run'') st))
          else map_option (map_sum id (map_prod (\<lambda>b. if b then RunResponse else RunFalse) id))
                 (yaf_dispatcher_dispatch uc (on_rt (set_running True) st)))"

definition application_execute ::
    "(app_state \<Rightarrow> zval \<times> app_state) \<Rightarrow> app_state \<Rightarrow> zval \<times> app_state" where
  \<comment> \<open>of a function of the user\<close>
  "application_execute f st =
     (case user_call f st of (v, st') \<Rightarrow> (if v = ZUndef then ZFalse else v, st'))"

section \<open>Bootstrapping\<close>

definition is_init_method :: "string \<Rightarrow> bool" where
  "is_init_method name \<longleftrightarrow> strncasecmp0 (cstr name) ''_init'' 5"

fun bootstrap_loop :: "user_code \<Rightarrow> php_class \<Rightarrow> zval \<Rightarrow> string list \<Rightarrow> app_state \<Rightarrow> bool \<times> app_state" where
  "bootstrap_loop uc ce dpz [] st = (True, st)"
| "bootstrap_loop uc ce dpz (f # fs) st =
     (if \<not> is_init_method f then bootstrap_loop uc ce dpz fs st
      else (let (_, st') = user_call (uc_call uc ce f [dpz]) st
            in if throws st' then (False, st') else bootstrap_loop uc ce dpz fs st'))"

definition bootstrap_path :: "yaf_globals \<Rightarrow> mem_error + string" where
  "bootstrap_path g =
     (case g_bootstrap g of
        Some p \<Rightarrow> Inr p
      | None \<Rightarrow>
          (case g_directory g of
             None \<Rightarrow> Inl NullDeref
           | Some d \<Rightarrow> Inr (cstr d @ ''/Bootstrap.'' @ cstr (g_ext g))))"

definition bootstrap_class :: "user_code \<Rightarrow> app_state \<Rightarrow> mem_error + (php_class option \<times> app_state)" where
  \<comment> \<open>a class of that name that is there already is not tested\<close>
  "bootstrap_class uc st =
     (case class_find (as_rt st) ''bootstrap'' of
        Some ce \<Rightarrow> Inr (Some ce, st)
      | None \<Rightarrow>
          (case bootstrap_path (rt_g (as_rt st)) of
             Inl e \<Rightarrow> Inl e
           | Inr path \<Rightarrow>
               (let (ok, rt) = uc_import uc path (as_rt st);
                    st = st\<lparr>as_rt := rt\<rparr>;
                    warn = (\<lambda>msg. Inr (None, on_rt (php_error_docref (EWarning msg)) st))
                in if \<not> ok then warn (''Couldn't find bootstrap file '' @ cstr path)
                   else case class_find rt ''bootstrap'' of
                          None \<Rightarrow> warn (''Couldn't find class Bootstrap in '' @ cstr path)
                        | Some ce \<Rightarrow>
                            if instanceof_function ce ''Yaf_Bootstrap_Abstract'' then Inr (Some ce, st)
                            else warn (''Expect a Yaf_Bootstrap_Abstract instance, '' @ cl_name ce @ '' give''))))"

definition application_bootstrap :: "user_code \<Rightarrow> zval \<Rightarrow> app_state \<Rightarrow> mem_error + (bool \<times> app_state)" where
  \<comment> \<open>\<open>dpz\<close> is the dispatcher object the methods get\<close>
  "application_bootstrap uc dpz st =
     (case bootstrap_class uc st of
        Inl e \<Rightarrow> Inl e
      | Inr (None, st) \<Rightarrow> Inr (False, st)
      | Inr (Some ce, st) \<Rightarrow> Inr (bootstrap_loop uc ce dpz (map fst (cl_methods ce)) st))"

section \<open>The other methods\<close>

definition application_environ :: "php_rt \<Rightarrow> string option" where
  "application_environ rt = map_option app_environ (rt_app rt)"

definition application_getModules :: "php_rt \<Rightarrow> zval option" where
  "application_getModules rt = map_option app_modules (rt_app rt)"

definition application_getConfig :: "php_rt \<Rightarrow> zval option" where
  "application_getConfig rt = map_option app_config (rt_app rt)"

definition application_getLastErrorNo :: "php_rt \<Rightarrow> zlong option" where
  "application_getLastErrorNo rt = map_option app_err_no (rt_app rt)"

definition application_getLastErrorMsg :: "php_rt \<Rightarrow> string option" where
  "application_getLastErrorMsg rt = map_option app_err_msg (rt_app rt)"

definition application_clearLastError :: "php_rt \<Rightarrow> php_rt" where
  "application_clearLastError rt =
     rt\<lparr>rt_app := map_option (\<lambda>a. a\<lparr>app_err_no := 0, app_err_msg := []\<rparr>) (rt_app rt)\<rparr>"

definition application_setAppDirectory :: "string \<Rightarrow> php_rt \<Rightarrow> mem_error + (bool \<times> php_rt)" where
  \<comment> \<open>the old directory is released without a test\<close>
  "application_setAppDirectory d rt =
     (if chd d \<noteq> SLASH then Inr (False, rt)
      else case g_directory (rt_g rt) of
             None \<Rightarrow> Inl NullDeref
           | Some _ \<Rightarrow> Inr (True, rt\<lparr>rt_g := (rt_g rt)\<lparr>g_directory := Some d\<rparr>\<rparr>))"

definition application_getAppDirectory :: "php_rt \<Rightarrow> mem_error + string" where
  "application_getAppDirectory rt =
     (case g_directory (rt_g rt) of None \<Rightarrow> Inl NullDeref | Some d \<Rightarrow> Inr d)"

section \<open>The modules of an application\<close>

lemma sint_of_nat64: "n < 2 ^ 63 \<Longrightarrow> sint (word_of_nat n :: zlong) = int n"
  by (simp add: signed_of_nat signed_take_bit_int_eq_self)

lemma hnext_free_upt:
  "m < n \<Longrightarrow> n < 2 ^ 62 \<Longrightarrow> hnext_free (map (\<lambda>i. (KInt (word_of_nat i), f i)) [m..<n]) = word_of_nat n"
proof (induction "n - m" arbitrary: m)
  case (Suc d)
  show ?case
  proof (cases "Suc m = n")
    case True
    then have "word_of_nat m + 1 = (word_of_nat n :: zlong)" by (simp flip: True)
    with True Suc.prems show ?thesis by (simp add: upt_conv_Cons sint_of_nat64)
  next
    case False
    with Suc have "hnext_free (map (\<lambda>i. (KInt (word_of_nat i), f i)) [Suc m..<n]) = word_of_nat n" by simp
    with Suc.prems show ?thesis by (simp add: upt_conv_Cons sint_of_nat64)
  qed
qed simp

lemma module_table_eq:
  assumes "length names < 2 ^ 62"
  shows "module_table names = map (\<lambda>i. (KInt (word_of_nat i), ZString (names ! i))) [0..<length names]"
  using assms
proof (induction names rule: rev_induct)
  case (snoc s names)
  let ?n = "length names"
  let ?t = "map (\<lambda>i. (KInt (word_of_nat i :: zlong), ZString (names ! i))) [0..<?n]"
  have free: "hnext_free ?t = word_of_nat ?n"
    using snoc.prems hnext_free_upt [of 0 ?n] by (cases "?n = 0") auto
  have "hfind ?t (KInt (word_of_nat ?n)) = None"
  proof -
    have d: "(word_of_nat i :: zlong) \<noteq> word_of_nat ?n" if "i < ?n" for i
    proof
      assume "(word_of_nat i :: zlong) = word_of_nat ?n"
      then have "sint (word_of_nat i :: zlong) = sint (word_of_nat ?n :: zlong)" by (rule arg_cong)
      with that snoc.prems show False by (simp add: sint_of_nat64)
    qed
    have "KInt (word_of_nat ?n) \<notin> (\<lambda>i. KInt (word_of_nat i)) ` {0..<?n}"
    proof
      assume "KInt (word_of_nat ?n) \<in> (\<lambda>i. KInt (word_of_nat i)) ` {0..<?n}"
      then obtain i where "KInt (word_of_nat ?n) = KInt (word_of_nat i)" "i \<in> {0..<?n}" by (rule imageE)
      with d [of i] show False by (simp only: zkey.inject atLeastLessThan_iff) metis
    qed
    then have "KInt (word_of_nat ?n) \<notin> fst ` set ?t"
      by (simp only: set_map image_image fst_conv set_upt not_False_eq_True)
    then show ?thesis unfolding hfind_def map_of_eq_None_iff .
  qed
  then have "happend (ZString s) ?t = ?t @ [(KInt (word_of_nat ?n), ZString s)]"
    by (simp add: happend_def free hexists_def)
  moreover have "module_table names = ?t" using snoc by simp
  ultimately show ?case
    by (simp add: module_table_def nth_append cong: map_cong)
qed (simp add: module_table_def)

lemma module_table_names:
  assumes "length names < 2 ^ 62"
  shows "map snd (module_table names) = map ZString names"
  unfolding module_table_eq [OF assms] by (rule nth_equalityI) simp_all

end
