(* ===== verification/Yaf_Dispatch.thy ===== *)
theory Yaf_Dispatch
  imports Yaf_Dispatcher
begin

text \<open>
  What the dispatcher guarantees: the normal form of the names it dispatches, the arguments of
  an action, the checks before any code of the application runs, the bound on the dispatch
  loop, a forward that never ends, and the way of an exception to the error controller.
\<close>

section \<open>Names\<close>

lemma upper_words_lower [simp]: "zend_str_tolower (upper_words s) = zend_str_tolower s"
  by (induction s rule: upper_words.induct) (simp_all add: zend_str_tolower_def)

lemma ucfirst_lower [simp]: "zend_str_tolower (ucfirst s) = zend_str_tolower s"
  by (cases s) (simp_all add: zend_str_tolower_def ucfirst_def)

lemma length_upper_words [simp]: "length (upper_words s) = length s"
  by (metis length_zend_str_tolower upper_words_lower)

lemma upper_words_empty [simp]: "upper_words s = [] \<longleftrightarrow> s = []"
  by (metis length_0_conv length_upper_words)

lemma ucfirst_empty [simp]: "ucfirst s = [] \<longleftrightarrow> s = []"
  by (metis length_0_conv length_ucfirst)

lemma tolower_empty [simp]: "zend_str_tolower s = [] \<longleftrightarrow> s = []"
  by (simp add: zend_str_tolower_def)



lemma form_nonempty [simp]: "module_form s = [] \<longleftrightarrow> s = []" "controller_form s = [] \<longleftrightarrow> s = []"
  by (simp_all add: module_form_def controller_form_def)

lemma nonempty_string_ZString [simp]: "nonempty_string (ZString s) = (if s = [] then None else Some s)"
  by (simp add: nonempty_string_def)







definition sample_dp :: yaf_dispatcher where
  "sample_dp = fst (yaf_dispatcher_new sample_rt)"

lemma sample_dp_eq:
  "sample_dp =
     \<lparr>dp_router = BuiltinRouter (fst (yaf_router_instance sample_rt)), dp_view = None, dp_plugins = [],
      dp_has_request = False, dp_auto_render = True, dp_return_response = False,
      dp_instantly_flush = False, dp_module = ZString ''Index'', dp_controller = ZString ''Index'',
      dp_action = ZString ''index''\<rparr>"
  by (simp add: sample_dp_def yaf_dispatcher_new_def sample_rt_def yaf_rinit_def split: prod.splits)



text \<open>A default set through the API is only raised at its first letter.\<close>

lemma default_controller_changes:
  "case dispatcher_setDefaultController (ZString ''foo_bar'') sample_dp of
     (ok, dp) \<Rightarrow>
       let rq = yaf_dispatcher_fix_default dp yaf_request_init
       in ok \<and> rq_controller rq = ZString ''Foo_bar''
          \<and> rq_controller (yaf_dispatcher_fix_default dp rq) = ZString ''Foo_Bar''"
  by code_simp

section \<open>Arguments\<close>

lemma call_slots_map: "params \<noteq> [] \<Longrightarrow> call_slots params names = map (\<lambda>n. hfind params (KStr n)) names"
  by (induction names) (auto split: option.splits)

lemma call_slots_empty: "call_slots [] names = []"
  by (cases names) simp_all

lemma filter_takeWhile_prefix:
  "\<not> (\<exists>i j. i < j \<and> j < length xs \<and> \<not> P (xs ! i) \<and> P (xs ! j)) \<Longrightarrow> filter P xs = takeWhile P xs"
proof (induction xs)
  case (Cons x xs)
  show ?case
  proof (cases "P x")
    case True
    have "\<not> (\<exists>i j. i < j \<and> j < length xs \<and> \<not> P (xs ! i) \<and> P (xs ! j))"
      using Cons.prems by (metis Suc_less_eq length_Cons nth_Cons_Suc)
    with True Cons.IH show ?thesis by simp
  next
    case False
    have "\<not> P y" if "y \<in> set xs" for y
      using that Cons.prems False by (metis Suc_less_eq in_set_conv_nth length_Cons nth_Cons_0 nth_Cons_Suc zero_less_Suc)
    with False show ?thesis by simp
  qed
qed simp

lemma hole_in_take:
  assumes "i < j" "j < length xs" "\<not> P (xs ! i)" "P (xs ! j)"
  shows "\<exists>x \<in> set (take (length (filter P xs)) xs). \<not> P x"
proof (rule ccontr)
  define n where n: "n = length (filter P xs)"
  assume "\<not> ?thesis"
  then have all: "\<forall>x \<in> set (take n xs). P x" unfolding n by blast
  have le: "n \<le> length xs" by (simp add: n)
  have "length (filter P (take n xs)) = n"
    unfolding filter_True [OF all] using le by simp
  moreover have "n = length (filter P (take n xs)) + length (filter P (drop n xs))"
    unfolding n by (metis append_take_drop_id filter_append length_append)
  ultimately have none: "filter P (drop n xs) = []" by simp
  have "i < n"
  proof (rule ccontr)
    assume "\<not> i < n"
    then have "drop n xs ! (j - n) = xs ! j" "j - n < length (drop n xs)"
      using assms(1,2) le by simp_all
    then have "xs ! j \<in> set (drop n xs)" by (metis nth_mem)
    with none assms(4) show False by (simp add: filter_empty_conv)
  qed
  then have "take n xs ! i = xs ! i" "i < length (take n xs)"
    using assms(1,2) le by simp_all
  then have "xs ! i \<in> set (take n xs)" by (metis nth_mem)
  with all assms(3) show False by blast
qed

definition arg_hole :: "zval htab \<Rightarrow> string list \<Rightarrow> bool" where
  \<comment> \<open>a parameter of the action is missing in the request while a later one is there\<close>
  "arg_hole params names \<longleftrightarrow>
     (\<exists>i j. i < j \<and> j < length names \<and>
        hfind params (KStr (names ! i)) = None \<and> hfind params (KStr (names ! j)) \<noteq> None)"

text \<open>
  C26: An action is called with the values the request has for its leading parameters, in the
  order of the parameters, up to the first one the request does not have; but if the request
  has a later parameter while an earlier one is missing, a slot nothing was stored in is
  passed.
\<close>

theorem call_args_leading:
  "call_args params names =
     (if arg_hole params names then Inl WildRead
      else Inr (map the (takeWhile (\<lambda>v. v \<noteq> None) (map (\<lambda>n. hfind params (KStr n)) names))))"
proof (cases "params = []")
  case True
  then show ?thesis
    by (cases names)
      (simp_all add: call_args_def yaf_dispatcher_get_call_parameters_def call_slots_empty arg_hole_def)
next
  case False
  let ?xs = "map (\<lambda>n. hfind params (KStr n)) names"
  let ?n = "length (filter (\<lambda>v. v \<noteq> None) ?xs)"
  have args: "call_args params names =
      (if None \<in> set (take ?n ?xs) then Inl WildRead else Inr (map the (take ?n ?xs)))"
    by (simp only: call_args_def yaf_dispatcher_get_call_parameters_def call_slots_map [OF False]
        Let_def split_conv)
  have hole: "arg_hole params names \<longleftrightarrow>
      (\<exists>i j. i < j \<and> j < length ?xs \<and> \<not> ?xs ! i \<noteq> None \<and> ?xs ! j \<noteq> None)"
    unfolding arg_hole_def length_map by (intro ex_cong1 conj_cong refl) simp_all
  show ?thesis
  proof (cases "arg_hole params names")
    case True
    then have "None \<in> set (take ?n ?xs)"
      unfolding hole by (metis (mono_tags, lifting) hole_in_take)
    with True show ?thesis by (simp only: args if_True)
  next
    case no: False
    then have eq: "filter (\<lambda>v. v \<noteq> None) ?xs = takeWhile (\<lambda>v. v \<noteq> None) ?xs"
      unfolding hole by (rule filter_takeWhile_prefix)
    have "take ?n ?xs = takeWhile (\<lambda>v. v \<noteq> None) ?xs"
      unfolding eq by (metis takeWhile_eq_take)
    moreover have "None \<notin> set (takeWhile (\<lambda>v. v \<noteq> None) ?xs)"
      by (metis (mono_tags, lifting) set_takeWhileD)
    ultimately show ?thesis using no by (simp only: args if_False)
  qed
qed

section \<open>The loop\<close>

fun dispatch_iter :: "user_code \<Rightarrow> nat \<Rightarrow> app_state \<Rightarrow> app_state option" where
  \<comment> \<open>so many turns of the loop that all go on\<close>
  "dispatch_iter uc 0 st = Some st"
| "dispatch_iter uc (Suc k) st =
     (case dispatch_once uc st of
        Some (Inr (Went st')) \<Rightarrow> dispatch_iter uc k st'
      | _ \<Rightarrow> None)"

definition loop_limit :: "32 word \<Rightarrow> nat" where
  \<comment> \<open>a limit of zero is counted down to the largest number first\<close>
  "loop_limit n = (if n = 0 then 2 ^ 32 else unat n)"

definition loop_turns ::
    "user_code \<Rightarrow> 32 word \<Rightarrow> app_state \<Rightarrow> nat \<Rightarrow> app_state \<Rightarrow> bool" where
  \<comment> \<open>the loop ends after \<open>k\<close> turns: at the first one behind which the request is dispatched, or
      at the limit\<close>
  "loop_turns uc n st k st' \<longleftrightarrow>
     0 < k \<and> k \<le> loop_limit n \<and> dispatch_iter uc k st = Some st' \<and>
     (k = loop_limit n \<or> yaf_request_is_dispatched (as_rq st')) \<and>
     (\<forall>j s. 0 < j \<and> j < k \<and> dispatch_iter uc j st = Some s \<longrightarrow>
        \<not> yaf_request_is_dispatched (as_rq s))"

lemma loop_limit_Suc: "loop_limit n = Suc (unat (n - 1))"
proof (cases "n = 0")
  case True
  then show ?thesis by (simp add: loop_limit_def unsigned_minus_1_eq_mask mask_eq_exp_minus_1)
next
  case False
  then show ?thesis by (simp add: loop_limit_def unat_minus_one unat_gt_0)
qed

lemma loop_turns_Suc:
  assumes "dispatch_once uc st = Some (Inr (Went s1))"
  shows "loop_turns uc n st (Suc k) st' \<longleftrightarrow>
    (if k = 0 then st' = s1 \<and> (n - 1 = 0 \<or> yaf_request_is_dispatched (as_rq s1))
     else n - 1 \<noteq> 0 \<and> \<not> yaf_request_is_dispatched (as_rq s1) \<and> loop_turns uc (n - 1) s1 k st')"
    (is "?l \<longleftrightarrow> ?r")
proof (cases "k = 0")
  case True
  then show ?thesis
    using assms by (auto simp: loop_turns_def loop_limit_Suc unat_eq_0)
next
  case False
  have iter: "dispatch_iter uc (Suc j) st = dispatch_iter uc j s1" for j
    using assms by simp
  have lim: "loop_limit n = Suc (loop_limit (n - 1))" if "n - 1 \<noteq> 0"
    using that by (simp add: loop_limit_Suc [of n]) (simp add: loop_limit_def)
  have zero: "loop_limit n = 1" if "n - 1 = 0"
    using that by (simp add: loop_limit_Suc)
  have inner: "(\<forall>j s. 0 < j \<and> j < Suc k \<and> dispatch_iter uc j st = Some s \<longrightarrow>
        \<not> yaf_request_is_dispatched (as_rq s)) \<longleftrightarrow>
      \<not> yaf_request_is_dispatched (as_rq s1) \<and>
      (\<forall>j s. 0 < j \<and> j < k \<and> dispatch_iter uc j s1 = Some s \<longrightarrow>
        \<not> yaf_request_is_dispatched (as_rq s))" (is "?a \<longleftrightarrow> ?b")
  proof
    assume a: ?a
    have "\<not> yaf_request_is_dispatched (as_rq s1)"
      using a [rule_format, of "Suc 0" s1] iter [of 0] False by simp
    moreover have "\<not> yaf_request_is_dispatched (as_rq s)"
      if "0 < j" "j < k" "dispatch_iter uc j s1 = Some s" for j s
      using a [rule_format, of "Suc j" s] iter [of j] that by simp
    ultimately show ?b by blast
  next
    assume b: ?b
    show ?a
    proof (intro allI impI)
      fix j s assume j: "0 < j \<and> j < Suc k \<and> dispatch_iter uc j st = Some s"
      then obtain i where i: "j = Suc i" by (cases j) auto
      show "\<not> yaf_request_is_dispatched (as_rq s)"
        using b j iter [of i] unfolding i by (cases "i = 0") auto
    qed
  qed
  show ?thesis
    using False lim zero
    by (cases "n - 1 = 0") (auto simp: loop_turns_def inner iter simp del: dispatch_iter.simps)
qed

lemma loop_turns_pred:
  "(\<exists>k. loop_turns uc n st k st' \<and> m = n - of_nat k) \<longleftrightarrow>
     (\<exists>k. loop_turns uc n st (Suc k) st' \<and> m = n - 1 - of_nat k)"
proof
  assume "\<exists>k. loop_turns uc n st k st' \<and> m = n - of_nat k"
  then obtain k where k: "loop_turns uc n st k st'" "m = n - of_nat k" by blast
  then obtain i where "k = Suc i" by (cases k) (auto simp: loop_turns_def)
  with k show "\<exists>k. loop_turns uc n st (Suc k) st' \<and> m = n - 1 - of_nat k"
    by (auto simp: algebra_simps)
next
  assume "\<exists>k. loop_turns uc n st (Suc k) st' \<and> m = n - 1 - of_nat k"
  then obtain k where "loop_turns uc n st (Suc k) st'" "m = n - of_nat (Suc k)"
    by (auto simp: algebra_simps)
  then show "\<exists>k. loop_turns uc n st k st' \<and> m = n - of_nat k" by blast
qed

text \<open>
  C1: The dispatch loop comes to its end exactly where its specification says: after the first
  turn that leaves the request dispatched, or after as many turns as the limit allows
  (\<open>yaf.forward_limit\<close>, which as zero allows $2^{32}$), with the counter lowered once for each turn.
\<close>

theorem dispatch_loop_refines:
  "dispatch_loop uc n st = Some (Inr (m, Went st')) \<longleftrightarrow>
     (\<exists>k. loop_turns uc n st k st' \<and> m = n - of_nat k)"
proof (induction "unat (n - 1)" arbitrary: n st rule: less_induct)
  case less
  show ?case
  proof (cases "\<exists>s1. dispatch_once uc st = Some (Inr (Went s1))")
    case no: False
    have "dispatch_loop uc n st \<noteq> Some (Inr (m, Went st'))"
      using no by (subst dispatch_loop.simps) (auto split: option.splits sum.splits step.splits)
    moreover have "\<not> loop_turns uc n st k st'" for k
      using no by (cases k) (auto simp: loop_turns_def split: option.splits sum.splits step.splits)
    ultimately show ?thesis by blast
  next
    case True
    then obtain s1 where s1: "dispatch_once uc st = Some (Inr (Went s1))" by blast
    note step = loop_turns_pred [of uc n st st' m]
    show ?thesis
    proof (cases "n - 1 \<noteq> 0 \<and> \<not> yaf_request_is_dispatched (as_rq s1)")
      case go: True
      then have "unat (n - 1 - 1) < unat (n - 1)" by (intro measure_unat) blast
      note IH = less [OF this, of s1]
      have "dispatch_loop uc n st = dispatch_loop uc (n - 1) s1"
        using s1 go by (subst dispatch_loop.simps) (simp add: Let_def word_gt_0)
      moreover have "loop_turns uc n st (Suc k) st' \<longleftrightarrow> loop_turns uc (n - 1) s1 k st'" for k
        unfolding loop_turns_Suc [OF s1] using go by (auto simp: loop_turns_def)
      ultimately show ?thesis unfolding step by (simp only: IH)
    next
      case stop: False
      have "dispatch_loop uc n st = Some (Inr (n - 1, Went s1))"
        using s1 stop by (subst dispatch_loop.simps) (auto simp: Let_def word_gt_0)
      moreover have "loop_turns uc n st (Suc k) st' \<longleftrightarrow> k = 0 \<and> st' = s1" for k
        unfolding loop_turns_Suc [OF s1] using stop by auto
      ultimately show ?thesis unfolding step by auto
    qed
  qed
qed

section \<open>The checks before the controller\<close>

definition handle_ready :: "app_state \<Rightarrow> bool" where
  \<comment> \<open>there is an application, the module is one of its modules, a controller is named\<close>
  "handle_ready st \<longleftrightarrow>
     g_directory (rt_g (as_rt st)) \<noteq> None \<and>
     (\<exists>m. nonempty_string (rq_module (as_rq st)) = Some m \<and> yaf_application_is_module_name (as_rt st) m) \<and>
     nonempty_string (rq_controller (as_rq st)) \<noteq> None"

lemma set_dispatched_frame [simp]:
  "rq_module (yaf_request_set_dispatched b rq) = rq_module rq"
  "rq_controller (yaf_request_set_dispatched b rq) = rq_controller rq"
  "rq_action (yaf_request_set_dispatched b rq) = rq_action rq"
  "rq_params (yaf_request_set_dispatched b rq) = rq_params rq"
  "yaf_request_is_dispatched (yaf_request_set_dispatched b rq) = b"
  "yaf_request_set_dispatched b (yaf_request_set_dispatched b' rq) = yaf_request_set_dispatched b rq"
  by (simp_all add: yaf_request_set_dispatched_def yaf_request_is_dispatched_def)

lemma on_simps [simp]:
  "as_rt (on_rt f st) = f (as_rt st)" "as_rq (on_rt f st) = as_rq st" "as_dp (on_rt f st) = as_dp st"
  "as_rp (on_rt f st) = as_rp st" "as_out (on_rt f st) = as_out st"
  "as_rq (on_rq g st) = g (as_rq st)" "as_rt (on_rq g st) = as_rt st" "as_dp (on_rq g st) = as_dp st"
  "as_rp (on_rq g st) = as_rp st" "as_out (on_rq g st) = as_out st"
  "throws (on_rq g st) = throws st"
  by (simp_all add: on_rt_def on_rq_def throws_def)

lemma prepare_refused:
  assumes "\<not> handle_ready st"
  shows "\<exists>e msg. e \<in> {ERR_STARTUP_FAILED, ERR_DISPATCH_FAILED, ERR_NOTFOUND_MODULE} \<and>
    handle_prepare uc st =
      Inr (Refused (on_rt (yaf_trigger_error e msg) (on_rq (yaf_request_set_dispatched True) st)))"
proof (cases "g_directory (rt_g (as_rt st))")
  case None
  then show ?thesis by (fastforce simp: handle_prepare_def Let_def)
next
  case (Some app)
  note dir = this
  show ?thesis
  proof (cases "nonempty_string (rq_module (as_rq st))")
    case None
    with dir show ?thesis by (fastforce simp: handle_prepare_def Let_def)
  next
    case (Some m)
    with dir assms show ?thesis
      by (cases "yaf_application_is_module_name (as_rt st) m")
        (fastforce simp: handle_prepare_def handle_ready_def Let_def)+
  qed
qed

text \<open>
  C7: Nothing of the application runs for a request that fails a check: if there is no
  application directory, the module is not registered, or no controller is named, handling
  answers false with the state as it was, but for the dispatched mark and one exception, of
  the class of the check; the user's code has no part in it.
\<close>

theorem handle_refused:
  assumes "\<not> handle_ready st" "g_throw_exception (rt_g (as_rt st))"
  shows "\<exists>e msg. e \<in> {ERR_STARTUP_FAILED, ERR_DISPATCH_FAILED, ERR_NOTFOUND_MODULE} \<and>
    yaf_dispatcher_handle uc st =
      Some (Inr (False, on_rt (\<lambda>rt. rt\<lparr>rt_exception :=
          Some (PhpExc (exception_base (err_code e)) (err_code e) msg (rt_exception rt))\<rparr>)
        (on_rq (yaf_request_set_dispatched True) st)))"
proof -
  obtain e msg where e: "e \<in> {ERR_STARTUP_FAILED, ERR_DISPATCH_FAILED, ERR_NOTFOUND_MODULE}"
    "handle_prepare uc st =
      Inr (Refused (on_rt (yaf_trigger_error e msg) (on_rq (yaf_request_set_dispatched True) st)))"
    using prepare_refused [OF assms(1)] by blast
  show ?thesis
    using e assms(2)
    by (intro exI [of _ e] exI [of _ msg])
      (simp add: yaf_dispatcher_handle.simps on_rt_def on_rq_def yaf_trigger_error_def
        yaf_throw_exception_def zend_throw_exception_def)
qed

section \<open>A forward out of \<open>init\<close>\<close>

lemma prepare_known:
  assumes "g_directory (rt_g (as_rt st)) = Some app"
    and "rq_module (as_rq st) = ZString m" "m \<noteq> []" "yaf_application_is_module_name (as_rt st) m"
    and "rq_controller (as_rq st) = ZString c" "c \<noteq> []"
    and "class_find (as_rt st) (zend_str_tolower (class_word (rt_g (as_rt st)) c ''Controller'')) = Some ce"
  shows "handle_prepare uc st = Inr (Prepared app (dp_module (as_dp st) = ZString m) ce
    (controller_construct uc ce (on_rq (yaf_request_set_dispatched True) st)))"
  using assms by (simp add: handle_prepare_def Let_def yaf_dispatcher_get_controller_def)

definition forward_from :: "forward_args \<Rightarrow> app_state \<Rightarrow> app_state" where
  \<comment> \<open>the state behind \<open>$this->forward(...)\<close>\<close>
  "forward_from args st =
     (case controller_forward args (as_rq st, as_rt st) of
        (_, rq, rt) \<Rightarrow> st\<lparr>as_rq := rq, as_rt := rt\<rparr>)"

definition named_ci :: "string \<Rightarrow> zval \<Rightarrow> bool" where
  "named_ci c v \<longleftrightarrow> (\<exists>s. v = ZString s \<and> zend_string_equals_ci s c)"

fun forwards_home :: "string \<Rightarrow> string \<Rightarrow> forward_args \<Rightarrow> bool" where
  \<comment> \<open>to any action of the controller \<open>c\<close> of the module \<open>m\<close>, with or without parameters\<close>
  "forwards_home m c (Forward1 a) = is_string a"
| "forwards_home m c (Forward2 x y) = (is_string y \<and> named_ci c x \<or> is_array y)"
| "forwards_home m c (Forward3 x y z) = (is_string z \<and> x = ZString m \<and> named_ci c y \<or> is_array z \<and> named_ci c x)"
| "forwards_home m c (Forward4 x y z p) = (is_array p \<and> x = ZString m \<and> named_ci c y)"

definition init_forwards :: "user_code \<Rightarrow> string \<Rightarrow> string \<Rightarrow> php_class \<Rightarrow> bool" where
  \<comment> \<open>whenever the \<open>init\<close> of the class is run, it forwards to an action of that controller\<close>
  "init_forwards uc m c ce \<longleftrightarrow>
     \<not> instanceof_function ce ''Yaf_Action_Abstract'' \<and> map_of (cl_methods ce) ''init'' \<noteq> None \<and>
     (\<forall>st. \<exists>args. forwards_home m c args \<and> uc_init uc ce st = forward_from args st)"

definition leads_to :: "app_state \<Rightarrow> string \<Rightarrow> string \<Rightarrow> php_class \<Rightarrow> bool" where
  \<comment> \<open>the request names that module of the application and that controller, whose class is loaded\<close>
  "leads_to st m c ce \<longleftrightarrow>
     g_directory (rt_g (as_rt st)) \<noteq> None \<and> \<not> throws st \<and>
     rq_module (as_rq st) = ZString m \<and> m \<noteq> [] \<and> yaf_application_is_module_name (as_rt st) m \<and>
     c \<noteq> [] \<and> named_ci c (rq_controller (as_rq st)) \<and>
     class_find (as_rt st) (zend_str_tolower (class_word (rt_g (as_rt st)) c ''Controller'')) = Some ce"

lemma tolower_cstr: "zend_str_tolower (cstr s) = cstr (zend_str_tolower s)"
proof (induction s)
  case (Cons a s)
  then show ?case by (simp add: zend_str_tolower_def cstr_def)
qed (simp add: cstr_def zend_str_tolower_def)

lemma class_word_ci:
  "zend_string_equals_ci x c \<Longrightarrow>
     zend_str_tolower (class_word g x w) = zend_str_tolower (class_word g c w)"
  using tolower_cstr [of x] tolower_cstr [of c]
  by (simp add: class_word_def zend_string_equals_ci_def)

lemma forwarded:
  assumes "forwards_home m c args" "leads_to st m c ce"
  shows "leads_to (forward_from args st) m c ce \<and> \<not> yaf_request_is_dispatched (as_rq (forward_from args st))"
  using assms
  by (cases "(m, c, args)" rule: forwards_home.cases)
    (auto simp: leads_to_def forward_from_def controller_forward_def forward_update_def add_params_def throws_def
      yaf_request_set_dispatched_def yaf_request_is_dispatched_def split: zval.splits)

lemma leads_to_dispatched:
  "leads_to st m c ce \<Longrightarrow> leads_to (on_rq (yaf_request_set_dispatched b) st) m c ce"
  by (simp add: leads_to_def)

lemma init_forwards_prepare:
  assumes "init_forwards uc m c ce" "leads_to st m c ce"
  shows "\<exists>app d st'. handle_prepare uc st = Inr (Prepared app d ce st') \<and> leads_to st' m c ce
    \<and> \<not> yaf_request_is_dispatched (as_rq st')"
proof -
  let ?st = "on_rq (yaf_request_set_dispatched True) st"
  note l = leads_to_dispatched [OF assms(2), of True]
  obtain app x where a: "g_directory (rt_g (as_rt st)) = Some app" "rq_controller (as_rq st) = ZString x"
    "zend_string_equals_ci x c"
    using assms(2) by (auto simp: leads_to_def named_ci_def)
  then have x: "x \<noteq> []"
    using assms(2) by (auto simp: leads_to_def zend_string_equals_ci_def dest: sym)
  obtain args where args: "forwards_home m c args" "uc_init uc ce ?st = forward_from args ?st"
    using assms(1) by (auto simp: init_forwards_def)
  have "class_find (as_rt st) (zend_str_tolower (class_word (rt_g (as_rt st)) x ''Controller'')) = Some ce"
    unfolding class_word_ci [OF a(3)] using assms(2) by (simp add: leads_to_def)
  then have "handle_prepare uc st = Inr (Prepared app (dp_module (as_dp st) = ZString m) ce (controller_construct uc ce ?st))"
    using assms(2) a x by (intro prepare_known) (simp_all add: leads_to_def)
  moreover have "controller_construct uc ce ?st = forward_from args ?st"
    using assms args(2) by (simp add: controller_construct_def init_forwards_def leads_to_def)
  ultimately show ?thesis using forwarded [OF args(1) l] by auto
qed

text \<open>
  C25: The limit on forwards does not hold for a forward out of \<open>init\<close>: a controller whose
  \<open>init\<close> calls \<open>forward\<close> with an action of the same controller, in any of the forms of the method and
  with any parameters, is constructed again and again, and handling a request for it never
  returns.
\<close>

theorem init_forward_never_returns:
  assumes "init_forwards uc m c ce" "leads_to st m c ce"
  shows "yaf_dispatcher_handle uc st = None"
proof -
  have "yaf_dispatcher_handle u s = Some r \<Longrightarrow> \<not> (init_forwards u m c ce \<and> leads_to s m c ce)" for u s r
  proof (rule yaf_dispatcher_handle.raw_induct [where P = "\<lambda>u s r. \<not> (init_forwards u m c ce \<and> leads_to s m c ce)"], goal_cases)
    case (1 f u s r)
    show ?case
    proof
      assume i: "init_forwards u m c ce \<and> leads_to s m c ce"
      then obtain app d s' where p: "handle_prepare u s = Inr (Prepared app d ce s')" "leads_to s' m c ce"
        "\<not> yaf_request_is_dispatched (as_rq s')"
        using init_forwards_prepare by blast
      have "f u s' = Some r"
        using 1(3) p by (simp add: leads_to_def)
      with 1(2) i p(2) show False by blast
    qed
  qed
  with assms show ?thesis by (cases "yaf_dispatcher_handle uc st") blast+
qed

section \<open>An exception on its way to the error controller\<close>

lemma call_args_exception:
  "hfind params (KStr n) = Some v \<Longrightarrow> call_args params [n] = Inr [v]"
  by (auto simp: call_args_def yaf_dispatcher_get_call_parameters_def Let_def)

lemma run_executor_quiet:
  assumes "hfind (rq_params (as_rq st)) (KStr n) = Some v" "\<not> throws st"
    and "uc_call uc (ex_class ex) f [v] st = (ZFalse, st')"
  shows "run_executor uc ex f [n] a st = Inr (True, st')"
  using assms by (simp add: run_executor_def call_args_exception user_call_def)

lemma handle_known:
  assumes "g_directory (rt_g (as_rt st)) = Some app"
    and "rq_module (as_rq st) = ZString m" "m \<noteq> []" "yaf_application_is_module_name (as_rt st) m"
    and "rq_controller (as_rq st) = ZString c" "c \<noteq> []"
    and "class_find (as_rt st) (zend_str_tolower (class_word (rt_g (as_rt st)) c ''Controller'')) = Some ce"
    and "map_of (cl_methods ce) ''init'' = None" "\<not> throws st"
  shows "yaf_dispatcher_handle uc st = Some (handle_action uc app (dp_module (as_dp st) = ZString m)
    ce (on_rq (yaf_request_set_dispatched True) st))"
  using assms(8,9)
  by (simp add: yaf_dispatcher_handle.simps prepare_known [OF assms(1-7)] controller_construct_def)

definition error_entry :: "string \<Rightarrow> string \<Rightarrow> app_state \<Rightarrow> php_exc \<Rightarrow> app_state" where
  \<comment> \<open>what the action of the error controller finds\<close>
  "error_entry app m st e =
     on_rt (\<lambda>rt. rt\<lparr>rt_exception := None,
         rt_g := (rt_g rt)\<lparr>g_in_exception := True, g_view_directory :=
           Some (mvc_directory app m (dp_module (as_dp st) = ZString m) ''views'')\<rparr>\<rparr>)
       (on_rq (\<lambda>rq. yaf_request_set_dispatched True
          (yaf_request_set_params_single ''exception'' (ZExc e)
            (rq\<lparr>rq_controller := ZString ''Error'', rq_action := ZString ''error'',
                rq_exception := ZExc e\<rparr>))) st)"

lemma error_entry_simps:
  "\<not> throws (error_entry app m st e)"
  "rq_action (as_rq (error_entry app m st e)) = ZString ''error''"
  "hfind (rq_params (as_rq (error_entry app m st e))) (KStr ''exception'') = Some (ZExc e)"
  "rq_exception (as_rq (error_entry app m st e)) = ZExc e"
  by (simp_all add: error_entry_def throws_def on_rt_def on_rq_def yaf_request_set_dispatched_def
      yaf_request_set_params_single_def)

lemma error_entry_barred: "g_in_exception (rt_g (as_rt (error_entry app m st e)))"
  by (simp add: error_entry_def on_rt_def)

lemma handler_barred:
  "g_in_exception (rt_g (as_rt s)) \<Longrightarrow> yaf_dispatcher_exception_handler uc s = Some (Inr s)"
  by (simp add: yaf_dispatcher_exception_handler_def split: option.split)

lemma error_action:
  assumes "rq_module (as_rq st) = ZString m" "m \<noteq> []"
    and "map_of (cl_methods ce) ''erroraction'' = Some [''exception'']"
    and "uc_call uc ce ''erroraction'' [ZExc e] (error_entry app m st e) = (ZFalse, st')"
  shows "handle_action uc app (dp_module (as_dp st) = ZString m) ce
    (on_rq (yaf_request_set_dispatched True)
      (error_request (on_rt (\<lambda>rt. rt\<lparr>rt_g := (rt_g rt)\<lparr>g_in_exception := True\<rparr>\<rparr>) st) e)) = Inr (True, st')"
    (is "handle_action uc app ?d ce ?st1 = _")
proof -
  have entered: "on_rt (\<lambda>rt. rt\<lparr>rt_g := (rt_g rt)\<lparr>g_view_directory :=
      Some (mvc_directory app m ?d ''views'')\<rparr>\<rparr>) ?st1 = error_entry app m st e"
    using assms(1,2)
    by (simp add: error_request_def Let_def error_entry_def on_rt_def on_rq_def yaf_request_set_dispatched_def
        yaf_request_set_params_single_def)
  have name: "zend_str_tolower (cstr ''error'' @ ''action'') = ''erroraction''" by code_simp
  have runs: "handle_method uc app k d c ce (error_entry app m st e) = Inr (True, st')" for k d c
    unfolding handle_method_def Let_def error_entry_simps(2) zval.case name assms(3) option.case
    by (rule run_executor_quiet [OF error_entry_simps(3,1)]) (use assms(4) in simp)
  have "mvc_directory app [] True ''views'' = mvc_directory app m True ''views''"
    by (simp add: mvc_directory_def)
  moreover have "rq_module (as_rq ?st1) = ZString m"
    using assms(1,2) by (simp add: error_request_def Let_def on_rq_def yaf_request_set_dispatched_def
        yaf_request_set_params_single_def)
  ultimately show ?thesis
    using runs entered by (cases ?d) (simp_all add: handle_action_def directory_module_def)
qed

text \<open>
  C5: A pending exception is handed to the \<open>error\<close> method of the application's \<open>Error\<close>
  controller, in the module of the request, as its parameter: the method is entered with the
  exception no longer pending, in the request and in its parameters, with a second handling
  barred; and what it leaves in the response is sent.
\<close>

theorem exception_reaches_error_controller:
  assumes "rt_exception (as_rt st) = Some e" "\<not> g_in_exception (rt_g (as_rt st))"
    and "dp_view (as_dp st) = Some v" "g_directory (rt_g (as_rt st)) = Some app"
    and "rq_module (as_rq st) = ZString m" "m \<noteq> []" "yaf_application_is_module_name (as_rt st) m"
    and "class_find (as_rt st)
           (zend_str_tolower (class_word (rt_g (as_rt st)) ''Error'' ''Controller'')) = Some ce"
    and "map_of (cl_methods ce) ''init'' = None" "map_of (cl_methods ce) ''erroraction'' = Some [''exception'']"
    and "uc_call uc ce ''erroraction'' [ZExc e] (error_entry app m st e) = (ZFalse, st')"
  shows "yaf_dispatcher_exception_handler uc st = Some (Inr (send_out st'))
    \<and> \<not> throws (error_entry app m st e) \<and> rq_exception (as_rq (error_entry app m st e)) = ZExc e
    \<and> g_in_exception (rt_g (as_rt (error_entry app m st e)))
    \<and> (\<forall>s. g_in_exception (rt_g (as_rt s)) \<longrightarrow> yaf_dispatcher_exception_handler uc s = Some (Inr s))"
proof -
  let ?st0 = "error_request (on_rt (\<lambda>rt. rt\<lparr>rt_g := (rt_g rt)\<lparr>g_in_exception := True\<rparr>\<rparr>) st) e"
  have frame: "g_directory (rt_g (as_rt ?st0)) = Some app" "rq_module (as_rq ?st0) = ZString m"
    "rq_controller (as_rq ?st0) = ZString ''Error''" "\<not> throws ?st0"
    "dp_view (as_dp ?st0) = Some v" "as_dp ?st0 = as_dp st"
    using assms(3-6) by (simp_all add: error_request_def Let_def throws_def yaf_request_set_params_single_def)
  have mods: "yaf_application_is_module_name (as_rt ?st0) m"
    using assms(7) by (simp add: error_request_def Let_def yaf_application_is_module_name_def)
  have cls: "class_find (as_rt ?st0)
      (zend_str_tolower (class_word (rt_g (as_rt ?st0)) ''Error'' ''Controller'')) = Some ce"
  proof -
    have "class_word (rt_g (as_rt ?st0)) = class_word (rt_g (as_rt st))"
      "class_find (as_rt ?st0) = class_find (as_rt st)"
      by (simp_all add: fun_eq_iff error_request_def Let_def class_find_def class_word_def)
    with assms(8) show ?thesis by (simp only:)
  qed
  have handle: "yaf_dispatcher_handle uc ?st0 = Some (handle_action uc app
      (dp_module (as_dp st) = ZString m) ce (on_rq (yaf_request_set_dispatched True) ?st0))"
    using handle_known [OF frame(1,2) assms(6) mods frame(3) _ cls assms(9) frame(4)] frame(6) by simp
  have "handle_action uc app (dp_module (as_dp st) = ZString m) ce
      (on_rq (yaf_request_set_dispatched True) ?st0) = Inr (True, st')"
    by (rule error_action) (use assms(5,6,10,11) in simp_all)
  then have "yaf_dispatcher_exception_handler uc st = Some (Inr (send_out st'))"
    using assms(1,2) frame(5)
    by (simp add: yaf_dispatcher_exception_handler_def Let_def yaf_dispatcher_init_view_def handle)
  then show ?thesis
    by (simp add: error_entry_simps error_entry_barred handler_barred)
qed

section \<open>The answer of a dispatch\<close>

lemma plugin_hook_True:
  "plugin_hook uc hook st = Some (Inr (True, st')) \<Longrightarrow> \<not> throws st' \<and> st' = run_plugins uc (dp_plugins (as_dp st)) hook st"
  by (auto simp: plugin_hook_def Let_def split: if_splits sum.splits) (metis sum.exhaust)+

lemma answers_False:
  "map_option (\<lambda>r. case r of Inl e \<Rightarrow> Inl e | Inr st \<Rightarrow> Inr (False, st)) x \<noteq> Some (Inr (True, st'))"
  by (auto split: sum.split)

lemma dispatch_finish_True:
  assumes "dispatch_finish uc m st = Some (Inr (True, st'))"
  shows "\<exists>st1. st1 = run_plugins uc (dp_plugins (as_dp st)) ''dispatchloopshutdown'' st \<and> \<not> throws st1
    \<and> (m \<noteq> 0 \<or> yaf_request_is_dispatched (as_rq st1))
    \<and> st' = (if dp_return_response (as_dp st1) then st1 else send_response uc st1)"
proof -
  obtain st1 where h: "plugin_hook uc ''dispatchloopshutdown'' st = Some (Inr (True, st1))"
    using assms by (auto simp: dispatch_finish_def split: option.splits sum.splits prod.splits bool.splits)
  have "st' = (if dp_return_response (as_dp st1) then st1 else send_response uc st1)"
    "m \<noteq> 0 \<or> yaf_request_is_dispatched (as_rq st1)"
    using assms by (simp_all add: dispatch_finish_def h answers_False del: map_option_eq_Some split: if_splits)
  with plugin_hook_True [OF h] show ?thesis by blast
qed

lemma sent_body [simp]: "rp_body (as_rp (send_response uc st)) = []"
  by (simp add: send_response_def Let_def yaf_response_clear_body_def)

text \<open>
  C6: The dispatcher answers with the response only if the dispatch loop came to its end, the
  request is dispatched or the limit was not reached, and no exception is pending behind the
  last hook: one of the application, of a plugin or of the framework, behind whatever step, makes
  the answer null.  A response that is kept for the script is answered as it is then, with no
  exception pending; otherwise the state is that behind the sending, the body of the response is
  empty, and only the sending itself may have left an exception.
\<close>

theorem dispatch_answer:
  assumes "yaf_dispatcher_dispatch uc st = Some (Inr (True, st'))"
  shows "\<exists>n s0 m s st1. dispatch_loop uc n s0 = Some (Inr (m, Went s))
    \<and> st1 = run_plugins uc (dp_plugins (as_dp s)) ''dispatchloopshutdown'' s
    \<and> (m \<noteq> 0 \<or> yaf_request_is_dispatched (as_rq st1)) \<and> \<not> throws st1
    \<and> (if dp_return_response (as_dp st1) then st' = st1 \<and> \<not> throws st'
       else st' = send_response uc st1 \<and> rp_body (as_rp st') = [])"
proof -
  obtain n s0 m s where l: "dispatch_loop uc n s0 = Some (Inr (m, Went s))" "dispatch_finish uc m s = Some (Inr (True, st'))"
    using assms unfolding yaf_dispatcher_dispatch_def Let_def
    by (auto simp: fails_def split: if_splits option.splits sum.splits prod.splits bool.splits step.splits)
  then show ?thesis
    using dispatch_finish_True [OF l(2)] by (intro exI conjI; (rule l(1))?) auto
qed

text \<open>
  C23: If the server refuses a header of the response, the page is lost: nothing of the body is
  written, the body is cleared all the same, and the dispatcher answers with the response; what
  is pending then, as an exception made of the server's warning, was raised behind the last
  check and does not reach the error controller.
\<close>

theorem refused_header_loses_body:
  assumes "plugin_hook uc ''dispatchloopshutdown'' st = Some (Inr (True, st1))"
    and "yaf_request_is_dispatched (as_rq st1)" "\<not> dp_return_response (as_dp st1)"
    and "rp_class (as_rp st1) = ResponseHttp" "rp_response_code (as_rp st1) = 0"
    and "send_headers (uc_header_op uc) (rp_header (as_rp st1)) (as_out st1, as_rt st1) = (False, out, rt)"
  shows "\<exists>st'. dispatch_finish uc n st = Some (Inr (True, st')) \<and> rp_body (as_rp st') = []
    \<and> rt_output (as_rt st') = rt_output rt \<and> rt_exception (as_rt st') = rt_exception rt"
  using assms by (simp add: dispatch_finish_def) (simp add: send_response_def yaf_response_http_send_def)

section \<open>A sample application\<close>

definition sample_class :: "string \<Rightarrow> (string \<times> string list) list \<Rightarrow> php_class" where
  "sample_class name methods =
     \<lparr>cl_name = name, cl_ancestors = [''Yaf_Controller_Abstract''], cl_methods = methods\<rparr>"

definition sample_classes :: "(string \<times> php_class) list" where
  "sample_classes =
     [(''errorcontroller'', sample_class ''ErrorController'' [(''erroraction'', [''exception''])]),
      (''loopcontroller'', sample_class ''LoopController'' [(''init'', [])]),
      (''indexcontroller'', sample_class ''IndexController'' [(''indexaction'', [])])]"

definition sample_view :: yaf_view where
  "sample_view = \<lparr>vw_vars = [], vw_dir = ZNull, vw_opts = ZNull\<rparr>"

definition sample_state :: "zval \<Rightarrow> zval \<Rightarrow> php_exc option \<Rightarrow> app_state" where
  \<comment> \<open>a routed request for a module and a controller, with an exception or none pending\<close>
  "sample_state m c e =
     \<lparr>as_dp = sample_dp\<lparr>dp_view := Some sample_view, dp_has_request := True\<rparr>,
      as_rq = yaf_request_init\<lparr>rq_module := m, rq_controller := c, rq_action := ZString ''index'',
        rq_routed := True\<rparr>,
      as_rp = yaf_response_instance ''cli'', as_out = \<lparr>so_code = 200, so_headers = []\<rparr>,
      as_rt = sample_rt\<lparr>rt_g := (rt_g sample_rt)\<lparr>g_directory := Some ''/app''\<rparr>,
        rt_classes := sample_classes, rt_exception := e\<rparr>\<rparr>"

definition sample_user :: user_code where
  \<comment> \<open>every action echoes a line and asks for no rendering, \<open>init\<close> forwards to the action \<open>index\<close>\<close>
  "sample_user =
     \<lparr>uc_import = (\<lambda>_ rt. (False, rt)),
      uc_init = (\<lambda>_. forward_from (Forward1 (ZString ''index''))),
      uc_call = (\<lambda>_ _ _ st. (ZFalse, on_rt (php_write ''done'') st)),
      uc_plugin = (\<lambda>_ _ st. st), uc_view = (\<lambda>_ _ _ st. (ZNull, st)),
      uc_actions = (\<lambda>_ _. ZNull), uc_auto_render = (\<lambda>_ _. None),
      uc_router = (\<lambda>st. (True, st)), uc_routes = (\<lambda>_ rt rq. (False, rq, rt)),
      uc_pcre = (\<lambda>_ _. None), uc_header_op = (\<lambda>l (out, rt). (True, out\<lparr>so_headers := so_headers out @ [l]\<rparr>, rt)), uc_sapi = ''cli''\<rparr>"

definition sample_exc :: php_exc where
  "sample_exc = PhpExc [''RuntimeException'', ''Exception''] 7 ''no luck'' None"

lemma handle_refused_witness:
  "\<exists>e msg. e \<in> {ERR_STARTUP_FAILED, ERR_DISPATCH_FAILED, ERR_NOTFOUND_MODULE} \<and>
    yaf_dispatcher_handle sample_user (sample_state (ZString ''Blog'') (ZString ''Index'') None) =
      Some (Inr (False, on_rt (\<lambda>rt. rt\<lparr>rt_exception :=
          Some (PhpExc (exception_base (err_code e)) (err_code e) msg (rt_exception rt))\<rparr>)
        (on_rq (yaf_request_set_dispatched True) (sample_state (ZString ''Blog'') (ZString ''Index'') None))))"
proof (rule handle_refused)
  have "\<not> yaf_application_is_module_name (as_rt (sample_state (ZString ''Blog'') (ZString ''Index'') None)) ''Blog''"
    by code_simp
  then show "\<not> handle_ready (sample_state (ZString ''Blog'') (ZString ''Index'') None)"
    by (auto simp: handle_ready_def sample_state_def)
  show "g_throw_exception (rt_g (as_rt (sample_state (ZString ''Blog'') (ZString ''Index'') None)))"
    by code_simp
qed

lemma init_forward_never_returns_witness:
  "yaf_dispatcher_handle sample_user (sample_state (ZString ''Index'') (ZString ''Loop'') None) = None"
proof (rule init_forward_never_returns)
  let ?st = "sample_state (ZString ''Index'') (ZString ''Loop'') None"
  let ?ce = "sample_class ''LoopController'' [(''init'', [])]"
  have "yaf_application_is_module_name (as_rt ?st) ''Index''"
    "class_find (as_rt ?st) (zend_str_tolower (class_word (rt_g (as_rt ?st)) ''loop'' ''Controller'')) = Some ?ce"
    "zend_string_equals_ci ''Loop'' ''loop''"
    by code_simp+
  then show "leads_to ?st ''Index'' ''loop'' ?ce"
    by (simp add: leads_to_def named_ci_def sample_state_def throws_def)
  have "\<not> instanceof_function ?ce ''Yaf_Action_Abstract''" by code_simp
  then show "init_forwards sample_user ''Index'' ''loop'' ?ce"
    by (auto simp: init_forwards_def sample_user_def sample_class_def
        intro: exI [of _ "Forward1 (ZString ''index'')"])
qed

lemma exception_reaches_error_controller_witness:
  "\<exists>st'. yaf_dispatcher_exception_handler sample_user
       (sample_state (ZString ''Index'') (ZString ''Index'') (Some sample_exc)) = Some (Inr (send_out st'))
     \<and> rt_output (as_rt st') = ''done''"
proof -
  let ?st = "sample_state (ZString ''Index'') (ZString ''Index'') (Some sample_exc)"
  let ?ce = "sample_class ''ErrorController'' [(''erroraction'', [''exception''])]"
  let ?st' = "on_rt (php_write ''done'') (error_entry ''/app'' ''Index'' ?st sample_exc)"
  have mod: "yaf_application_is_module_name (as_rt ?st) ''Index''" by code_simp
  have cls: "class_find (as_rt ?st)
      (zend_str_tolower (class_word (rt_g (as_rt ?st)) ''Error'' ''Controller'')) = Some ?ce"
    by code_simp
  have "yaf_dispatcher_exception_handler sample_user ?st = Some (Inr (send_out ?st'))"
    using exception_reaches_error_controller [of ?st sample_exc sample_view "''/app''" "''Index''" ?ce
        sample_user ?st'] mod cls
    by (simp add: sample_user_def sample_class_def)
      (simp add: sample_state_def sample_rt_def yaf_rinit_def yaf_ginit_def)
  moreover have "rt_output (as_rt ?st') = ''done''"
    by (simp add: error_entry_def php_write_def sample_state_def sample_rt_def)
  ultimately show ?thesis by blast
qed

text \<open>The sample request is run through the dispatcher.\<close>

lemma dispatch_sample:
  "case yaf_dispatcher_dispatch sample_user (sample_state (ZString ''Index'') (ZString ''Index'') None) of
     Some (Inr (ok, st)) \<Rightarrow> ok \<and> rt_output (as_rt st) = ''done'' | _ \<Rightarrow> False"
  by code_simp

lemma dispatch_answer_witness:
  "\<exists>st' st1. yaf_dispatcher_dispatch sample_user (sample_state (ZString ''Index'') (ZString ''Index'') None)
      = Some (Inr (True, st')) \<and> rt_output (as_rt st') = ''done'' \<and> \<not> throws st1
      \<and> (st' = st1 \<or> st' = send_response sample_user st1)"
proof -
  obtain st' where st': "yaf_dispatcher_dispatch sample_user (sample_state (ZString ''Index'') (ZString ''Index'') None)
      = Some (Inr (True, st'))" "rt_output (as_rt st') = ''done''"
    using dispatch_sample by (auto split: option.splits sum.splits prod.splits)
  with dispatch_answer [OF st'(1)] show ?thesis by metis
qed

definition late_user :: user_code where
  \<comment> \<open>the headers were sent before, and the error handler throws\<close>
  "late_user = sample_user\<lparr>uc_header_op := (\<lambda>_ (out, rt). (False, out, rt\<lparr>rt_exception := Some sample_exc\<rparr>))\<rparr>"

lemma refused_header_loses_body_witness:
  "\<exists>st'. dispatch_finish late_user 0 ((on_rq (yaf_request_set_dispatched True) (sample_state (ZString ''Index'') (ZString ''Index'') None))
       \<lparr>as_rp := \<lparr>rp_class = ResponseHttp, rp_header = [(KStr ''X'', ''1'')], rp_body = [(KStr ''content'', ''page'')], rp_response_code = 0\<rparr>\<rparr>)
     = Some (Inr (True, st')) \<and> rp_body (as_rp st') = [] \<and> rt_output (as_rt st') = [] \<and> throws st'"
proof -
  let ?st = "(on_rq (yaf_request_set_dispatched True) (sample_state (ZString ''Index'') (ZString ''Index'') None))
       \<lparr>as_rp := \<lparr>rp_class = ResponseHttp, rp_header = [(KStr ''X'', ''1'')], rp_body = [(KStr ''content'', ''page'')], rp_response_code = 0\<rparr>\<rparr>"
  have "plugin_hook late_user ''dispatchloopshutdown'' ?st = Some (Inr (True, ?st))"
    by (simp add: plugin_hook_def sample_state_def sample_dp_eq throws_def on_rq_def)
  then have "\<exists>st'. dispatch_finish late_user 0 ?st = Some (Inr (True, st')) \<and> rp_body (as_rp st') = []
      \<and> rt_output (as_rt st') = rt_output ((as_rt ?st)\<lparr>rt_exception := Some sample_exc\<rparr>)
      \<and> rt_exception (as_rt st') = rt_exception ((as_rt ?st)\<lparr>rt_exception := Some sample_exc\<rparr>)"
    by (rule refused_header_loses_body [where out = "as_out ?st"])
      (simp_all add: late_user_def, simp_all add: sample_state_def sample_dp_eq)
  then show ?thesis by (auto simp: throws_def sample_state_def sample_rt_def)
qed

end
