(* ===== verification/Yaf_Store.thy ===== *)
theory Yaf_Store
  imports Yaf_Config_Read
begin

text \<open>
  The named values an application keeps beside its request: the registry (\<open>yaf_registry.c\<close>),
  the session (\<open>yaf_session.c\<close>), and the iteration over the session and the configuration
  objects with the position PHP keeps in the hash table itself.  Opening a session is a
  parameter.
\<close>

section \<open>Histories of a table\<close>

datatype 'v tab_op = Put string 'v | Del string

fun op_value :: "string \<Rightarrow> 'v tab_op \<Rightarrow> 'v option \<Rightarrow> 'v option" where
  \<comment> \<open>the value of one name behind an operation\<close>
  "op_value k (Put k' v) old = (if k' = k then Some v else old)"
| "op_value k (Del k') old = (if k' = k then None else old)"

context symtab
begin

fun run_op :: "'b tab_op \<Rightarrow> 'a \<Rightarrow> 'a" where
  "run_op (Put k v) s = put k v s"
| "run_op (Del k) s = del k s"

lemma run_op_get: "inv s \<Longrightarrow> inv (run_op x s) \<and> get (run_op x s) k = op_value k x (get s k)"
  by (cases x) (auto simp: inv_put inv_del get_put get_del)

lemma history: "inv s \<Longrightarrow> inv (fold run_op ops s) \<and> get (fold run_op ops s) k = fold (op_value k) ops (get s k)"
  by (induction ops arbitrary: s) (simp_all add: run_op_get)

end

section \<open>The registry\<close>

text \<open>The static instance of the class, once there is one, with its table.\<close>

type_synonym yaf_registry = "zval htab option"

definition yaf_registry_instance :: "yaf_registry \<Rightarrow> zval htab" where
  "yaf_registry_instance reg = (case reg of Some h \<Rightarrow> h | None \<Rightarrow> [])"

definition yaf_registry_is_set :: "string \<Rightarrow> yaf_registry \<Rightarrow> bool \<times> yaf_registry" where
  "yaf_registry_is_set name reg =
     (let h = yaf_registry_instance reg in (hexists h (KStr name), Some h))"

definition registry_get :: "string \<Rightarrow> yaf_registry \<Rightarrow> zval \<times> yaf_registry" where
  "registry_get name reg =
     (let h = yaf_registry_instance reg
      in (case hfind h (KStr name) of Some v \<Rightarrow> v | None \<Rightarrow> ZNull, Some h))"

definition registry_set :: "string \<Rightarrow> zval \<Rightarrow> yaf_registry \<Rightarrow> bool \<times> yaf_registry" where
  "registry_set name v reg = (True, Some (hupdate (KStr name) v (yaf_registry_instance reg)))"

definition registry_del :: "string \<Rightarrow> yaf_registry \<Rightarrow> bool \<times> yaf_registry" where
  "registry_del name reg = (True, Some (hdel (KStr name) (yaf_registry_instance reg)))"

definition registry_lookup :: "yaf_registry \<Rightarrow> string \<Rightarrow> zval option" where
  "registry_lookup reg k = hfind (yaf_registry_instance reg) (KStr k)"

interpretation registry: symtab "\<lambda>reg. hwf (yaf_registry_instance reg)" registry_lookup
    "\<lambda>k v reg. snd (registry_set k v reg)" "\<lambda>k reg. snd (registry_del k reg)"
  by unfold_locales
    (auto simp: registry_lookup_def registry_set_def registry_del_def yaf_registry_instance_def)

fun registry_op :: "zval tab_op \<Rightarrow> yaf_registry \<Rightarrow> yaf_registry" where
  "registry_op (Put k v) reg = snd (registry_set k v reg)"
| "registry_op (Del k) reg = snd (registry_del k reg)"

lemma registry_op_run: "registry.run_op = registry_op"
proof (intro ext)
  show "registry.run_op x reg = registry_op x reg" for x reg by (cases x) simp_all
qed

lemma registry_get_lookup:
  "registry_get k reg = (case registry_lookup reg k of Some v \<Rightarrow> v | None \<Rightarrow> ZNull, Some (yaf_registry_instance reg))"
  "yaf_registry_is_set k reg = (registry_lookup reg k \<noteq> None, Some (yaf_registry_instance reg))"
  by (simp_all add: registry_get_def yaf_registry_is_set_def registry_lookup_def hexists_def Let_def)

text \<open>
  C27: Behind any sequence of \<open>set\<close> and \<open>del\<close> calls, from a registry that was never used,
  \<open>get\<close> and \<open>has\<close> answer by the last call that named the value: the value of a \<open>set\<close>, and
  null and false behind a \<open>del\<close> or where there was none.
\<close>

theorem registry_history:
  "registry_get k (fold registry_op ops None) =
      (case fold (op_value k) ops None of Some v \<Rightarrow> v | None \<Rightarrow> ZNull,
       Some (yaf_registry_instance (fold registry_op ops None)))
   \<and> fst (yaf_registry_is_set k (fold registry_op ops None)) = (fold (op_value k) ops None \<noteq> None)"
  using registry.history [of None ops k] unfolding registry_op_run
  by (simp add: registry_get_lookup yaf_registry_instance_def registry_lookup_def [of None])

section \<open>Tables with a position\<close>

record 'v cursor_tab =
  ct_tab :: "'v htab"
  ct_pos :: "nat option" \<comment> \<open>\<open>nInternalPointer\<close>, \<^const>\<open>None\<close> for \<open>HT_INVALID_IDX\<close>\<close>

definition zend_hash_internal_pointer_reset :: "'v cursor_tab \<Rightarrow> 'v cursor_tab" where
  "zend_hash_internal_pointer_reset ct = ct\<lparr>ct_pos := (if ct_tab ct = [] then None else Some 0)\<rparr>"

definition zend_hash_move_forward :: "'v cursor_tab \<Rightarrow> 'v cursor_tab" where
  "zend_hash_move_forward ct =
     (case ct_pos ct of
        None \<Rightarrow> ct
      | Some i \<Rightarrow> ct\<lparr>ct_pos := (if Suc i < length (ct_tab ct) then Some (Suc i) else None)\<rparr>)"

definition zend_hash_get_current_data :: "'v cursor_tab \<Rightarrow> 'v option" where
  "zend_hash_get_current_data ct = map_option (\<lambda>i. snd (ct_tab ct ! i)) (ct_pos ct)"

definition zend_hash_get_current_key :: "'v cursor_tab \<Rightarrow> zkey option" where
  "zend_hash_get_current_key ct = map_option (\<lambda>i. fst (ct_tab ct ! i)) (ct_pos ct)"

definition zend_hash_has_more_elements :: "'v cursor_tab \<Rightarrow> bool" where
  "zend_hash_has_more_elements ct \<longleftrightarrow> ct_pos ct \<noteq> None"

definition cursor_update :: "zkey \<Rightarrow> 'v \<Rightarrow> 'v cursor_tab \<Rightarrow> 'v cursor_tab" where
  \<comment> \<open>\<open>zend_hash_update\<close>: a position behind the end moves to a new element\<close>
  "cursor_update k v ct =
     ct\<lparr>ct_tab := hupdate k v (ct_tab ct),
        ct_pos := (if ct_pos ct = None \<and> \<not> hexists (ct_tab ct) k then Some (length (ct_tab ct)) else ct_pos ct)\<rparr>"

definition zend_hash_clean :: "'v cursor_tab \<Rightarrow> 'v cursor_tab" where
  "zend_hash_clean ct = \<lparr>ct_tab = [], ct_pos = None\<rparr>"

definition cursor_del :: "zkey \<Rightarrow> 'v cursor_tab \<Rightarrow> bool \<times> 'v cursor_tab" where
  \<comment> \<open>\<open>zend_hash_del\<close>: a position at the element goes on to the next one; the elements behind
      it keep theirs, which are numbered without the holes here\<close>
  "cursor_del k ct =
     (let i = length (takeWhile (\<lambda>e. fst e \<noteq> k) (ct_tab ct))
      in if i = length (ct_tab ct) then (False, ct)
         else (True, \<lparr>ct_tab = hdel k (ct_tab ct),
                ct_pos = (case ct_pos ct of
                   None \<Rightarrow> None
                 | Some p \<Rightarrow> if i < p then Some (p - 1)
                             else if i = p \<and> Suc p = length (ct_tab ct) then None else Some p)\<rparr>))"

definition ct_ok :: "'v cursor_tab \<Rightarrow> bool" where
  \<comment> \<open>the position is that of an element\<close>
  "ct_ok ct \<longleftrightarrow> (case ct_pos ct of None \<Rightarrow> True | Some i \<Rightarrow> i < length (ct_tab ct))"

lemma length_hupdate: "length (hupdate k v h) = (if hexists h k then length h else Suc (length h))"
  by (induction k v h rule: hupdate.induct) (auto simp: hexists_def)

lemma ct_ok_reset [simp]: "ct_ok (zend_hash_internal_pointer_reset ct)"
  by (simp add: ct_ok_def zend_hash_internal_pointer_reset_def)

lemma ct_ok_forward [simp]: "ct_ok ct \<Longrightarrow> ct_ok (zend_hash_move_forward ct)"
  by (auto simp: ct_ok_def zend_hash_move_forward_def split: option.splits)

lemma ct_ok_update [simp]: "ct_ok ct \<Longrightarrow> ct_ok (cursor_update k v ct)"
  by (auto simp: ct_ok_def cursor_update_def length_hupdate split: option.splits)

lemma takeWhile_absent: "length (takeWhile (\<lambda>e. fst e \<noteq> k) h) = length h \<longleftrightarrow> hfind h k = None"
proof -
  have "length (takeWhile P xs) = length xs \<longleftrightarrow> (\<forall>x \<in> set xs. P x)" for P and xs :: "(zkey \<times> 'v) list"
    by (induction xs) auto
  from this [of "\<lambda>e. fst e \<noteq> k"] show ?thesis by (force simp: hfind_def map_of_eq_None_iff)
qed

lemma length_hdel: "hwf h \<Longrightarrow> hfind h k \<noteq> None \<Longrightarrow> Suc (length (hdel k h)) = length h"
proof (induction h)
  case (Cons e h)
  show ?case
  proof (cases "fst e = k")
    case True
    with Cons.prems have "hdel k h = h" by (auto simp: hwf_def hdel_def filter_id_conv image_iff)
    with True show ?thesis by (simp add: hdel_def)
  next
    case False
    with Cons show ?thesis by (cases e) (auto simp: hwf_def hfind_def hdel_def)
  qed
qed (simp add: hfind_def)

lemma cursor_del_tab: "ct_tab (snd (cursor_del k ct)) = hdel k (ct_tab ct)"
proof (cases "hfind (ct_tab ct) k")
  case None
  then have "hdel k (ct_tab ct) = ct_tab ct"
    by (auto simp: hdel_def hfind_def map_of_eq_None_iff filter_id_conv image_iff)
  with None show ?thesis by (simp add: cursor_del_def takeWhile_absent)
next
  case (Some v)
  then show ?thesis by (simp add: cursor_del_def takeWhile_absent Let_def)
qed

lemma ct_ok_del:
  assumes "hwf (ct_tab ct)" "ct_ok ct"
  shows "ct_ok (snd (cursor_del k ct))"
proof (cases "hfind (ct_tab ct) k")
  case None
  with assms(2) show ?thesis by (simp add: cursor_del_def takeWhile_absent)
next
  case (Some v)
  let ?i = "length (takeWhile (\<lambda>e. fst e \<noteq> k) (ct_tab ct))"
  have "?i \<noteq> length (ct_tab ct)" using Some takeWhile_absent [of k "ct_tab ct"] by simp
  moreover have "?i \<le> length (ct_tab ct)" by (rule length_takeWhile_le)
  moreover have "Suc (length (hdel k (ct_tab ct))) = length (ct_tab ct)" using assms(1) Some by (intro length_hdel) auto
  ultimately show ?thesis
    using assms(2) by (auto simp: cursor_del_def ct_ok_def Let_def split: option.splits)
qed

lemma ct_ok_clean [simp]: "ct_ok (zend_hash_clean ct)"
  by (simp add: ct_ok_def zend_hash_clean_def)

definition ct_rest :: "'v cursor_tab \<Rightarrow> 'v htab" where
  \<comment> \<open>the elements from the position on\<close>
  "ct_rest ct = (case ct_pos ct of None \<Rightarrow> [] | Some i \<Rightarrow> drop i (ct_tab ct))"

lemma ct_rest_reset [simp]: "ct_rest (zend_hash_internal_pointer_reset ct) = ct_tab ct"
  by (simp add: ct_rest_def zend_hash_internal_pointer_reset_def)

lemma ct_rest_forward: "ct_ok ct \<Longrightarrow> ct_rest (zend_hash_move_forward ct) = tl (ct_rest ct)"
  by (auto simp: ct_rest_def ct_ok_def zend_hash_move_forward_def tl_drop drop_Suc split: option.split)

lemma ct_rest_more: "ct_ok ct \<Longrightarrow> zend_hash_has_more_elements ct \<longleftrightarrow> ct_rest ct \<noteq> []"
  by (auto simp: ct_rest_def ct_ok_def zend_hash_has_more_elements_def split: option.splits)

lemma ct_rest_current:
  "ct_ok ct \<Longrightarrow> ct_rest ct \<noteq> [] \<Longrightarrow>
     zend_hash_get_current_key ct = Some (fst (hd (ct_rest ct))) \<and>
     zend_hash_get_current_data ct = Some (snd (hd (ct_rest ct)))"
  by (auto simp: ct_rest_def ct_ok_def zend_hash_get_current_key_def zend_hash_get_current_data_def
      hd_drop_conv_nth split: option.splits)

section \<open>Iterating\<close>

text \<open>
  The loop \<open>foreach\<close> over an object: while it is valid, take the key and the value and go on.
  The step gives nothing where the object is not valid; the number bounds the turns, and no
  list comes out if it does not suffice.
\<close>

fun foreach :: "nat \<Rightarrow> ('s \<Rightarrow> mem_error + ('e \<times> 's) option) \<Rightarrow> 's \<Rightarrow> mem_error + 'e list option" where
  "foreach 0 step s = Inr None"
| "foreach (Suc n) step s =
     (case step s of
        Inl e \<Rightarrow> Inl e
      | Inr None \<Rightarrow> Inr (Some [])
      | Inr (Some (x, s')) \<Rightarrow>
          (case foreach n step s' of Inl e \<Rightarrow> Inl e | Inr r \<Rightarrow> Inr (map_option ((#) x) r)))"

locale iterator =
  fixes ok :: "'s \<Rightarrow> bool"
    and rest :: "'s \<Rightarrow> 'e list"
    and step :: "'s \<Rightarrow> mem_error + ('e \<times> 's) option"
  assumes step_end: "ok s \<Longrightarrow> rest s = [] \<Longrightarrow> step s = Inr None"
    and step_more: "ok s \<Longrightarrow> rest s = x # xs \<Longrightarrow> \<exists>s'. step s = Inr (Some (x, s')) \<and> ok s' \<and> rest s' = xs"
begin

lemma foreach_rest: "ok s \<Longrightarrow> length (rest s) < n \<Longrightarrow> foreach n step s = Inr (Some (rest s))"
proof (induction n arbitrary: s)
  case (Suc n)
  show ?case
  proof (cases "rest s")
    case Nil
    with Suc.prems show ?thesis by (simp add: step_end)
  next
    case (Cons x xs)
    with step_more [OF Suc.prems(1)] obtain s' where "step s = Inr (Some (x, s'))" "ok s'" "rest s' = xs" by blast
    with Suc Cons show ?thesis by simp
  qed
qed simp

end

section \<open>The session\<close>

text \<open>
  The object shares the array of \<open>$_SESSION\<close> through a reference; the user may store something
  else there.
\<close>

datatype sess_value = SessArr "zval cursor_tab" | SessOther zval

datatype sess_global = NoSession | SessPlain zval | SessRef sess_value

record yaf_session =
  ss_started :: bool
  ss_value :: sess_value

definition yaf_session_instance :: "sess_global \<Rightarrow> php_rt \<Rightarrow> yaf_session option \<times> php_rt" where
  \<comment> \<open>the first argument is what \<open>$_SESSION\<close> is once PHP has started the session\<close>
  "yaf_session_instance global rt =
     (case global of
        SessRef (SessArr ct) \<Rightarrow> (Some \<lparr>ss_started = True, ss_value = SessArr ct\<rparr>, rt)
      | _ \<Rightarrow> (None, php_error_docref (EWarning ''Attempt to start session failed'') rt))"

definition session_getInstance ::
    "(php_rt \<Rightarrow> sess_global \<times> php_rt) \<Rightarrow> yaf_session option \<Rightarrow> php_rt \<Rightarrow> yaf_session option \<times> php_rt" where
  \<comment> \<open>\<^const>\<open>None\<close> is PHP's null; nothing is kept then, and the next call starts the session again\<close>
  "session_getInstance start inst rt =
     (case inst of
        Some s \<Rightarrow> (Some s, rt)
      | None \<Rightarrow> (case start rt of (global, rt') \<Rightarrow> yaf_session_instance global rt'))"

definition yaf_session_start ::
    "(php_rt \<Rightarrow> sess_global \<times> php_rt) \<Rightarrow> yaf_session \<Rightarrow> php_rt \<Rightarrow> yaf_session \<times> php_rt" where
  "yaf_session_start start s rt =
     (if ss_started s then (s, rt) else (s\<lparr>ss_started := True\<rparr>, snd (start rt)))"

definition session_table :: "yaf_session \<Rightarrow> mem_error + zval cursor_tab" where
  \<comment> \<open>\<open>Z_ARRVAL_P(Z_REFVAL_P(sess))\<close>, which does not test the type\<close>
  "session_table s = (case ss_value s of SessArr ct \<Rightarrow> Inr ct | SessOther v \<Rightarrow> Inl WildRead)"

definition on_session :: "(zval cursor_tab \<Rightarrow> zval cursor_tab) \<Rightarrow> yaf_session \<Rightarrow> mem_error + yaf_session" where
  "on_session f s = map_sum id (\<lambda>ct. s\<lparr>ss_value := SessArr (f ct)\<rparr>) (session_table s)"

definition session_count :: "yaf_session \<Rightarrow> mem_error + nat" where
  "session_count s = map_sum id (\<lambda>ct. length (ct_tab ct)) (session_table s)"

definition session_get :: "string option \<Rightarrow> yaf_session \<Rightarrow> mem_error + zval" where
  "session_get name s =
     (case name of
        None \<Rightarrow> Inr (case ss_value s of SessArr ct \<Rightarrow> ZArray (ct_tab ct) | SessOther v \<Rightarrow> v)
      | Some n \<Rightarrow>
          map_sum id (\<lambda>ct. case hfind (ct_tab ct) (KStr n) of Some v \<Rightarrow> v | None \<Rightarrow> ZNull) (session_table s))"

definition session_set :: "string \<Rightarrow> zval \<Rightarrow> yaf_session \<Rightarrow> mem_error + yaf_session" where
  "session_set name v = on_session (cursor_update (KStr name) v)"

definition session_has :: "string \<Rightarrow> yaf_session \<Rightarrow> mem_error + bool" where
  "session_has name s = map_sum id (\<lambda>ct. hexists (ct_tab ct) (KStr name)) (session_table s)"

definition session_del :: "string \<Rightarrow> yaf_session \<Rightarrow> mem_error + (bool \<times> yaf_session)" where
  "session_del name s =
     map_sum id (\<lambda>ct. case cursor_del (KStr name) ct of (ok, ct') \<Rightarrow> (ok, s\<lparr>ss_value := SessArr ct'\<rparr>))
       (session_table s)"

definition session_clear :: "yaf_session \<Rightarrow> mem_error + yaf_session" where
  "session_clear = on_session zend_hash_clean"

definition session_rewind :: "yaf_session \<Rightarrow> mem_error + yaf_session" where
  "session_rewind = on_session zend_hash_internal_pointer_reset"

definition session_current :: "yaf_session \<Rightarrow> mem_error + zval" where
  "session_current s =
     map_sum id (\<lambda>ct. case zend_hash_get_current_data ct of Some v \<Rightarrow> v | None \<Rightarrow> ZFalse) (session_table s)"

definition key_value :: "zkey \<Rightarrow> zval" where
  "key_value k = (case k of KInt i \<Rightarrow> ZLong i | KStr s \<Rightarrow> ZString s)"

definition session_key :: "yaf_session \<Rightarrow> mem_error + zval" where
  \<comment> \<open>behind the end the variable for the key was never written\<close>
  "session_key s =
     (case session_table s of
        Inl e \<Rightarrow> Inl e
      | Inr ct \<Rightarrow>
          (case zend_hash_get_current_key ct of Some k \<Rightarrow> Inr (key_value k) | None \<Rightarrow> Inl WildRead))"

definition session_next :: "yaf_session \<Rightarrow> mem_error + yaf_session" where
  "session_next = on_session zend_hash_move_forward"

definition session_valid :: "yaf_session \<Rightarrow> mem_error + bool" where
  "session_valid s = map_sum id zend_hash_has_more_elements (session_table s)"

definition session_step :: "yaf_session \<Rightarrow> mem_error + ((zval \<times> zval) \<times> yaf_session) option" where
  "session_step s =
     (case session_valid s of
        Inl e \<Rightarrow> Inl e
      | Inr False \<Rightarrow> Inr None
      | Inr True \<Rightarrow>
          (case (session_current s, session_key s, session_next s) of
             (Inr v, Inr k, Inr s') \<Rightarrow> Inr (Some ((k, v), s'))
           | _ \<Rightarrow> Inl WildRead))"

definition session_rest :: "yaf_session \<Rightarrow> (zval \<times> zval) list" where
  "session_rest s =
     (case ss_value s of SessArr ct \<Rightarrow> map (map_prod key_value id) (ct_rest ct) | SessOther v \<Rightarrow> [])"

definition session_ok :: "yaf_session \<Rightarrow> bool" where
  "session_ok s \<longleftrightarrow> (\<exists>ct. ss_value s = SessArr ct \<and> ct_ok ct)"

interpretation session: iterator session_ok session_rest session_step
proof (unfold_locales, goal_cases)
  case (1 s)
  then show ?case
    by (auto simp: session_ok_def session_rest_def session_step_def session_valid_def session_table_def ct_rest_more)
next
  case (2 s x xs)
  then obtain ct where ct: "ss_value s = SessArr ct" "ct_ok ct" "map (map_prod key_value id) (ct_rest ct) = x # xs"
    by (auto simp: session_ok_def session_rest_def)
  then have ne: "ct_rest ct \<noteq> []" by auto
  then obtain k v r where r: "ct_rest ct = (k, v) # r" by (metis list.exhaust surj_pair)
  show ?case
    using ct(1,3) ct_rest_more [OF ct(2)] ct_rest_current [OF ct(2) ne] ct_rest_forward [OF ct(2)] ct_ok_forward [OF ct(2)]
    by (auto simp: r session_step_def session_valid_def session_current_def session_key_def session_next_def
        session_ok_def session_rest_def on_session_def session_table_def)
qed

text \<open>
  C28: Iterating over the session ends, and gives every element once, in the order of the
  table, with its key.
\<close>

theorem session_foreach:
  assumes "ss_value s = SessArr ct" "session_rewind s = Inr s'" "length (ct_tab ct) < n"
  shows "foreach n session_step s' = Inr (Some (map (\<lambda>(k, v). (key_value k, v)) (ct_tab ct)))"
proof -
  have "session_ok s'" and rest: "session_rest s' = map (map_prod key_value id) (ct_tab ct)"
    using assms(1,2)
    by (auto simp: session_rewind_def on_session_def session_table_def session_ok_def session_rest_def)
  with session.foreach_rest [of s' n] assms(3) show ?thesis
    by (simp add: map_prod_def id_def)
qed

lemma session_foreach_witness:
  "foreach 3 session_step \<lparr>ss_started = True, ss_value = SessArr \<lparr>ct_tab = [(KStr ''user'', ZTrue), (KInt 4, ZNull)], ct_pos = Some 0\<rparr>\<rparr>
    = Inr (Some [(ZString ''user'', ZTrue), (ZLong 4, ZNull)])"
  using session_foreach [of "\<lparr>ss_started = True, ss_value = SessArr \<lparr>ct_tab = [(KStr ''user'', ZTrue), (KInt 4, ZNull)], ct_pos = None\<rparr>\<rparr>"
      "\<lparr>ct_tab = [(KStr ''user'', ZTrue), (KInt 4, ZNull)], ct_pos = None\<rparr>"
      "\<lparr>ss_started = True, ss_value = SessArr \<lparr>ct_tab = [(KStr ''user'', ZTrue), (KInt 4, ZNull)], ct_pos = Some 0\<rparr>\<rparr>" 3]
  by (simp add: session_rewind_def on_session_def session_table_def zend_hash_internal_pointer_reset_def key_value_def)

text \<open>What is set is found, and what was cleared is not.\<close>

lemma session_set_get:
  "session_set k v s = Inr s' \<Longrightarrow>
     session_get (Some k') s' = (if k' = k then Inr v else session_get (Some k') s)"
  by (auto simp: session_set_def on_session_def session_get_def session_table_def cursor_update_def
      split: sess_value.splits)

lemma session_clear_get: "session_clear s = Inr s' \<Longrightarrow> session_get (Some k) s' = Inr ZNull \<and> session_count s' = Inr 0"
  by (auto simp: session_clear_def on_session_def session_get_def session_count_def session_table_def
      zend_hash_clean_def split: sess_value.splits)

lemma session_started_once: "session_getInstance start None rt = (Some s, rt') \<Longrightarrow> yaf_session_start start s rt'' = (s, rt'')"
  by (auto simp: session_getInstance_def yaf_session_instance_def yaf_session_start_def
      split: prod.splits sess_global.splits sess_value.splits)

definition session_lookup :: "yaf_session \<Rightarrow> string \<Rightarrow> zval option" where
  "session_lookup s k = (case ss_value s of SessArr ct \<Rightarrow> hfind (ct_tab ct) (KStr k) | SessOther v \<Rightarrow> None)"

definition session_put :: "string \<Rightarrow> zval \<Rightarrow> yaf_session \<Rightarrow> yaf_session" where
  "session_put k v s = (case session_set k v s of Inl _ \<Rightarrow> s | Inr s' \<Rightarrow> s')"

definition session_remove :: "string \<Rightarrow> yaf_session \<Rightarrow> yaf_session" where
  "session_remove k s = (case session_del k s of Inl _ \<Rightarrow> s | Inr (_, s') \<Rightarrow> s')"

definition session_wf :: "yaf_session \<Rightarrow> bool" where
  "session_wf s \<longleftrightarrow> (\<exists>ct. ss_value s = SessArr ct \<and> ct_ok ct \<and> hwf (ct_tab ct))"

interpretation session_tab: symtab session_wf session_lookup session_put session_remove
proof (unfold_locales, goal_cases)
  case (1 s k v)
  then obtain ct where ct: "ss_value s = SessArr ct" "ct_ok ct" "hwf (ct_tab ct)" by (auto simp: session_wf_def)
  then have "session_put k v s = s\<lparr>ss_value := SessArr (cursor_update (KStr k) v ct)\<rparr>"
    by (simp add: session_put_def session_set_def on_session_def session_table_def)
  with ct show ?case
    by (simp add: session_wf_def) (simp add: cursor_update_def)
next
  case (2 s k v k')
  then show ?case
    by (auto simp: session_wf_def session_lookup_def session_put_def session_set_def on_session_def
      session_table_def cursor_update_def)
next
  case (3 s k)
  then obtain ct where ct: "ss_value s = SessArr ct" "ct_ok ct" "hwf (ct_tab ct)" by (auto simp: session_wf_def)
  then have "session_remove k s = s\<lparr>ss_value := SessArr (snd (cursor_del (KStr k) ct))\<rparr>"
    by (simp add: session_remove_def session_del_def session_table_def split_beta)
  with ct show ?case by (simp add: session_wf_def ct_ok_del cursor_del_tab hwf_hdel)
next
  case (4 s k k')
  then obtain ct where ct: "ss_value s = SessArr ct" by (auto simp: session_wf_def)
  then have "session_remove k s = s\<lparr>ss_value := SessArr (snd (cursor_del (KStr k) ct))\<rparr>"
    by (simp add: session_remove_def session_del_def session_table_def split_beta)
  with ct show ?case by (simp add: session_lookup_def cursor_del_tab)
qed

text \<open>What the calls of a script leave in the session is what their history says.\<close>

lemma session_history:
  "session_wf s \<Longrightarrow> session_lookup (fold session_tab.run_op ops s) k = fold (op_value k) ops (session_lookup s k)"
  using session_tab.history by blast

section \<open>Iterating over a configuration\<close>

text \<open>The position belongs to the array in the configuration object.\<close>

type_synonym config_iter = "yaf_config \<times> nat option"

fun config_cursor :: "config_iter \<Rightarrow> mem_error + zval cursor_tab" where
  "config_cursor (cf, pos) =
     (case cf_config cf of ZArray h \<Rightarrow> Inr \<lparr>ct_tab = h, ct_pos = pos\<rparr> | _ \<Rightarrow> Inl WildRead)"

definition config_rewind :: "config_iter \<Rightarrow> mem_error + config_iter" where
  "config_rewind it =
     map_sum id (\<lambda>ct. (fst it, ct_pos (zend_hash_internal_pointer_reset ct))) (config_cursor it)"

definition config_current :: "config_iter \<Rightarrow> mem_error + config_value" where
  "config_current it =
     map_sum id (\<lambda>ct. case zend_hash_get_current_data ct of
        None \<Rightarrow> CfgFalse | Some v \<Rightarrow> found_value (fst it) v) (config_cursor it)"

definition config_key_at :: "config_iter \<Rightarrow> mem_error + zval" where
  "config_key_at it =
     map_sum id (\<lambda>ct. case zend_hash_get_current_key ct of None \<Rightarrow> ZFalse | Some k \<Rightarrow> key_value k)
       (config_cursor it)"

definition config_next :: "config_iter \<Rightarrow> mem_error + config_iter" where
  "config_next it = map_sum id (\<lambda>ct. (fst it, ct_pos (zend_hash_move_forward ct))) (config_cursor it)"

definition config_valid :: "config_iter \<Rightarrow> mem_error + bool" where
  "config_valid it = map_sum id zend_hash_has_more_elements (config_cursor it)"

definition config_step :: "config_iter \<Rightarrow> mem_error + ((zval \<times> config_value) \<times> config_iter) option" where
  "config_step it =
     (case config_valid it of
        Inl e \<Rightarrow> Inl e
      | Inr False \<Rightarrow> Inr None
      | Inr True \<Rightarrow>
          (case (config_current it, config_key_at it, config_next it) of
             (Inr v, Inr k, Inr it') \<Rightarrow> Inr (Some ((k, v), it'))
           | _ \<Rightarrow> Inl WildRead))"

definition config_ok :: "config_iter \<Rightarrow> bool" where
  "config_ok it \<longleftrightarrow> (\<exists>ct. config_cursor it = Inr ct \<and> ct_ok ct)"

definition config_rest :: "config_iter \<Rightarrow> (zval \<times> config_value) list" where
  "config_rest it =
     (case config_cursor it of Inl e \<Rightarrow> []
      | Inr ct \<Rightarrow> map (map_prod key_value (found_value (fst it))) (ct_rest ct))"

lemma config_cursor_move:
  "config_cursor it = Inr ct \<Longrightarrow> ct_tab (f ct) = ct_tab ct \<Longrightarrow>
     config_cursor (fst it, ct_pos (f ct)) = Inr (f ct)"
  by (cases it) (auto split: zval.splits)

lemma forward_tab [simp]: "ct_tab (zend_hash_move_forward ct) = ct_tab ct"
  by (simp add: zend_hash_move_forward_def split: option.split)

lemma reset_tab [simp]: "ct_tab (zend_hash_internal_pointer_reset ct) = ct_tab ct"
  by (simp add: zend_hash_internal_pointer_reset_def)

interpretation config: iterator config_ok config_rest config_step
proof (unfold_locales, goal_cases)
  case (1 it)
  then show ?case
    by (auto simp: config_ok_def config_rest_def config_step_def config_valid_def ct_rest_more)
next
  case (2 it x xs)
  then obtain ct where ct: "config_cursor it = Inr ct" "ct_ok ct"
    "map (map_prod key_value (found_value (fst it))) (ct_rest ct) = x # xs"
    by (auto simp: config_ok_def config_rest_def)
  then have ne: "ct_rest ct \<noteq> []" by auto
  then obtain k v r where r: "ct_rest ct = (k, v) # r" by (metis list.exhaust surj_pair)
  have nx: "config_next it = Inr (fst it, ct_pos (zend_hash_move_forward ct))"
    by (simp add: config_next_def ct(1))
  have cur: "config_cursor (fst it, ct_pos (zend_hash_move_forward ct)) = Inr (zend_hash_move_forward ct)"
    by (rule config_cursor_move [OF ct(1)]) simp
  show ?case
    using ct(1,3) ct_rest_more [OF ct(2)] ct_rest_current [OF ct(2) ne] ct_rest_forward [OF ct(2)]
      ct_ok_forward [OF ct(2)] cur
    by (auto simp: r config_step_def config_valid_def config_current_def config_key_at_def nx
        config_ok_def config_rest_def)
qed

lemma config_foreach:
  assumes "cf_config cf = ZArray h" "config_rewind (cf, p) = Inr it" "length h < n"
  shows "foreach n config_step it = Inr (Some (map (\<lambda>(k, v). (key_value k, found_value cf v)) h))"
proof -
  have "config_ok it" and rest: "config_rest it = map (map_prod key_value (found_value cf)) h"
    using assms(1,2)
    by (auto simp: config_rewind_def config_ok_def config_rest_def zend_hash_internal_pointer_reset_def
        ct_ok_def ct_rest_def)
  with config.foreach_rest [of it n] assms(3) show ?thesis
    by (simp add: map_prod_def)
qed

end
