(* ===== verification/Yaf_Lifecycle.thy ===== *)
theory Yaf_Lifecycle
  imports Yaf_Application Yaf_Dispatch Yaf_Store
begin

text \<open>
  What an application guarantees from its construction on: the modules it takes requests for,
  the methods its bootstrap class runs, that a request comes back, and that it is dispatched
  once, whatever is called on the application and in whatever order.
\<close>

section \<open>The modules of a constructed application\<close>

definition configured_modules :: "zval htab \<Rightarrow> string \<Rightarrow> string list" where
  "configured_modules app dflt =
     (case str_option app ''modules'' of
        Some s \<Rightarrow> if s = [] then [dflt] else strtok_all '','' (Some (cstr s))
      | None \<Rightarrow> [dflt])"

lemma equals_ci_ucfirst [simp]: "zend_string_equals_ci (ucfirst s) name = zend_string_equals_ci s name"
  by (simp add: zend_string_equals_ci_def)

lemma module_table_member:
  assumes "length names < 2 ^ 62"
  shows "list_ex (\<lambda>(_, v). case v of ZString s \<Rightarrow> zend_string_equals_ci s name | _ \<Rightarrow> False) (module_table names)
    \<longleftrightarrow> (\<exists>m \<in> set names. zend_string_equals_ci m name)"
proof -
  have "list_ex (\<lambda>(_, v). case v of ZString s \<Rightarrow> zend_string_equals_ci s name | _ \<Rightarrow> False) (module_table names)
      \<longleftrightarrow> list_ex (\<lambda>v. case v of ZString s \<Rightarrow> zend_string_equals_ci s name | _ \<Rightarrow> False) (map snd (module_table names))"
    by (simp add: list_ex_iff split_beta)
  then show ?thesis by (simp add: module_table_names [OF assms] list_ex_iff)
qed

lemma system_entries_frame:
  "system_entries h g = Inr g' \<Longrightarrow> g_modules g' = g_modules g \<and> g_default_module g' = g_default_module g"
  by (induction h g rule: system_entries.induct) (auto simp: zend_alter_ini_entry_def split: if_splits)

lemma parse_option_modules:
  assumes "yaf_application_parse_option conf rt = Inr (True, rt')" "application_options conf = Some (ZArray app)"
  shows "g_modules (rt_g rt') = g_modules (module_options app (rt_g rt')) \<and> rt_app rt' = rt_app rt"
  using assms
  by (auto simp: yaf_application_parse_option_def Let_def module_options_def dest!: system_entries_frame
      split: option.splits if_splits sum.splits)

lemma router_instance_g [simp]: "rt_g (snd (yaf_router_instance rt)) = rt_g rt"
  by (simp add: yaf_router_instance_def Let_def split: option.split)

lemma loader_instance_g [simp]: "rt_g (snd (yaf_loader_instance l a b rt)) = rt_g rt"
  by (simp add: yaf_loader_instance_def split: option.split)

lemma construct_parts_g [simp]: "rt_g (w_rt (construct_parts rq w)) = rt_g (w_rt w)"
  using loader_instance_g
  by (simp add: construct_parts_def construct_loader_def yaf_dispatcher_instance_def yaf_dispatcher_new_def
      Let_def split_beta split: option.split)

text \<open>
  C17: An application takes requests for exactly the modules its configuration names: the parts
  of \<open>application.modules\<close> between the commas, up to the case of their letters, and where there
  is no such entry, or an empty one, the default module.
\<close>

theorem constructed_modules:
  assumes "application_construct ou (ZArray conf) section w = Inr (True, w')"
    and "application_options conf = Some (ZArray app)"
    and "length (configured_modules app (g_default_module (rt_g (w_rt w')))) < 2 ^ 62"
  shows "yaf_application_is_module_name (w_rt w') name \<longleftrightarrow>
    (\<exists>m \<in> set (configured_modules app (g_default_module (rt_g (w_rt w')))). zend_string_equals_ci m name)"
proof -
  obtain rt rq where rt: "yaf_application_parse_option conf (w_rt w) = Inr (True, rt)"
    and w': "w' = (let w1 = construct_parts rq (w\<lparr>w_rt := rt\<rparr>)
      in w1\<lparr>w_rt := (w_rt w1)\<lparr>rt_app := Some (new_application (ZArray conf) (rt_g rt))\<rparr>\<rparr>)"
    using assms(1)
    by (auto simp: application_construct_def w_fails_def Let_def yaf_config_instance_def
        yaf_config_simple_instance_def split: if_splits sum.splits bool.splits)
  have g: "rt_g (w_rt w') = rt_g rt" and app: "rt_app (w_rt w') = Some (new_application (ZArray conf) (rt_g rt))"
    by (simp_all add: w' Let_def)
  let ?ms = "configured_modules app (g_default_module (rt_g rt))"
  define names where "names = (if str_option app ''modules'' \<in> {None, Some []} then ?ms else map ucfirst ?ms)"
  have names: "g_modules (rt_g rt) = ZArray (module_table names)" "names = ?ms \<or> names = map ucfirst ?ms"
    using parse_option_modules [OF rt assms(2)]
    by (auto simp: names_def module_options_def configured_modules_def split: option.splits)
  then have len: "length names < 2 ^ 62" using assms(3) g by auto
  have "yaf_application_is_module_name (w_rt w') name \<longleftrightarrow> (\<exists>m \<in> set names. zend_string_equals_ci m name)"
    using module_table_member [OF len] by (simp add: yaf_application_is_module_name_def app new_application_def names(1))
  also have "\<dots> \<longleftrightarrow> (\<exists>m \<in> set ?ms. zend_string_equals_ci m name)"
    using names(2) by (elim disjE) simp_all
  finally show ?thesis by (simp only: g)
qed

definition sample_conf :: "zval htab" where
  "sample_conf =
     [(KStr ''application'', ZArray
        [(KStr ''directory'', ZString ''/app/''), (KStr ''modules'', ZString ''index,blog''),
         (KStr ''system'', ZArray [(KStr ''forward_limit'', ZLong 9)])])]"

definition sample_outside :: outside where
  "sample_outside =
     \<lparr>out_files = (\<lambda>_. NoFile), out_url_parse = (\<lambda>u. UrlPath (Some u)),
      out_sapi = \<lparr>sapi_request_method = Some ''GET'', sapi_name = ''cli''\<rparr>\<rparr>"

definition sample_world :: world where
  "sample_world =
     \<lparr>w_dispatcher = None, w_request = None, w_loader = None, w_rt = sample_rt\<lparr>rt_app := None\<rparr>\<rparr>"

lemma construct_sample:
  "case application_construct sample_outside (ZArray sample_conf) None sample_world of
     Inl e \<Rightarrow> False
   | Inr (ok, w) \<Rightarrow> ok \<and> g_default_module (rt_g (w_rt w)) = ''Index'' \<and> g_forward_limit (rt_g (w_rt w)) = 9
       \<and> g_directory (rt_g (w_rt w)) = Some ''/app'' \<and> map_option ld_library (w_loader w) = Some ''/app/library''"
  by code_simp

lemma constructed_modules_witness:
  "\<exists>w'. application_construct sample_outside (ZArray sample_conf) None sample_world = Inr (True, w')
     \<and> yaf_application_is_module_name (w_rt w') ''BLOG'' \<and> \<not> yaf_application_is_module_name (w_rt w') ''Admin''"
proof -
  obtain w' where w': "application_construct sample_outside (ZArray sample_conf) None sample_world = Inr (True, w')"
    "g_default_module (rt_g (w_rt w')) = ''Index''"
    using construct_sample by (auto split: sum.splits)
  obtain app where app: "application_options sample_conf = Some (ZArray app)"
    and ms: "configured_modules app ''Index'' = [''index'', ''blog'']"
  proof
    let ?app = "[(KStr ''directory'', ZString ''/app/''), (KStr ''modules'', ZString ''index,blog''),
         (KStr ''system'', ZArray [(KStr ''forward_limit'', ZLong 9)])]"
    show "application_options sample_conf = Some (ZArray ?app)" by code_simp
    show "configured_modules ?app ''Index'' = [''index'', ''blog'']" by code_simp
  qed
  have ci: "zend_string_equals_ci ''blog'' ''BLOG''" "\<not> zend_string_equals_ci ''index'' ''Admin''"
    "\<not> zend_string_equals_ci ''blog'' ''Admin''"
    by code_simp+
  show ?thesis
    using w' constructed_modules [OF w'(1) app] ci by (auto simp: ms)
qed

text \<open>The constructor needs that there is no dispatcher, and leaves one when it succeeds.\<close>

lemma construct_needs_no_dispatcher:
  assumes "application_construct ou config section w = Inr (ok, w')"
  shows "ok \<longleftrightarrow> w_dispatcher w = None \<and> w_dispatcher w' \<noteq> None"
  using assms
  by (auto simp: application_construct_def w_fails_def construct_parts_def construct_loader_def Let_def split_beta
      split: if_splits sum.splits option.splits zval.splits bool.splits)

lemma construct_fails_reported:
  assumes "application_construct ou config section w = Inr (False, w')"
  shows "\<exists>msg rt. w_rt w' = yaf_trigger_error ERR_STARTUP_FAILED msg rt \<and> w_dispatcher w' = w_dispatcher w"
  using assms
  by (auto simp: application_construct_def w_fails_def Let_def
      split: if_splits sum.splits option.splits zval.splits bool.splits) blast+

text \<open>
  C18: An application is constructed at most once in a request.  Once the constructor has
  succeeded, every later call of it that comes back, with whatever configuration and whatever
  happened to the runtime, the destruction of the first application included, constructs
  nothing, reports a startup error and leaves the dispatcher as it is.
\<close>

theorem constructed_at_most_once:
  assumes "application_construct ou config section w = Inr (True, w1)"
    and "application_construct ou' config' section' (w1\<lparr>w_rt := rt, w_request := rq, w_loader := l\<rparr>) = Inr (ok, w2)"
  shows "\<not> ok \<and> w_dispatcher w2 = w_dispatcher w1
    \<and> (\<exists>msg rt'. w_rt w2 = yaf_trigger_error ERR_STARTUP_FAILED msg rt')"
proof -
  have "\<not> ok"
    using construct_needs_no_dispatcher [OF assms(1)] construct_needs_no_dispatcher [OF assms(2)] by simp
  with construct_fails_reported [of ou' config' section' "w1\<lparr>w_rt := rt, w_request := rq, w_loader := l\<rparr>" w2] assms(2)
  show ?thesis by fastforce
qed

lemma construct_sample_twice:
  "case application_construct sample_outside (ZArray sample_conf) None sample_world of
     Inl e \<Rightarrow> False
   | Inr (ok, w) \<Rightarrow>
       (case application_construct sample_outside (ZArray sample_conf) None
           (w\<lparr>w_rt := application_destruct (w_rt w), w_request := w_request w, w_loader := w_loader w\<rparr>) of
          Inl e \<Rightarrow> False | Inr _ \<Rightarrow> ok \<and> rt_app (application_destruct (w_rt w)) = None)"
  by code_simp

lemma constructed_at_most_once_witness:
  "\<exists>w1 w2. application_construct sample_outside (ZArray sample_conf) None sample_world = Inr (True, w1)
    \<and> rt_app (application_destruct (w_rt w1)) = None
    \<and> application_construct sample_outside (ZArray sample_conf) None
        (w1\<lparr>w_rt := application_destruct (w_rt w1), w_request := w_request w1, w_loader := w_loader w1\<rparr>) = Inr (False, w2)
    \<and> w_dispatcher w2 \<noteq> None"
proof -
  let ?again = "\<lambda>w. application_construct sample_outside (ZArray sample_conf) None
        (w\<lparr>w_rt := application_destruct (w_rt w), w_request := w_request w, w_loader := w_loader w\<rparr>)"
  obtain w1 where first: "application_construct sample_outside (ZArray sample_conf) None sample_world = Inr (True, w1)"
    using construct_sample by (auto split: sum.splits)
  with construct_sample_twice have twice: "case ?again w1 of Inl e \<Rightarrow> False
      | Inr _ \<Rightarrow> rt_app (application_destruct (w_rt w1)) = None"
    by (simp split: sum.splits)
  then obtain ok w2 where "?again w1 = Inr (ok, w2)" by (cases "?again w1") auto
  with first twice have w: "application_construct sample_outside (ZArray sample_conf) None sample_world = Inr (True, w1)"
    "rt_app (application_destruct (w_rt w1)) = None" "?again w1 = Inr (ok, w2)"
    by simp_all
  with constructed_at_most_once [OF w(1,3)] construct_needs_no_dispatcher [OF w(1)] show ?thesis
    by (intro exI [of _ w1] exI [of _ w2]) simp
qed

section \<open>The bootstrap class\<close>

definition init_methods :: "php_class \<Rightarrow> string list" where
  "init_methods ce = filter is_init_method (map fst (cl_methods ce))"

definition after_inits :: "user_code \<Rightarrow> php_class \<Rightarrow> zval \<Rightarrow> string list \<Rightarrow> app_state \<Rightarrow> app_state" where
  \<comment> \<open>the methods are called one after the other with the dispatcher\<close>
  "after_inits uc ce dpz fs st = fold (\<lambda>f s. snd (uc_call uc ce f [dpz] s)) fs st"

lemma bootstrap_loop_filter:
  "bootstrap_loop uc ce dpz fs st = bootstrap_loop uc ce dpz (filter is_init_method fs) st"
  by (induction fs arbitrary: st) (auto simp: Let_def split: prod.split)

lemma bootstrap_loop_runs:
  assumes "\<forall>f \<in> set fs. is_init_method f" "\<not> throws st"
  shows "\<exists>n \<le> length fs. bootstrap_loop uc ce dpz fs st =
        (\<not> throws (after_inits uc ce dpz (take n fs) st), after_inits uc ce dpz (take n fs) st)
      \<and> (\<forall>j < n. \<not> throws (after_inits uc ce dpz (take j fs) st))
      \<and> (n = length fs \<or> throws (after_inits uc ce dpz (take n fs) st))"
  using assms
proof (induction fs arbitrary: st)
  case Nil
  then show ?case by (simp add: after_inits_def)
next
  case (Cons f fs)
  let ?s = "snd (uc_call uc ce f [dpz] st)"
  have step: "after_inits uc ce dpz (take (Suc j) (f # fs)) st = after_inits uc ce dpz (take j fs) ?s" for j
    by (simp add: after_inits_def)
  show ?case
  proof (cases "throws ?s")
    case True
    with Cons.prems show ?thesis
      by (intro exI [of _ "Suc 0"]) (auto simp: after_inits_def user_call_def split_beta)
  next
    case False
    then obtain n where n: "n \<le> length fs" "bootstrap_loop uc ce dpz fs ?s =
        (\<not> throws (after_inits uc ce dpz (take n fs) ?s), after_inits uc ce dpz (take n fs) ?s)"
      "\<forall>j < n. \<not> throws (after_inits uc ce dpz (take j fs) ?s)"
      "n = length fs \<or> throws (after_inits uc ce dpz (take n fs) ?s)"
      using Cons.IH [of ?s] Cons.prems(1) by auto
    have "\<not> throws (after_inits uc ce dpz (take j (f # fs)) st)" if "j < Suc n" for j
      using that n(3) Cons.prems(2) step by (cases j) (auto simp: after_inits_def)
    then show ?thesis
      using n False Cons.prems step [of n]
      by (intro exI [of _ "Suc n"]) (auto simp: user_call_def split_beta)
  qed
qed

text \<open>
  C10: Bootstrapping calls the methods of the bootstrap class whose names start with \<open>_init\<close>, in
  whatever case, and no others, each once, in the order of the class and with the dispatcher,
  up to the first one that throws; it succeeds exactly if none does.
\<close>

theorem bootstrap_runs_inits:
  assumes "bootstrap_class uc st = Inr (Some ce, st0)" "\<not> throws st0"
  shows "\<exists>n \<le> length (init_methods ce).
      application_bootstrap uc dpz st = Inr (\<not> throws (after_inits uc ce dpz (take n (init_methods ce)) st0),
        after_inits uc ce dpz (take n (init_methods ce)) st0)
      \<and> (\<forall>j < n. \<not> throws (after_inits uc ce dpz (take j (init_methods ce)) st0))
      \<and> (n = length (init_methods ce) \<or> throws (after_inits uc ce dpz (take n (init_methods ce)) st0))"
proof -
  have "application_bootstrap uc dpz st = Inr (bootstrap_loop uc ce dpz (init_methods ce) st0)"
    using assms(1) bootstrap_loop_filter [of uc ce dpz "map fst (cl_methods ce)"]
    by (simp add: application_bootstrap_def init_methods_def)
  then show ?thesis
    using bootstrap_loop_runs [of "init_methods ce" st0 uc ce dpz] assms(2) by (auto simp: init_methods_def)
qed

definition sample_boot :: php_class where
  "sample_boot =
     \<lparr>cl_name = ''Bootstrap'', cl_ancestors = [''Yaf_Bootstrap_Abstract''],
      cl_methods = [(''_initroute'', [''dispatcher'']), (''helper'', []), (''_initview'', [])]\<rparr>"

definition sample_boot_state :: app_state where
  "sample_boot_state =
     on_rt (\<lambda>rt. rt\<lparr>rt_classes := [(''bootstrap'', sample_boot)]\<rparr>) (sample_state ZNull ZNull None)"

definition echo_user :: user_code where
  \<comment> \<open>every method echoes its name\<close>
  "echo_user = sample_user\<lparr>uc_call := (\<lambda>ce f args st. (ZNull, on_rt (php_write f) st))\<rparr>"

lemma bootstrap_runs_inits_witness:
  "\<exists>st'. application_bootstrap echo_user ZNull sample_boot_state = Inr (True, st')
     \<and> rt_output (as_rt st') = ''_initroute_initview''"
proof -
  let ?run = "\<lambda>n. after_inits echo_user sample_boot ZNull (take n (init_methods sample_boot)) sample_boot_state"
  have inits: "init_methods sample_boot = [''_initroute'', ''_initview'']" by code_simp
  have st: "bootstrap_class echo_user sample_boot_state = Inr (Some sample_boot, sample_boot_state)"
    by (simp add: bootstrap_class_def class_find_def sample_boot_state_def)
  have quiet: "\<not> throws (?run n)" for n
    by (cases n; cases "n - 1")
      (simp_all add: inits after_inits_def echo_user_def throws_def sample_boot_state_def sample_state_def php_write_def)
  have "\<not> throws sample_boot_state" using quiet [of 0] by (simp add: after_inits_def)
  from bootstrap_runs_inits [OF st this, of ZNull] quiet
  have "application_bootstrap echo_user ZNull sample_boot_state = Inr (True, ?run (length (init_methods sample_boot)))"
    by auto
  moreover have "rt_output (as_rt (?run (length (init_methods sample_boot)))) = ''_initroute_initview''"
    by (simp add: inits after_inits_def echo_user_def sample_boot_state_def sample_state_def php_write_def sample_rt_def)
  ultimately show ?thesis by blast
qed

section \<open>A request comes back\<close>

definition init_keeps_dispatched :: "user_code \<Rightarrow> bool" where
  \<comment> \<open>no \<open>init\<close> of a controller forwards\<close>
  "init_keeps_dispatched uc \<longleftrightarrow>
     (\<forall>ce st. yaf_request_is_dispatched (as_rq st) \<longrightarrow> yaf_request_is_dispatched (as_rq (uc_init uc ce st)))"

lemma get_controller_rq:
  "yaf_dispatcher_get_controller uc app m c d st = Inr (Some ce, st') \<Longrightarrow> as_rq st' = as_rq st"
  by (auto simp: yaf_dispatcher_get_controller_def lost_class_def Let_def on_rt_def
      split: option.splits sum.splits if_splits prod.splits)

lemma set_dispatched_is [simp]: "yaf_request_is_dispatched (yaf_request_set_dispatched b rq) = b"
  by (simp add: yaf_request_is_dispatched_def yaf_request_set_dispatched_def)

lemma prepared_dispatched:
  assumes "init_keeps_dispatched uc" "handle_prepare uc st = Inr (Prepared app d ce st')"
  shows "yaf_request_is_dispatched (as_rq st')"
proof -
  obtain s where "st' = controller_construct uc ce s" "as_rq s = yaf_request_set_dispatched True (as_rq st)"
    using assms(2)
    by (auto simp: handle_prepare_def Let_def on_rq_def dest!: get_controller_rq
        split: option.splits if_splits sum.splits)
  with assms(1) show ?thesis
    by (auto simp: controller_construct_def init_keeps_dispatched_def)
qed

lemma handle_returns: "init_keeps_dispatched uc \<Longrightarrow> yaf_dispatcher_handle uc st \<noteq> None"
  by (subst yaf_dispatcher_handle.simps) (auto dest: prepared_dispatched split: sum.split prepared.split)

lemma exception_handler_returns:
  "init_keeps_dispatched uc \<Longrightarrow> yaf_dispatcher_exception_handler uc st \<noteq> None"
  by (auto simp: yaf_dispatcher_exception_handler_def exception_fallback_def Let_def handle_returns
      split: option.split sum.split prod.split bool.split)

lemma catch_returns: "init_keeps_dispatched uc \<Longrightarrow> catch_exception uc st \<noteq> None"
  by (auto simp: catch_exception_def intro: exception_handler_returns [unfolded not_None_eq] split: option.split)

lemma plugin_hook_returns: "init_keeps_dispatched uc \<Longrightarrow> plugin_hook uc h st \<noteq> None"
  by (auto simp: plugin_hook_def Let_def intro: catch_returns [unfolded not_None_eq])

lemmas parts_return = plugin_hook_returns handle_returns catch_returns
lemmas parts_some = parts_return [unfolded not_None_eq]

lemma dispatch_once_returns: "init_keeps_dispatched uc \<Longrightarrow> dispatch_once uc st \<noteq> None"
  by (auto simp: dispatch_once_def stop_after_def parts_return intro: parts_some
      split: option.split sum.split prod.split bool.split)

lemma dispatch_loop_returns: "init_keeps_dispatched uc \<Longrightarrow> dispatch_loop uc n st \<noteq> None"
proof (induction uc n st rule: dispatch_loop.induct)
  case (1 uc n st)
  then show ?case
    by (subst dispatch_loop.simps)
      (auto simp: Let_def dispatch_once_returns split: option.splits sum.splits step.splits)
qed

lemma dispatch_finish_returns: "init_keeps_dispatched uc \<Longrightarrow> dispatch_finish uc n st \<noteq> None"
  by (auto simp: dispatch_finish_def parts_return intro: parts_some split: option.split sum.split prod.split bool.split)

lemma dispatch_route_returns: "init_keeps_dispatched uc \<Longrightarrow> dispatch_route uc st \<noteq> None"
  by (auto simp: dispatch_route_def parts_return intro: parts_some split: option.split sum.split prod.split bool.split)

text \<open>
  C11: Running an application comes back, whatever its plugins, actions and routes do to the
  request and however often they forward, if no \<open>init\<close> of a controller forwards: also
  behind exceptions and through the error controller there is an answer.
\<close>

theorem run_returns:
  assumes "init_keeps_dispatched uc"
  shows "application_run uc st \<noteq> None"
proof -
  have "yaf_dispatcher_dispatch uc s \<noteq> None" for s
    using assms
    by (auto simp: yaf_dispatcher_dispatch_def Let_def parts_return dispatch_route_returns
        dispatch_loop_returns dispatch_finish_returns
        intro: dispatch_finish_returns [unfolded not_None_eq]
        split: option.split sum.split prod.split bool.split step.split)
  then show ?thesis by (auto simp: application_run_def split: option.split)
qed

definition quiet_user :: user_code where
  \<comment> \<open>every action forwards once more, and no \<open>init\<close> does\<close>
  "quiet_user =
     sample_user\<lparr>uc_init := (\<lambda>_ st. st),
       uc_call := (\<lambda>_ _ _ st. (ZNull, on_rq (yaf_request_set_dispatched False) st))\<rparr>"

lemma run_returns_witness:
  "application_run quiet_user (sample_state (ZString ''Index'') (ZString ''Index'') None) \<noteq> None"
  by (rule run_returns) (simp add: init_keeps_dispatched_def quiet_user_def)

end
