(* ===== verification/Yaf_Running.thy ===== *)
theory Yaf_Running
  imports Yaf_Lifecycle
begin

text \<open>
  An application over its lifetime: a step relation over the calls made on it, and what stays
  true in every state it can reach.  That an application is run once rests on its running flag,
  which is a protected property of a final class: the code of the application cannot write it
  but by calling \<open>run\<close>, and no other part of the framework does.
\<close>

section \<open>The running flag\<close>

definition rt_running :: "php_rt \<Rightarrow> bool option" where
  "rt_running rt = map_option app_running (rt_app rt)"

definition running_of :: "app_state \<Rightarrow> bool option" where
  "running_of st = rt_running (as_rt st)"

abbreviation rt_runs :: "php_rt \<Rightarrow> bool" where
  "rt_runs rt \<equiv> rt_running rt = Some True"

abbreviation runs :: "app_state \<Rightarrow> bool" where
  "runs st \<equiv> running_of st = Some True"

definition keeps_running :: "user_code \<Rightarrow> bool" where
  \<comment> \<open>the code of the application does not take the flag back; it may set it, by calling \<open>run\<close>\<close>
  "keeps_running uc \<longleftrightarrow>
     (\<forall>p rt. rt_runs rt \<longrightarrow> rt_runs (snd (uc_import uc p rt))) \<and>
     (\<forall>ce st. runs st \<longrightarrow> runs (uc_init uc ce st)) \<and>
     (\<forall>ce f args st. runs st \<longrightarrow> runs (snd (uc_call uc ce f args st))) \<and>
     (\<forall>p h st. runs st \<longrightarrow> runs (uc_plugin uc p h st)) \<and>
     (\<forall>ex m a st. runs st \<longrightarrow> runs (snd (uc_view uc ex m a st))) \<and>
     (\<forall>st. runs st \<longrightarrow> runs (snd (uc_router uc st))) \<and>
     (\<forall>i rt rq. rt_runs rt \<longrightarrow> rt_runs (snd (snd (uc_routes uc i rt rq)))) \<and>
     (\<forall>l out rt. rt_runs rt \<longrightarrow> rt_runs (snd (snd (uc_header_op uc l (out, rt)))))"

named_theorems running_simps \<open>the parts of the framework keep the running flag\<close>

lemma rt_running_simps [running_simps]:
  "rt_running (yaf_trigger_error e m rt) = rt_running rt"
  "rt_running (php_error_docref w rt) = rt_running rt"
  "rt_running (rt\<lparr>rt_exception := x\<rparr>) = rt_running rt"
  "rt_running (rt\<lparr>rt_g := g\<rparr>) = rt_running rt"
  by (cases "rt_app rt";
      simp add: rt_running_def yaf_trigger_error_def yaf_throw_exception_def zend_throw_exception_def php_error_docref_def)+

lemma write_parts_app [simp]: "rt_app (write_parts h rt) = rt_app rt"
  by (induction h arbitrary: rt) (auto simp: php_write_def)

lemma running_of_simps [running_simps]:
  "running_of (on_rt f st) = rt_running (f (as_rt st))"
  "running_of (on_rq g st) = running_of st"
  "running_of (st\<lparr>as_rt := rt\<rparr>) = rt_running rt"
  "running_of (st\<lparr>as_rq := rq\<rparr>) = running_of st"
  "running_of (st\<lparr>as_dp := dp\<rparr>) = running_of st"
  "running_of (st\<lparr>as_rp := rp\<rparr>) = running_of st"
  "running_of (st\<lparr>as_out := out\<rparr>) = running_of st"
  "rt_running (as_rt st) = running_of st"
  by (simp_all add: running_of_def)

lemma view_instance_running:
  "rt_running (snd (yaf_view_simple_instance d opts rt)) = rt_running rt"
  by (simp add: yaf_view_simple_instance_def Let_def running_simps split: option.split zval.split)

lemma init_view_running [running_simps]: "running_of (snd (yaf_dispatcher_init_view d opts st)) = running_of st"
  using view_instance_running [of d opts "as_rt st"]
  by (auto simp: yaf_dispatcher_init_view_def running_simps split: option.split prod.split)

lemma send_running [running_simps]: "running_of (send_out st) = running_of st"
  by (simp add: send_out_def running_simps) (simp add: yaf_response_send_def rt_running_def running_of_def)

lemma error_request_running [running_simps]: "running_of (error_request st e) = running_of st"
  by (simp add: error_request_def Let_def running_simps)

lemma fix_default_running [running_simps]: "running_of (fix_default_st st) = running_of st"
  by (simp add: fix_default_st_def running_simps)

lemma fails_running [running_simps]: "running_of (snd (fails e m st)) = running_of st"
  by (simp add: fails_def running_simps)

section \<open>Through the code of the application\<close>

lemma user_running:
  assumes "keeps_running uc"
  shows "rt_runs rt \<longrightarrow> rt_runs (snd (uc_import uc p rt))"
    "runs st \<longrightarrow> runs (uc_init uc ce st)"
    "runs st \<longrightarrow> runs (snd (uc_call uc ce f args st))"
    "runs st \<longrightarrow> runs (uc_plugin uc i h st)"
    "runs st \<longrightarrow> runs (snd (uc_view uc ex m a st))"
    "runs st \<longrightarrow> runs (snd (uc_router uc st))"
    "rt_runs rt \<longrightarrow> rt_runs (snd (snd (uc_routes uc j rt rq)))"
    "rt_runs rt \<longrightarrow> rt_runs (snd (snd (uc_header_op uc l (out, rt))))"
  using assms by (simp_all add: keeps_running_def)

lemma user_call_running:
  assumes "keeps_running uc"
  shows "runs st \<longrightarrow> runs (snd (user_call (uc_call uc ce f args) st))"
    "runs st \<longrightarrow> runs (snd (user_call (uc_view uc ex m a) st))"
  by (simp_all add: user_call_def user_running [OF assms])

lemma send_headers_running:
  "keeps_running uc \<Longrightarrow> send_headers (uc_header_op uc) h (out, rt) = (b, out', rt') \<Longrightarrow> rt_runs rt \<longrightarrow> rt_runs rt'"
proof (induction h arbitrary: out rt)
  case (Cons kv h)
  obtain k v ok out1 rt1 where e: "kv = (k, v)" "uc_header_op uc (header_line k v) (out, rt) = (ok, out1, rt1)"
    by (metis prod.exhaust)
  then have "rt_runs rt \<longrightarrow> rt_runs rt1"
    using user_running(8) [OF Cons.prems(1), of rt "header_line k v" out] by simp
  with Cons e show ?case by (cases ok) auto
qed simp

lemma send_response_running:
  assumes "keeps_running uc"
  shows "runs st \<longrightarrow> runs (send_response uc st)"
proof (cases "rp_class (as_rp st)")
  case ResponseCli
  then show ?thesis by (simp add: send_response_def running_simps Let_def)
next
  case ResponseHttp
  obtain b out rt where s: "yaf_response_http_send (uc_header_op uc) (as_rp st) (as_out st) (as_rt st) = (b, out, rt)"
    by (metis prod.exhaust)
  then obtain out0 rt1 where "send_headers (uc_header_op uc) (rp_header (as_rp st)) (out0, as_rt st) = (b, out, rt1)"
    "rt_running rt = rt_running rt1"
    by (auto simp: yaf_response_http_send_def Let_def rt_running_def split: prod.splits bool.splits if_splits)
  then have "rt_runs (as_rt st) \<longrightarrow> rt_runs rt" using send_headers_running [OF assms] by auto
  with ResponseHttp s show ?thesis by (simp add: send_response_def running_simps)
qed

lemma autoload_running:
  assumes "keeps_running uc" "autoload_from (uc_import uc) file dir rt = Inr (ok, path, rt')"
  shows "rt_runs rt \<longrightarrow> rt_runs rt'"
  using assms(2) user_running(1) [OF assms(1), of rt]
  by (auto simp: autoload_from_def Let_def split_beta split: sum.splits)

lemma get_controller_running:
  assumes "keeps_running uc" "yaf_dispatcher_get_controller uc app m c d st = Inr (r, st')"
  shows "runs st \<longrightarrow> runs st'"
  using assms(2)
  by (auto simp: yaf_dispatcher_get_controller_def lost_class_def Let_def running_simps
      dest!: autoload_running [OF assms(1)] split: option.splits sum.splits if_splits prod.splits)

lemma import_running:
  "keeps_running uc \<Longrightarrow> uc_import uc p rt = (ok, rt') \<Longrightarrow> rt_runs rt \<longrightarrow> rt_runs rt'"
  using user_running(1) [of uc rt p] by simp

lemma action_extends_running:
  "action_extends cls ce st = Inr (r, st') \<Longrightarrow> runs st \<longrightarrow> runs st'"
  by (auto simp: action_extends_def lost_class_def running_simps split: if_splits)

lemma get_action_running:
  assumes "keeps_running uc" "yaf_dispatcher_get_action uc app ctrl m d a st = Inr (r, st')"
  shows "runs st \<longrightarrow> runs st'"
  using assms(2)
  by (auto simp: yaf_dispatcher_get_action_def mapped_action_def compatible_action_def lost_class_def Let_def
      running_simps dest!: autoload_running [OF assms(1)] import_running [OF assms(1)] action_extends_running
      split: option.splits sum.splits if_splits prod.splits zval.splits)

lemma handle_render_running:
  assumes "keeps_running uc"
  shows "runs st \<longrightarrow> runs (snd (handle_render uc ex a st))"
  using user_call_running(2) [OF assms, of st ex _ a]
  by (auto simp: handle_render_def Let_def running_simps split_beta split: zval.split)

lemma run_executor_running:
  assumes "keeps_running uc" "run_executor uc ex f names a st = Inr (b, st')"
  shows "runs st \<longrightarrow> runs st'"
proof -
  obtain args where args: "call_args (rq_params (as_rq st)) names = Inr args"
    using assms(2) by (auto simp: run_executor_def split: sum.splits)
  obtain ret s where s: "user_call (uc_call uc (ex_class ex) f args) st = (ret, s)" by fastforce
  then have "runs st \<longrightarrow> runs s"
    using user_call_running(1) [OF assms(1), of st "ex_class ex" f args] by simp
  moreover have "st' = s \<or> st' = snd (handle_render uc ex a s)"
    using assms(2) by (auto simp: run_executor_def args s split: zval.splits)
  ultimately show ?thesis using handle_render_running [OF assms(1)] by metis
qed

lemma construct_running: "keeps_running uc \<Longrightarrow> runs st \<longrightarrow> runs (controller_construct uc ce st)"
  by (simp add: controller_construct_def user_running)

lemma handle_action_running:
  assumes "keeps_running uc" "handle_action uc app d ce st = Inr (b, st')"
  shows "runs st \<longrightarrow> runs st'"
  using assms(2)
  by (auto simp: handle_action_def directory_module_def handle_method_def Let_def running_simps
      construct_running [OF assms(1)] dest!: run_executor_running [OF assms(1)] get_action_running [OF assms(1)]
      split: if_splits zval.splits option.splits sum.splits prod.splits)

lemma handle_prepare_running:
  assumes "keeps_running uc" "handle_prepare uc st = Inr r"
  shows "\<forall>st'. r = Refused st' \<or> (\<exists>app d ce. r = Prepared app d ce st') \<longrightarrow> runs st \<longrightarrow> runs st'"
  using assms(2)
  by (auto simp: handle_prepare_def Let_def running_simps construct_running [OF assms(1)]
      dest!: get_controller_running [OF assms(1)] split: option.splits sum.splits if_splits)

lemma handle_running:
  assumes uc: "keeps_running uc" and "yaf_dispatcher_handle uc st = Some (Inr (b, st'))"
  shows "runs st \<longrightarrow> runs st'"
proof -
  have "yaf_dispatcher_handle u s = Some r \<Longrightarrow>
      u = uc \<longrightarrow> (\<forall>b s'. r = Inr (b, s') \<longrightarrow> runs s \<longrightarrow> runs s')" for u s r
  proof (rule yaf_dispatcher_handle.raw_induct
      [where P = "\<lambda>u s r. u = uc \<longrightarrow> (\<forall>b s'. r = Inr (b, s') \<longrightarrow> runs s \<longrightarrow> runs s')"], goal_cases)
    case (1 handle u s r)
    note IH = 1(2) and body = 1(3)
    show ?case
    proof (rule impI, rule allI, rule allI, rule impI)
      fix b0 s1 assume u: "u = uc" and r: "r = Inr (b0, s1)"
      show "runs s \<longrightarrow> runs s1"
      proof (cases "handle_prepare uc s")
        case (Inl e)
        with body r u show ?thesis by simp
      next
        case (Inr p)
        note keep = handle_prepare_running [OF uc this]
        show ?thesis
        proof (cases p)
          case (Refused s')
          with body r u Inr keep show ?thesis by auto
        next
          case (Prepared app d ce s')
          then have "s1 = s' \<or> handle uc s' = Some (Inr (b0, s1)) \<or> handle_action uc app d ce s' = Inr (b0, s1)"
            using body r u Inr by (auto split: if_splits)
          moreover have "runs s \<longrightarrow> runs s'" using keep Prepared by blast
          ultimately show ?thesis using IH [of uc s'] handle_action_running [OF uc] by metis
        qed
      qed
    qed
  qed
  with assms(2) show ?thesis by blast
qed

lemma init_view_eq_running:
  "yaf_dispatcher_init_view d opts st = (v, st') \<Longrightarrow> runs st \<longrightarrow> runs st'"
  using init_view_running [of d opts st] by simp

lemma map_Inr_pair:
  "map_option (\<lambda>r. case r of Inl e \<Rightarrow> Inl e | Inr (x, s) \<Rightarrow> Inr s) m = Some (Inr st') \<Longrightarrow> \<exists>x. m = Some (Inr (x, st'))"
  by (cases m) (auto split: sum.splits)

lemma map_Inr_False:
  "map_option (\<lambda>r. case r of Inl e \<Rightarrow> Inl e | Inr s \<Rightarrow> Inr (False, s)) m = Some (Inr (b, st')) \<Longrightarrow>
     m = Some (Inr st') \<and> \<not> b"
  by (cases m) (auto split: sum.splits)

lemma fallback_running:
  assumes "keeps_running uc" "exception_fallback uc st = Some (Inr st')"
  shows "runs st \<longrightarrow> runs st'"
  using assms(2)
  by (auto simp: exception_fallback_def running_simps simp del: map_option_eq_Some
      dest!: map_Inr_pair handle_running [OF assms(1)] split: option.split_asm if_split_asm)

lemma exception_handler_running:
  assumes "keeps_running uc" "yaf_dispatcher_exception_handler uc st = Some (Inr st')"
  shows "runs st \<longrightarrow> runs st'"
  using assms(2)
  by (auto simp: yaf_dispatcher_exception_handler_def Let_def running_simps
      dest!: handle_running [OF assms(1)] fallback_running [OF assms(1)] init_view_eq_running
      split: option.splits if_splits sum.splits prod.splits bool.splits)

lemma catch_running:
  assumes "keeps_running uc" "catch_exception uc st = Some (Inr st')"
  shows "runs st \<longrightarrow> runs st'"
  using assms(2)
  by (auto simp: catch_exception_def dest!: exception_handler_running [OF assms(1)]
      split: option.splits if_splits)

lemma run_plugins_running: "keeps_running uc \<Longrightarrow> runs st \<longrightarrow> runs (run_plugins uc ps h st)"
  by (induction ps arbitrary: st) (simp_all add: user_running)

lemma plugin_hook_running:
  assumes "keeps_running uc" "plugin_hook uc h st = Some (Inr (b, st'))"
  shows "runs st \<longrightarrow> runs st'"
  using assms(2) run_plugins_running [OF assms(1), of st "dp_plugins (as_dp st)" h]
  by (auto simp: plugin_hook_def Let_def simp del: map_option_eq_Some
      dest!: map_Inr_False catch_running [OF assms(1)] split: if_split_asm)

lemma call_route_running:
  assumes "keeps_running uc" "call_route (uc_pcre uc) (uc_routes uc) r rt rq = Inr (b, rq', rt')"
  shows "rt_runs rt \<longrightarrow> rt_runs rt'"
  using assms(2) user_running(7) [OF assms(1), of rt _ rq]
  by (cases r) (auto simp: call_route_def split: if_splits sum.splits prod.splits, metis snd_conv)

lemma router_try_running:
  "keeps_running uc \<Longrightarrow> router_try (call_route (uc_pcre uc) (uc_routes uc)) rs rq rt = Inr (k, rq', rt') \<Longrightarrow>
     rt_runs rt \<longrightarrow> rt_runs rt'"
proof (induction rs arbitrary: rq rt)
  case (Cons kr rs)
  then show ?case
    by (cases kr) (auto dest: call_route_running split: sum.splits if_splits)
qed simp

lemma route_running:
  assumes "keeps_running uc" "yaf_dispatcher_route uc st = Inr (b, st')"
  shows "runs st \<longrightarrow> runs st'"
  using assms(2) user_running(6) [OF assms(1), of st]
  by (auto simp: yaf_dispatcher_route_def yaf_router_route_def fails_def running_simps Let_def split_beta
      dest!: router_try_running [OF assms(1)]
      split: dispatch_router.splits sum.splits option.splits if_splits prod.splits)

section \<open>Through a dispatch\<close>

fun step_state :: "step \<Rightarrow> app_state" where
  "step_state (Stopped st) = st"
| "step_state (Went st) = st"

lemma stop_after_eq:
  "stop_after r = Some (Inr s) \<Longrightarrow> \<exists>st. r = Some (Inr st) \<and> s = Stopped st"
  by (cases r) (auto simp: stop_after_def split: sum.splits)

lemma dispatch_once_running:
  assumes "keeps_running uc" "dispatch_once uc st = Some (Inr s)"
  shows "runs st \<longrightarrow> runs (step_state s)"
  using assms(2)
  by (auto simp: dispatch_once_def running_simps
      dest!: plugin_hook_running [OF assms(1)] handle_running [OF assms(1)] stop_after_eq catch_running [OF assms(1)]
      split: option.splits sum.splits prod.splits bool.splits)

lemma dispatch_loop_running:
  "keeps_running uc \<Longrightarrow> dispatch_loop uc n st = Some (Inr (m, s)) \<Longrightarrow> runs st \<longrightarrow> runs (step_state s)"
proof (induction uc n st rule: dispatch_loop.induct)
  case (1 uc n st)
  note loop = "1.prems"(2) [unfolded dispatch_loop.simps [of uc n st]]
  obtain t where t: "dispatch_once uc st = Some (Inr t)"
    using loop by (auto split: option.splits sum.splits)
  note kept = dispatch_once_running [OF "1.prems"(1) t]
  show ?case
  proof (cases t)
    case (Stopped s')
    with loop t kept show ?thesis by simp
  next
    case (Went s')
    show ?thesis
    proof (cases "n - 1 > 0 \<and> \<not> yaf_request_is_dispatched (as_rq s')")
      case True
      with loop t Went have "dispatch_loop uc (n - 1) s' = Some (Inr (m, s))" by (simp add: Let_def)
      with 1 True t Went kept show ?thesis by simp
    next
      case False
      with loop t Went have "s = Went s'" by (auto simp: Let_def split: if_splits)
      with kept Went show ?thesis by simp
    qed
  qed
qed

lemma dispatch_finish_running:
  assumes "keeps_running uc" "dispatch_finish uc n st = Some (Inr (b, st'))"
  shows "runs st \<longrightarrow> runs st'"
  using assms(2)
  by (auto simp: dispatch_finish_def running_simps send_response_running [OF assms(1), THEN mp] simp del: map_option_eq_Some
      dest!: plugin_hook_running [OF assms(1)] map_Inr_False catch_running [OF assms(1)]
      split: option.split_asm sum.split_asm prod.split_asm bool.split_asm if_split_asm)

lemma dispatch_route_running:
  assumes "keeps_running uc" "dispatch_route uc st = Some (Inr (b, st'))"
  shows "runs st \<longrightarrow> runs st'"
  using assms(2)
  by (auto simp: dispatch_route_def running_simps simp del: map_option_eq_Some
      dest!: plugin_hook_running [OF assms(1)] map_Inr_False catch_running [OF assms(1)] route_running [OF assms(1)]
      split: option.split_asm sum.split_asm prod.split_asm bool.split_asm if_split_asm)

lemma dispatch_running:
  assumes "keeps_running uc" "yaf_dispatcher_dispatch uc st = Some (Inr (b, st'))"
  shows "runs st \<longrightarrow> runs st'"
  using assms(2)
  by (auto simp: yaf_dispatcher_dispatch_def Let_def fails_def running_simps
      dest!: plugin_hook_running [OF assms(1)] dispatch_route_running [OF assms(1)]
        dispatch_loop_running [OF assms(1)] dispatch_finish_running [OF assms(1)] init_view_eq_running
      split: option.split_asm sum.split_asm prod.split_asm bool.split_asm if_split_asm step.split_asm)

lemma bootstrap_running:
  assumes "keeps_running uc" "application_bootstrap uc dpz st = Inr (b, st')"
  shows "runs st \<longrightarrow> runs st'"
proof -
  have loop: "runs s \<longrightarrow> runs (snd (bootstrap_loop uc ce dpz fs s))" for ce fs s
    by (induction fs arbitrary: s)
      (auto simp: Let_def split_beta user_call_running [OF assms(1)])
  have cls: "bootstrap_class uc st = Inr (r, s) \<Longrightarrow> runs st \<longrightarrow> runs s" for r s
    by (auto simp: bootstrap_class_def Let_def running_simps dest!: import_running [OF assms(1)]
        split: option.split_asm sum.split_asm prod.split_asm if_split_asm)
  show ?thesis
    using assms(2) loop
    by (auto simp: application_bootstrap_def dest!: cls split: sum.split_asm prod.split_asm option.split_asm)
      (metis snd_conv)
qed

section \<open>The lifetime of an application\<close>

text \<open>
  The calls on an application and its dispatcher, \<open>run\<close> with its answer.  A function of the user
  and a setter of the dispatcher are given by what they do to the state.
\<close>

datatype app_call =
    CallRun run_answer
  | CallBootstrap
  | CallExecute
  | CallClearLastError
  | CallSetAppDirectory
  | CallDispatcher

inductive app_step :: "user_code \<Rightarrow> app_state \<Rightarrow> app_call \<Rightarrow> app_state \<Rightarrow> bool" for uc where
  step_run: "application_run uc st = Some (Inr (a, st')) \<Longrightarrow> app_step uc st (CallRun a) st'"
| step_bootstrap: "application_bootstrap uc dpz st = Inr (b, st') \<Longrightarrow> app_step uc st CallBootstrap st'"
| step_execute: "(\<And>s. runs s \<Longrightarrow> runs (snd (f s))) \<Longrightarrow> application_execute f st = (v, st') \<Longrightarrow>
    app_step uc st CallExecute st'"
| step_clear: "app_step uc st CallClearLastError (on_rt application_clearLastError st)"
| step_directory: "application_setAppDirectory d (as_rt st) = Inr (b, rt') \<Longrightarrow>
    app_step uc st CallSetAppDirectory (st\<lparr>as_rt := rt'\<rparr>)"
| step_dispatcher: "app_step uc st CallDispatcher (st\<lparr>as_dp := dp\<rparr>)"

inductive_cases run_stepE: "app_step uc st (CallRun a) st'"

inductive app_trace :: "user_code \<Rightarrow> app_state \<Rightarrow> app_call list \<Rightarrow> app_state \<Rightarrow> bool" for uc st where
  trace_start: "app_trace uc st [] st"
| trace_step: "app_trace uc st tr s \<Longrightarrow> app_step uc s c s' \<Longrightarrow> app_trace uc st (tr @ [c]) s'"

fun dispatched_run :: "app_call \<Rightarrow> bool" where
  \<comment> \<open>the calls of \<open>run\<close> that went to the dispatcher\<close>
  "dispatched_run (CallRun RunTrue) = False"
| "dispatched_run (CallRun _) = True"
| "dispatched_run _ = False"

lemma set_running_simps [simp]:
  "rt_app rt \<noteq> None \<Longrightarrow> rt_running (set_running b rt) = Some b"
  by (auto simp: rt_running_def set_running_def)

definition refused_run :: "app_state \<Rightarrow> app_state" where
  \<comment> \<open>nothing but the error is reported: dispatcher, request, response and output are as they were\<close>
  "refused_run = on_rt (yaf_trigger_error ERR_STARTUP_FAILED ''An application instance already run'')"

lemma run_while_running:
  assumes "runs st"
  shows "application_run uc st = Some (Inr (RunTrue, refused_run st))"
proof -
  obtain app where "rt_app (as_rt st) = Some app" "app_running app"
    using assms by (auto simp: running_of_def rt_running_def)
  then show ?thesis by (simp add: application_run_def refused_run_def)
qed

lemma run_running:
  assumes "keeps_running uc" "application_run uc st = Some (Inr (a, st'))"
  shows "runs st' \<and> (dispatched_run (CallRun a) \<longleftrightarrow> \<not> runs st)"
proof -
  obtain app where app: "rt_app (as_rt st) = Some app"
    using assms(2) by (auto simp: application_run_def split: option.splits)
  then have now: "running_of st = Some (app_running app)" by (simp add: running_of_def rt_running_def)
  show ?thesis
  proof (cases "app_running app")
    case True
    with now assms(2) have "a = RunTrue" "st' = refused_run st"
      by (simp_all add: run_while_running)
    with True now show ?thesis by (simp add: refused_run_def running_simps)
  next
    case False
    have eq: "application_run uc st = map_option (map_sum id (map_prod (\<lambda>b. if b then RunResponse else RunFalse) id))
        (yaf_dispatcher_dispatch uc (on_rt (set_running True) st))"
      unfolding application_run_def app option.case using False by (simp only: if_False)
    then obtain r where r: "yaf_dispatcher_dispatch uc (on_rt (set_running True) st) = Some r"
      "map_sum id (map_prod (\<lambda>b. if b then RunResponse else RunFalse) id) r = Inr (a, st')"
      using assms(2) unfolding eq map_option_eq_Some by blast
    obtain b where b: "r = Inr (b, st')" "a = (if b then RunResponse else RunFalse)"
    proof (cases r)
      case (Inl e)
      with r(2) show ?thesis by (simp only: map_sum.simps sum.distinct)
    next
      case (Inr p)
      obtain b s where "p = (b, s)" by (cases p)
      with r(2) Inr that show ?thesis by simp
    qed
    have "runs st'"
      using dispatch_running [OF assms(1) r(1) [unfolded b(1)]] app by (simp add: running_simps)
    with False now b(2) show ?thesis by simp
  qed
qed

lemma step_running:
  assumes "keeps_running uc" "app_step uc st c st'"
  shows "(runs st \<longrightarrow> runs st' \<and> \<not> dispatched_run c) \<and> (dispatched_run c \<longrightarrow> runs st')"
  using assms(2)
proof cases
  case (step_run a)
  then show ?thesis using run_running [OF assms(1), of st a st'] by auto
next
  case (step_bootstrap dpz b)
  then show ?thesis using bootstrap_running [OF assms(1)] by auto
next
  case (step_execute f v)
  then have "runs st \<longrightarrow> runs st'"
    by (cases "throws st"; cases "f st") (auto simp: application_execute_def user_call_def, metis snd_conv)
  with step_execute show ?thesis by simp
next
  case step_clear
  then show ?thesis
    by (auto simp: running_of_def rt_running_def application_clearLastError_def)
next
  case (step_directory d b rt')
  then show ?thesis
    by (auto simp: application_setAppDirectory_def running_simps split: if_splits option.splits)
next
  case (step_dispatcher dp)
  then show ?thesis by (simp add: running_simps)
qed

lemma trace_running:
  assumes "keeps_running uc" "app_trace uc st0 tr st"
  shows "(runs st0 \<longrightarrow> runs st \<and> filter dispatched_run tr = [])
    \<and> (filter dispatched_run tr \<noteq> [] \<longrightarrow> runs st) \<and> length (filter dispatched_run tr) \<le> 1"
  using assms(2)
proof induction
  case (trace_step tr s c s')
  with step_running [OF assms(1) trace_step.hyps(2)] show ?case
    by (cases "dispatched_run c"; cases "filter dispatched_run tr") auto
qed simp

text \<open>
  C2: Once an application was run, by a call from outside or by the code it runs itself (a
  bootstrap method or a function under \<open>execute\<close> may call \<open>run\<close>, which sets its running flag), no
  call of \<open>run\<close> goes to the dispatcher any more, whatever is called in between and whatever the
  plugins, the actions and the error controller do: in every state the application can get to, \<open>run\<close>
  answers at once, and all it does is to report that the application already runs.  So of the
  calls of any history at most one goes to the dispatcher.
\<close>

theorem application_runs_once:
  assumes "keeps_running uc" "app_trace uc st0 tr st" "app_trace uc st tr' st'"
    and "runs st \<or> (\<exists>c \<in> set tr. dispatched_run c)"
  shows "application_run uc st' = Some (Inr (RunTrue, refused_run st'))
    \<and> (\<forall>c \<in> set tr'. \<not> dispatched_run c) \<and> length (filter dispatched_run (tr @ tr')) \<le> 1"
proof -
  note before = trace_running [OF assms(1,2)] and after = trace_running [OF assms(1,3)]
  have "runs st" using assms(4) before by (auto simp: filter_empty_conv)
  with after have "runs st'" "filter dispatched_run tr' = []" by auto
  then show ?thesis
    using before run_while_running by (auto simp: filter_empty_conv)
qed

lemma sample_user_keeps: "keeps_running sample_user"
proof -
  have "forward_from (Forward1 (ZString a)) st = on_rq (\<lambda>rq. yaf_request_set_dispatched False (rq\<lparr>rq_action := ZString a\<rparr>)) st" for a st
    by (simp add: forward_from_def controller_forward_def forward_update_def on_rq_def)
  moreover have "rt_running (php_write s rt) = rt_running rt" for s rt
    by (simp add: rt_running_def php_write_def)
  ultimately show ?thesis
    by (simp add: keeps_running_def sample_user_def running_simps)
qed

definition nested_run :: "app_state \<Rightarrow> zval \<times> app_state" where
  \<comment> \<open>a function of the user that runs the application\<close>
  "nested_run st =
     (case application_run sample_user st of Some (Inr (_, st')) \<Rightarrow> (ZNull, st') | _ \<Rightarrow> (ZUndef, st))"

lemma nested_run_keeps: "runs st \<Longrightarrow> runs (snd (nested_run st))"
  using run_running [OF sample_user_keeps] by (auto simp: nested_run_def split: option.split sum.split)

lemma application_runs_once_witness:
  "\<exists>w' st0 st. application_construct sample_outside (ZArray sample_conf) None sample_world = Inr (True, w')
     \<and> world_state (yaf_response_instance ''cli'') \<lparr>so_code = 200, so_headers = []\<rparr> w' = Some st0
     \<and> app_trace sample_user st0 [CallExecute] st \<and> \<not> runs st0
     \<and> application_run sample_user (on_rt application_clearLastError st)
         = Some (Inr (RunTrue, refused_run (on_rt application_clearLastError st)))"
proof -
  let ?rp = "yaf_response_instance ''cli''" and ?out = "\<lparr>so_code = 200, so_headers = []\<rparr>"
  have "case application_construct sample_outside (ZArray sample_conf) None sample_world of
      Inl e \<Rightarrow> False
    | Inr (ok, w') \<Rightarrow> ok \<and> (case world_state ?rp ?out w' of None \<Rightarrow> False
        | Some st0 \<Rightarrow> running_of st0 = Some False \<and> running_of (snd (application_execute nested_run st0)) = Some True)"
    by code_simp
  then obtain w' st0 v st where s: "application_construct sample_outside (ZArray sample_conf) None sample_world = Inr (True, w')"
    "world_state ?rp ?out w' = Some st0" "\<not> runs st0" "application_execute nested_run st0 = (v, st)" "runs st"
    by (auto split: sum.split_asm option.split_asm prod.split_asm) (metis prod.collapse)
  have "app_trace sample_user st0 ([] @ [CallExecute]) st"
    by (rule trace_step [OF trace_start step_execute [OF nested_run_keeps s(4)]])
  moreover have "app_trace sample_user st ([] @ [CallClearLastError]) (on_rt application_clearLastError st)"
    by (rule trace_step [OF trace_start step_clear])
  ultimately show ?thesis
    using application_runs_once [OF sample_user_keeps, of st0 "[CallExecute]" st "[CallClearLastError]"
        "on_rt application_clearLastError st"] s by auto
qed

end
