(* ===== verification/Yaf_Methods.thy ===== *)
theory Yaf_Methods
  imports Yaf_Dispatcher Complex_Main
begin

text \<open>
  The methods of the request, the response, the view, the controller, the dispatcher, the
  router, the action and the plugin class the other theories do not need: reading the
  superglobals through a request, the language a client prefers, and the entry points of the
  components for a script.
\<close>

section \<open>The request\<close>

definition request_isMethod :: "string \<Rightarrow> yaf_request \<Rightarrow> mem_error + bool" where
  \<comment> \<open>\<open>isGet\<close>, \<open>isPost\<close> and so on; the property is read as a string without a test\<close>
  "request_isMethod lit rq =
     (case rq_method rq of
        ZString m \<Rightarrow> Inr (zend_string_equals_ci m lit)
      | _ \<Rightarrow> Inl WildRead)"

definition request_getVar :: "http_var \<Rightarrow> string option \<Rightarrow> zval option \<Rightarrow> php_rt \<Rightarrow> zval" where
  \<comment> \<open>\<open>getServer\<close>, \<open>getEnv\<close>, \<open>getQuery\<close> and so on\<close>
  "request_getVar type name dflt rt =
     (case name of
        None \<Rightarrow> ZArray (rt_http rt type)
      | Some n \<Rightarrow>
          (case yaf_request_query rt type n of
             Some v \<Rightarrow> v
           | None \<Rightarrow> (case dflt of Some d \<Rightarrow> d | None \<Rightarrow> ZNull)))"

definition first_var :: "http_var list \<Rightarrow> string \<Rightarrow> php_rt \<Rightarrow> zval option" where
  "first_var types name rt =
     (case List.map_filter (\<lambda>t. hfind (rt_http rt t) (KStr name)) types of [] \<Rightarrow> None | v # _ \<Rightarrow> Some v)"

definition request_get :: "string \<Rightarrow> zval option \<Rightarrow> php_rt \<Rightarrow> yaf_request \<Rightarrow> zval" where
  \<comment> \<open>the parameters, then POST, GET, cookies and the server's variables\<close>
  "request_get name dflt rt rq =
     (case yaf_request_get_param rq name of
        Some v \<Rightarrow> v
      | None \<Rightarrow>
          (case first_var [VARS_POST, VARS_GET, VARS_COOKIE, VARS_SERVER] name rt of
             Some v \<Rightarrow> v
           | None \<Rightarrow> (case dflt of Some d \<Rightarrow> d | None \<Rightarrow> ZNull)))"

definition xhr_header :: "string \<Rightarrow> php_rt \<Rightarrow> bool" where
  \<comment> \<open>compares as many bytes as the header has\<close>
  "xhr_header name rt =
     (case yaf_request_query rt VARS_SERVER name of
        Some (ZString h) \<Rightarrow> strncasecmp0 ''XMLHttpRequest'' (cstr h) (length h)
      | _ \<Rightarrow> False)"

definition request_http_isXmlHttpRequest :: "php_rt \<Rightarrow> bool" where
  "request_http_isXmlHttpRequest rt = xhr_header ''HTTP_X_REQUESTED_WITH'' rt"

definition request_simple_isXmlHttpRequest :: "php_rt \<Rightarrow> bool" where
  "request_simple_isXmlHttpRequest rt = xhr_header ''X-Requested-With'' rt"

definition request_setRequestUri :: "string \<Rightarrow> yaf_request \<Rightarrow> yaf_request" where
  "request_setRequestUri uri rq = rq\<lparr>rq_uri := uri\<rparr>"

definition request_setDispatched :: "yaf_request \<Rightarrow> yaf_request" where
  "request_setDispatched rq = yaf_request_set_dispatched True rq"

definition request_setRouted :: "yaf_request \<Rightarrow> yaf_request" where
  "request_setRouted rq = yaf_request_set_routed True rq"

subsection \<open>The language\<close>

text \<open>
  \<open>Accept-Language: da, en-gb;q=0.8, en;q=0.7\<close>.  The number behind \<open>q=\<close> is read by \<open>strtod\<close> and
  rounded to a \<open>float\<close>, which is a parameter: the exact value of that float.
\<close>

type_synonym float_of = "string \<Rightarrow> rat"

fun language_loop :: "float_of \<Rightarrow> string list \<Rightarrow> rat \<Rightarrow> string option \<Rightarrow> mem_error + string option" where
  \<comment> \<open>an entry that starts with \<open>q=\<close> makes the length of the copy \<open>-1\<close>\<close>
  "language_loop f [] best pref = Inr pref"
| "language_loop f (seg # segs) best pref =
     (let t = dropWhile (\<lambda>c. c = CHR '' '') seg
      in case strstr t ''q='' of
           Some i \<Rightarrow>
             (let q = f (drop (i + 2) t)
              in if q > best then (if i = 0 then Inl OutOfBounds else language_loop f segs q (Some (take (i - 1) t)))
                 else language_loop f segs best pref)
         | None \<Rightarrow>
             if best < 1 then language_loop f segs 1 (Some t) else language_loop f segs best pref)"

definition yaf_request_get_language ::
    "float_of \<Rightarrow> php_rt \<Rightarrow> yaf_request \<Rightarrow> mem_error + (zval option \<times> yaf_request)" where
  \<comment> \<open>a header in which nothing is wanted destroys a variable that was never set\<close>
  "yaf_request_get_language f rt rq =
     (if is_string (rq_lang rq) then Inr (Some (rq_lang rq), rq)
      else case yaf_request_query rt VARS_SERVER ''HTTP_ACCEPT_LANGUAGE'' of
             Some (ZString langs) \<Rightarrow>
               if langs = [] then Inr (None, rq)
               else (case language_loop f (strtok_all '','' (Some (cstr langs))) 0 None of
                       Inl e \<Rightarrow> Inl e
                     | Inr None \<Rightarrow> Inl WildRead
                     | Inr (Some p) \<Rightarrow> Inr (Some (ZString p), rq\<lparr>rq_lang := ZString p\<rparr>))
           | _ \<Rightarrow> Inr (None, rq))"

definition request_getLanguage :: "float_of \<Rightarrow> php_rt \<Rightarrow> yaf_request \<Rightarrow> mem_error + (zval \<times> yaf_request)" where
  "request_getLanguage f rt rq =
     map_sum id (\<lambda>(v, rq'). (case v of Some l \<Rightarrow> l | None \<Rightarrow> ZNull, rq')) (yaf_request_get_language f rt rq)"

definition language_weight :: "float_of \<Rightarrow> string \<Rightarrow> rat" where
  "language_weight f seg =
     (let t = dropWhile (\<lambda>c. c = CHR '' '') seg
      in case strstr t ''q='' of Some i \<Rightarrow> f (drop (i + 2) t) | None \<Rightarrow> 1)"

definition language_name :: "string \<Rightarrow> string" where
  "language_name seg =
     (let t = dropWhile (\<lambda>c. c = CHR '' '') seg
      in case strstr t ''q='' of Some i \<Rightarrow> take (i - 1) t | None \<Rightarrow> t)"

lemma language_loop_step:
  assumes "language_loop f (seg # segs) best pref = Inr p"
  shows "language_loop f segs (max best (language_weight f seg))
    (if language_weight f seg > best then Some (language_name seg) else pref) = Inr p"
  using assms
  by (auto simp: language_weight_def language_name_def Let_def max_def not_less split: option.splits if_splits)

lemma language_loop_best:
  "language_loop f segs best pref = Inr p \<Longrightarrow>
     (p = pref \<and> (\<forall>seg \<in> set segs. language_weight f seg \<le> best)) \<or>
     (\<exists>i < length segs. p = Some (language_name (segs ! i)) \<and> best < language_weight f (segs ! i)
        \<and> (\<forall>j < length segs. language_weight f (segs ! j) \<le> language_weight f (segs ! i))
        \<and> (\<forall>j < i. language_weight f (segs ! j) < language_weight f (segs ! i)))"
proof (induction segs arbitrary: best pref)
  case (Cons seg segs)
  let ?w = "language_weight f"
  consider "(p = (if ?w seg > best then Some (language_name seg) else pref)
        \<and> (\<forall>s \<in> set segs. ?w s \<le> max best (?w seg)))"
    | i where "i < length segs" "p = Some (language_name (segs ! i))" "max best (?w seg) < ?w (segs ! i)"
        "\<forall>j < length segs. ?w (segs ! j) \<le> ?w (segs ! i)" "\<forall>j < i. ?w (segs ! j) < ?w (segs ! i)"
    using Cons.IH [OF language_loop_step [OF Cons.prems]] by blast
  then show ?case
  proof cases
    case 1
    show ?thesis
    proof (cases "?w seg > best")
      case True
      with 1 have "\<forall>j < length (seg # segs). ?w ((seg # segs) ! j) \<le> ?w seg"
        by (auto simp: nth_Cons max_def split: nat.split)
      with 1 True show ?thesis by (intro disjI2 exI [of _ 0]) simp
    next
      case False
      with 1 show ?thesis by (auto simp: max_def not_less)
    qed
  next
    case (2 i)
    then have "\<forall>j < length (seg # segs). ?w ((seg # segs) ! j) \<le> ?w (segs ! i)"
      "\<forall>j < Suc i. ?w ((seg # segs) ! j) < ?w (segs ! i)"
      by (auto simp: nth_Cons split: nat.split)
    with 2 show ?thesis by (intro disjI2 exI [of _ "Suc i"]) simp
  qed
qed simp

text \<open>
  The language of a request is the first of the header's entries that has the highest weight,
  an entry without a weight counting as one.
\<close>

lemma language_is_best:
  assumes "\<not> is_string (rq_lang rq)"
    and "yaf_request_query rt VARS_SERVER ''HTTP_ACCEPT_LANGUAGE'' = Some (ZString langs)"
    and "yaf_request_get_language f rt rq = Inr (Some l, rq')"
  shows "let segs = strtok_all '','' (Some (cstr langs))
    in \<exists>i < length segs. l = ZString (language_name (segs ! i)) \<and> rq' = rq\<lparr>rq_lang := l\<rparr>
      \<and> 0 < language_weight f (segs ! i)
      \<and> (\<forall>j < length segs. language_weight f (segs ! j) \<le> language_weight f (segs ! i))
      \<and> (\<forall>j < i. language_weight f (segs ! j) < language_weight f (segs ! i))"
proof -
  let ?segs = "strtok_all '','' (Some (cstr langs))"
  obtain p where p: "language_loop f ?segs 0 None = Inr (Some p)" "l = ZString p" "rq' = rq\<lparr>rq_lang := l\<rparr>"
    using assms by (auto simp: yaf_request_get_language_def split: if_splits sum.splits option.splits)
  from language_loop_best [OF p(1)] p(2,3) show ?thesis by (simp add: Let_def)
qed

section \<open>The dispatcher\<close>

definition dispatcher_setRequest :: "yaf_request option \<Rightarrow> app_state \<Rightarrow> bool \<times> app_state" where
  \<comment> \<open>\<^const>\<open>None\<close> is a value that is no request\<close>
  "dispatcher_setRequest rq st =
     (case rq of
        None \<Rightarrow> (False, on_rt (php_error_docref (EWarning ''Expects a Yaf_Request_Abstract instance'')) st)
      | Some r \<Rightarrow> yaf_dispatcher_set_request (Some r) st)"

definition dispatcher_dispatch ::
    "user_code \<Rightarrow> yaf_request \<Rightarrow> app_state \<Rightarrow> (mem_error + (bool \<times> app_state)) option" where
  "dispatcher_dispatch uc rq st =
     yaf_dispatcher_dispatch uc (st\<lparr>as_rq := rq, as_dp := (as_dp st)\<lparr>dp_has_request := True\<rparr>\<rparr>)"

definition dispatcher_initView ::
    "zval \<Rightarrow> zval option \<Rightarrow> app_state \<Rightarrow> mem_error + (yaf_view \<times> app_state)" where
  \<comment> \<open>the view is returned without a test\<close>
  "dispatcher_initView tpl_dir options st =
     (case yaf_dispatcher_init_view (Some tpl_dir) options st of
        (None, st') \<Rightarrow> Inl NullDeref
      | (Some v, st') \<Rightarrow> Inr (v, st'))"

definition dispatcher_setErrorHandler ::
    "(zval list \<Rightarrow> php_rt \<Rightarrow> bool \<times> php_rt) \<Rightarrow> zval \<Rightarrow> zval option \<Rightarrow> php_rt \<Rightarrow> bool \<times> php_rt" where
  \<comment> \<open>the first argument is PHP's \<open>set_error_handler\<close>\<close>
  "dispatcher_setErrorHandler set_error_handler callback types rt =
     (case set_error_handler (callback # (case types of Some t \<Rightarrow> [t] | None \<Rightarrow> [])) rt of
        (True, rt') \<Rightarrow> (True, rt')
      | (False, rt') \<Rightarrow> (False, php_error_docref (EWarning ''Call to set_error_handler failed'') rt'))"

section \<open>Response, view and controller\<close>

definition response_appendBody :: "string \<Rightarrow> string option \<Rightarrow> yaf_response \<Rightarrow> yaf_response" where
  "response_appendBody body name rp = yaf_response_alter_body rp name body RESPONSE_APPEND"

definition response_prependBody :: "string \<Rightarrow> string option \<Rightarrow> yaf_response \<Rightarrow> yaf_response" where
  "response_prependBody body name rp = yaf_response_alter_body rp name body RESPONSE_PREPEND"

definition response_setBody :: "string \<Rightarrow> string option \<Rightarrow> yaf_response \<Rightarrow> yaf_response" where
  "response_setBody body name rp = yaf_response_alter_body rp name body RESPONSE_REPLACE"

definition response_http_getHeader :: "string option \<Rightarrow> yaf_response \<Rightarrow> body_view option" where
  \<comment> \<open>\<^const>\<open>None\<close> is \<open>null\<close>\<close>
  "response_http_getHeader name rp = yaf_response_get_header rp name"

definition response_http_clearHeaders :: "yaf_response \<Rightarrow> yaf_response" where
  "response_http_clearHeaders rp = yaf_response_clear_header rp None"

datatype assign_args = AssignMany zval | AssignOne string zval

fun view_assign :: "assign_args \<Rightarrow> yaf_view \<Rightarrow> bool \<times> yaf_view" where
  "view_assign (AssignMany v) vw = yaf_view_simple_assign_multi v vw"
| "view_assign (AssignOne name v) vw = (True, yaf_view_simple_assign_single name v vw)"

definition view_clear :: "string option \<Rightarrow> yaf_view \<Rightarrow> yaf_view" where
  "view_clear name vw = yaf_view_simple_clear_assign name vw"

definition controller_render ::
    "view_call \<Rightarrow> yaf_controller \<Rightarrow> string \<Rightarrow> zval option \<Rightarrow> php_rt \<Rightarrow> mem_error + (zval \<times> php_rt)" where
  "controller_render vrender c action vars rt =
     map_sum id (\<lambda>(out, rt'). (case out of Some s \<Rightarrow> ZString s | None \<Rightarrow> ZFalse, rt'))
       (yaf_controller_render vrender c action vars rt)"

section \<open>Assembling through the object of a route\<close>

text \<open>
  The null pointer is \<open>false\<close> for the static route and null for the others.
\<close>

definition assemble_answer :: "zval \<Rightarrow> string option \<times> php_rt \<Rightarrow> zval \<times> php_rt" where
  "assemble_answer none = (\<lambda>(uri, rt). (case uri of Some u \<Rightarrow> ZString u | None \<Rightarrow> none, rt))"

definition route_static_assemble :: "zval htab \<Rightarrow> zval htab option \<Rightarrow> php_rt \<Rightarrow> zval \<times> php_rt" where
  "route_static_assemble info query rt = assemble_answer ZFalse (yaf_route_static_assemble info query rt)"

definition route_simple_assemble ::
    "yaf_route_simple \<Rightarrow> zval htab \<Rightarrow> zval htab option \<Rightarrow> php_rt \<Rightarrow> zval \<times> php_rt" where
  "route_simple_assemble r info query rt = assemble_answer ZNull (yaf_route_simple_assemble r info query rt)"

definition route_supervar_assemble ::
    "yaf_route_supervar \<Rightarrow> zval htab \<Rightarrow> zval htab option \<Rightarrow> php_rt \<Rightarrow> zval \<times> php_rt" where
  "route_supervar_assemble r info query rt = assemble_answer ZNull (yaf_route_supervar_assemble r info query rt)"

definition route_map_assemble ::
    "yaf_route_map \<Rightarrow> zval htab \<Rightarrow> zval htab option \<Rightarrow> php_rt \<Rightarrow> zval \<times> php_rt" where
  "route_map_assemble r info query rt = assemble_answer ZNull (yaf_route_map_assemble r info query rt)"

definition route_rewrite_assemble ::
    "yaf_route_rewrite \<Rightarrow> zval htab \<Rightarrow> zval htab option \<Rightarrow> mem_error + zval" where
  "route_rewrite_assemble r info query = map_sum id ZString (yaf_route_rewrite_assemble r info query)"

definition route_regex_assemble ::
    "yaf_route_regex \<Rightarrow> zval htab \<Rightarrow> zval htab option \<Rightarrow> php_rt \<Rightarrow> mem_error + (zval \<times> php_rt)" where
  "route_regex_assemble r info query rt =
     map_sum id (assemble_answer ZNull) (yaf_route_regex_assemble r info query rt)"

text \<open>
  Where the static, the simple and the supervar route give no URI, they have reported a type
  error, and with a URI they report nothing.
\<close>

lemma assemble_reports:
  "route_static_assemble info query rt = (v, rt') \<Longrightarrow>
     (\<exists>u. v = ZString u \<and> rt' = rt) \<or> (v = ZFalse \<and> (\<exists>msg. rt' = yaf_trigger_error ERR_TYPE_ERROR msg rt))"
  "route_simple_assemble rs info query rt = (v, rt') \<Longrightarrow>
     (\<exists>u. v = ZString u \<and> rt' = rt) \<or> (v = ZNull \<and> (\<exists>msg. rt' = yaf_trigger_error ERR_TYPE_ERROR msg rt))"
  "route_supervar_assemble rv info query rt = (v, rt') \<Longrightarrow>
     (\<exists>u. v = ZString u \<and> rt' = rt) \<or> (v = ZNull \<and> (\<exists>msg. rt' = yaf_trigger_error ERR_TYPE_ERROR msg rt))"
  by (auto simp: route_static_assemble_def route_simple_assemble_def route_supervar_assemble_def assemble_answer_def
      yaf_route_static_assemble_def yaf_route_simple_assemble_def yaf_route_supervar_assemble_def Let_def
      split: option.splits)

section \<open>Router, action and plugin\<close>

definition router_isModuleName :: "string \<Rightarrow> php_rt \<Rightarrow> bool" where
  "router_isModuleName name rt = yaf_application_is_module_name rt name"

definition action_getController :: "executor \<Rightarrow> php_class option" where
  "action_getController ex = ex_controller ex"

definition plugin_hook_default :: "app_state \<Rightarrow> zval \<times> app_state" where
  \<comment> \<open>every hook of the class a plugin extends\<close>
  "plugin_hook_default st = (ZTrue, st)"

end
