(* ===== verification/Yaf_Serve.thy ===== *)
theory Yaf_Serve
  imports Yaf_Running
begin

text \<open>
  The components together: what becomes of one request, from the URI through router, dispatcher
  and controller to the response.  Each step is a lemma on the state it starts from, and the
  property composes them.
\<close>

section \<open>The steps of one turn\<close>

lemma hook_quiet:
  "dp_plugins (as_dp st) = [] \<Longrightarrow> \<not> throws st \<Longrightarrow> plugin_hook uc h st = Some (Inr (True, st))"
  by (simp add: plugin_hook_def)

lemma init_view_there: "dp_view (as_dp st) = Some v \<Longrightarrow> yaf_dispatcher_init_view x y st = (Some v, st)"
  by (simp add: yaf_dispatcher_init_view_def)

lemma call_args_all:
  assumes "\<forall>n \<in> set names. hfind params (KStr n) = Some (f n)"
  shows "call_args params names = Inr (map f names)"
proof -
  have "call_slots params names = map (\<lambda>n. Some (f n)) names"
    using assms by (induction names) auto
  then show ?thesis
    by (auto simp: call_args_def yaf_dispatcher_get_call_parameters_def Let_def comp_def)
qed

definition routed_by :: "zkey \<Rightarrow> yaf_router \<Rightarrow> app_state \<Rightarrow> app_state" where
  \<comment> \<open>the default route has taken the URI apart\<close>
  "routed_by key ro st =
     st\<lparr>as_dp := (as_dp st)\<lparr>dp_router := BuiltinRouter (ro\<lparr>ro_current := current_of key\<rparr>)\<rparr>,
        as_rq := (yaf_route_pathinfo_route (as_rt st) (as_rq st) (request_rel_uri (as_rq st)))\<lparr>rq_routed := True\<rparr>\<rparr>"

lemma route_default:
  assumes "dp_router (as_dp st) = BuiltinRouter ro" "ro_routes ro = older @ [(key, RStatic)]" "\<not> throws st"
  shows "yaf_dispatcher_route uc st = Inr (True, routed_by key ro st)"
  using assms
  by (simp add: yaf_dispatcher_route_def yaf_router_route_def call_route_def yaf_route_static_route_def
      yaf_request_set_routed_def throws_def routed_by_def)

lemma dispatch_route_default:
  assumes "dp_router (as_dp st) = BuiltinRouter ro" "ro_routes ro = older @ [(key, RStatic)]" "\<not> throws st"
    and "dp_plugins (as_dp st) = []" "\<not> rq_routed (as_rq st)"
  shows "dispatch_route uc st = Some (Inr (True, fix_default_st (routed_by key ro st)))"
proof -
  have "\<not> throws (routed_by key ro st)" "dp_plugins (as_dp (routed_by key ro st)) = []"
    using assms(3,4) by (simp_all add: routed_by_def throws_def)
  then have "plugin_hook uc ''routershutdown'' (fix_default_st (routed_by key ro st))
      = Some (Inr (True, fix_default_st (routed_by key ro st)))"
    by (intro hook_quiet) (simp_all add: fix_default_st_def)
  moreover have "on_rq (yaf_request_set_routed True) (fix_default_st (routed_by key ro st)) = fix_default_st (routed_by key ro st)"
    by (simp add: fix_default_st_def on_rq_def routed_by_def yaf_request_set_routed_def yaf_dispatcher_fix_default_def)
  ultimately show ?thesis
    using assms by (simp add: dispatch_route_def yaf_request_is_routed_def hook_quiet route_default [OF assms(1-3)])
qed

definition performed :: "user_code \<Rightarrow> executor \<Rightarrow> zval \<Rightarrow> zval \<Rightarrow> app_state \<Rightarrow> app_state \<Rightarrow> bool" where
  \<comment> \<open>an action that returned is through without an exception and without a forward: it asked for
      no rendering, or the rendering went well\<close>
  "performed uc ex action ret st st' \<longleftrightarrow>
     (if ret = ZFalse then st' = st else ret \<noteq> ZUndef \<and> handle_render uc ex action st = (True, st')) \<and>
     \<not> throws st' \<and> yaf_request_is_dispatched (as_rq st') \<and> dp_plugins (as_dp st') = []"

lemma run_executor_performed:
  assumes "call_args (rq_params (as_rq st)) names = Inr args" "\<not> throws st"
    and "uc_call uc (ex_class ex) f args st = (ret, st1)" "performed uc ex a ret st1 st2"
  shows "run_executor uc ex f names a st = Inr (True, st2)"
  using assms by (cases ret) (simp_all add: run_executor_def user_call_def performed_def)

lemma loop_once:
  assumes "dp_plugins (as_dp st) = []" "\<not> throws st" "yaf_dispatcher_handle uc st = Some (Inr (True, st'))"
    and "dp_plugins (as_dp st') = []" "\<not> throws st'" "yaf_request_is_dispatched (as_rq st')"
  shows "dispatch_loop uc n st = Some (Inr (n - 1, Went (fix_default_st st')))"
proof -
  have "plugin_hook uc ''postdispatch'' (fix_default_st st') = Some (Inr (True, fix_default_st st'))"
    using assms(4,5) by (intro hook_quiet) (simp_all add: fix_default_st_def)
  moreover have "yaf_request_is_dispatched (as_rq (fix_default_st st'))"
    using assms(6) by (simp add: fix_default_st_def yaf_dispatcher_fix_default_def yaf_request_is_dispatched_def)
  ultimately show ?thesis
    using assms(1-3)
    by (subst dispatch_loop.simps) (simp add: dispatch_once_def hook_quiet)
qed

definition served :: "user_code \<Rightarrow> app_state \<Rightarrow> app_state" where
  \<comment> \<open>the response is sent, or kept for the script\<close>
  "served uc st = (let st = fix_default_st st in if dp_return_response (as_dp st) then st else send_response uc st)"

lemma finish_dispatched:
  assumes "dp_plugins (as_dp st) = []" "\<not> throws st" "yaf_request_is_dispatched (as_rq st)"
  shows "dispatch_finish uc n (fix_default_st st) = Some (Inr (True, served uc st))"
proof -
  have "plugin_hook uc ''dispatchloopshutdown'' (fix_default_st st) = Some (Inr (True, fix_default_st st))"
    using assms(1,2) by (intro hook_quiet) (simp_all add: fix_default_st_def)
  moreover have "yaf_request_is_dispatched (as_rq (fix_default_st st))"
    using assms(3) by (simp add: fix_default_st_def yaf_dispatcher_fix_default_def yaf_request_is_dispatched_def)
  ultimately show ?thesis by (simp add: dispatch_finish_def served_def Let_def)
qed

section \<open>From the URI to the response\<close>

definition module_of :: "app_state \<Rightarrow> string option \<Rightarrow> string \<Rightarrow> string \<Rightarrow> bool" where
  \<comment> \<open>the module a path with the module \<open>m\<close>, or none, and the controller \<open>c\<close> leads to\<close>
  "module_of st m c md \<longleftrightarrow>
     md \<noteq> [] \<and> yaf_application_is_module_name (as_rt st) md \<and>
     (case m of
        Some s \<Rightarrow> yaf_application_is_module_name (as_rt st) s \<and> md = module_form s
      | None \<Rightarrow> \<not> yaf_application_is_module_name (as_rt st) c \<and>
          nonempty_string (rq_module (as_rq st)) = None \<and> dp_module (as_dp st) = ZString md)"

lemma running_module_name [simp]:
  "yaf_application_is_module_name (set_running b rt) = yaf_application_is_module_name rt"
  by (rule ext) (auto simp: yaf_application_is_module_name_def set_running_def split: option.split zval.split)

lemma running_frame [simp]:
  "rt_g (set_running b rt) = rt_g rt" "rt_exception (set_running b rt) = rt_exception rt"
  "class_find (set_running b rt) = class_find rt" "rt_output (set_running b rt) = rt_output rt"
  by (simp_all add: set_running_def fun_eq_iff class_find_def)

lemma pathinfo_route_running:
  "yaf_route_pathinfo_route (set_running b rt) rq u = yaf_route_pathinfo_route rt rq u"
proof -
  have "pathinfo_split (set_running b rt) u = pathinfo_split rt u"
    unfolding pathinfo_split_def pathinfo_adjust_def pathinfo_tail_def pathinfo_names_def
      running_module_name running_frame ..
  then show ?thesis by (simp add: yaf_route_pathinfo_route_def)
qed

definition path_request :: "app_state \<Rightarrow> string option \<Rightarrow> string \<Rightarrow> string \<Rightarrow> (string \<times> string) list \<Rightarrow> bool" where
  \<comment> \<open>the URI, behind the base URI, is that path\<close>
  "path_request st m c a kvs \<longleftrightarrow>
     request_rel_uri (as_rq st) = SLASH # join SLASH (mca_segs m c a @ param_segs kvs) \<and>
     (\<forall>s \<in> set (mca_segs m c a). path_seg s) \<and> (\<forall>(k, v) \<in> set kvs. path_seg k \<and> path_seg v)"

lemma path_routed:
  assumes "path_request st m c a kvs" "module_of st m c md"
  defines "rq \<equiv> yaf_route_pathinfo_route (as_rt st) (as_rq st) (request_rel_uri (as_rq st))"
  shows "rq_module rq = (case m of Some s \<Rightarrow> ZString s | None \<Rightarrow> rq_module (as_rq st))"
    "rq_controller rq = ZString c" "rq_action rq = ZString a"
    "yaf_request_get_param rq k =
      (case map_of (rev kvs) k of Some v \<Rightarrow> Some (ZString v) | None \<Rightarrow> yaf_request_get_param (as_rq st) k)"
proof -
  have segs: "\<forall>s \<in> set (mca_segs m c a @ param_segs kvs). path_seg s"
    using assms(1) param_segs_path [of kvs] by (auto simp: path_request_def)
  have m: "case m of Some s \<Rightarrow> yaf_application_is_module_name (as_rt st) s
      | None \<Rightarrow> \<not> yaf_application_is_module_name (as_rt st) c"
    using assms(2) by (auto simp: module_of_def split: option.splits)
  have nil: "param_segs kvs = [] \<longleftrightarrow> kvs = []" by (cases kvs) auto
  have uri: "request_rel_uri (as_rq st) = SLASH # join SLASH (mca_segs m c a @ param_segs kvs)"
    using assms(1) by (simp add: path_request_def)
  have ok: "\<forall>(k, v) \<in> set kvs. seg_ok k \<and> seg_ok v"
    using assms(1) by (auto simp: path_request_def path_seg_def)
  note sp = pathinfo_mca [OF segs m, unfolded nil]
  show "rq_module rq = (case m of Some s \<Rightarrow> ZString s | None \<Rightarrow> rq_module (as_rq st))"
    "rq_controller rq = ZString c" "rq_action rq = ZString a"
    by (simp_all add: rq_def uri pathinfo_route_names sp)
  show "yaf_request_get_param rq k =
      (case map_of (rev kvs) k of Some v \<Rightarrow> Some (ZString v) | None \<Rightarrow> yaf_request_get_param (as_rq st) k)"
    unfolding rq_def uri by (rule pathinfo_route_param) (simp_all add: sp ok)
qed

definition dispatched_request :: "user_code \<Rightarrow> zkey \<Rightarrow> yaf_router \<Rightarrow> app_state \<Rightarrow> app_state" where
  \<comment> \<open>the running application behind the routing, with a new response\<close>
  "dispatched_request uc key ro st =
     fix_default_st (routed_by key ro
       ((on_rt (set_running True) st)\<lparr>as_rp := yaf_response_instance (uc_sapi uc)\<rparr>))"

lemma dispatched_request_frame [simp]:
  "as_rt (dispatched_request uc key ro st) = set_running True (as_rt st)"
  "throws (dispatched_request uc key ro st) = throws st"
  "dp_plugins (as_dp (dispatched_request uc key ro st)) = dp_plugins (as_dp st)"
  "dp_view (as_dp (dispatched_request uc key ro st)) = dp_view (as_dp st)"
  "dp_auto_render (as_dp (dispatched_request uc key ro st)) = dp_auto_render (as_dp st)"
  "dp_instantly_flush (as_dp (dispatched_request uc key ro st)) = dp_instantly_flush (as_dp st)"
  "dp_return_response (as_dp (dispatched_request uc key ro st)) = dp_return_response (as_dp st)"
  "dp_module (as_dp (dispatched_request uc key ro st)) = dp_module (as_dp st)"
  "as_rp (dispatched_request uc key ro st) = yaf_response_instance (uc_sapi uc)"
  by (simp_all add: dispatched_request_def fix_default_st_def routed_by_def on_rq_def on_rt_def throws_def)

lemma dispatched_request_names:
  assumes "path_request st m c a kvs" "module_of st m c md"
  shows "rq_module (as_rq (dispatched_request uc key ro st)) = ZString md"
    "rq_controller (as_rq (dispatched_request uc key ro st)) = ZString (controller_form c)"
    "rq_action (as_rq (dispatched_request uc key ro st)) = ZString (zend_str_tolower a)"
    "yaf_request_get_param (as_rq (dispatched_request uc key ro st)) k =
      (case map_of (rev kvs) k of Some v \<Rightarrow> Some (ZString v) | None \<Rightarrow> yaf_request_get_param (as_rq st) k)"
proof -
  note routed = path_routed [OF assms]
  have seg: "c \<noteq> []" "a \<noteq> []" "\<And>s. m = Some s \<Longrightarrow> s \<noteq> []"
    using assms(1) by (auto simp: path_request_def mca_segs_def dest: path_segD)
  show "rq_module (as_rq (dispatched_request uc key ro st)) = ZString md"
    using assms(2) seg
    by (auto simp: dispatched_request_def fix_default_st_def routed_by_def on_rq_def on_rt_def
        yaf_dispatcher_fix_default_def pathinfo_route_running routed module_of_def split: option.splits)
  show "rq_controller (as_rq (dispatched_request uc key ro st)) = ZString (controller_form c)"
    "rq_action (as_rq (dispatched_request uc key ro st)) = ZString (zend_str_tolower a)"
    using seg by (simp_all add: dispatched_request_def fix_default_st_def routed_by_def on_rq_def on_rt_def
        yaf_dispatcher_fix_default_def pathinfo_route_running routed)
  show "yaf_request_get_param (as_rq (dispatched_request uc key ro st)) k =
      (case map_of (rev kvs) k of Some v \<Rightarrow> Some (ZString v) | None \<Rightarrow> yaf_request_get_param (as_rq st) k)"
    using routed(4) [of k]
    by (simp add: dispatched_request_def fix_default_st_def routed_by_def on_rq_def on_rt_def
        yaf_dispatcher_fix_default_def pathinfo_route_running yaf_request_get_param_def)
qed

lemma dispatch_served:
  assumes "dp_has_request (as_dp st)" "dp_router (as_dp st) = BuiltinRouter ro"
    and "ro_routes ro = older @ [(key, RStatic)]" "\<not> throws st" "dp_plugins (as_dp st) = []"
    and "\<not> rq_routed (as_rq st)" "dp_view (as_dp st) = Some v"
    and "yaf_dispatcher_handle uc (dispatched_request uc key ro st) = Some (Inr (True, st'))"
    and "dp_plugins (as_dp st') = []" "\<not> throws st'" "yaf_request_is_dispatched (as_rq st')"
  shows "yaf_dispatcher_dispatch uc (on_rt (set_running True) st) = Some (Inr (True, served uc st'))"
proof -
  let ?st = "(on_rt (set_running True) st)\<lparr>as_rp := yaf_response_instance (uc_sapi uc)\<rparr>"
  let ?d = "dispatched_request uc key ro st"
  have "dispatch_route uc ?st = Some (Inr (True, ?d))"
    unfolding dispatched_request_def
    by (rule dispatch_route_default) (use assms(2-6) in \<open>simp_all add: on_rt_def throws_def\<close>)
  moreover have "plugin_hook uc ''dispatchloopstartup'' ?d = Some (Inr (True, ?d))"
    using assms(4,5) by (intro hook_quiet) simp_all
  moreover have "yaf_dispatcher_init_view None None ?d = (Some v, ?d)"
    using assms(7) by (intro init_view_there) simp
  moreover have "dispatch_loop uc n ?d = Some (Inr (n - 1, Went (fix_default_st st')))" for n
    using assms by (intro loop_once) simp_all
  ultimately show ?thesis
    using assms(1) finish_dispatched [OF assms(9-11)]
    by (simp add: yaf_dispatcher_dispatch_def Let_def on_rt_def)
qed

definition action_entry :: "user_code \<Rightarrow> string \<Rightarrow> string \<Rightarrow> zkey \<Rightarrow> yaf_router \<Rightarrow> app_state \<Rightarrow> app_state" where
  \<comment> \<open>the state an action is entered in\<close>
  "action_entry uc dir md key ro st =
     on_rt (\<lambda>rt. rt\<lparr>rt_g := (rt_g rt)\<lparr>g_view_directory :=
         Some (mvc_directory dir md (dp_module (as_dp st) = ZString md) ''views'')\<rparr>\<rparr>)
       (on_rq (yaf_request_set_dispatched True) (dispatched_request uc key ro st))"

lemma handle_served:
  assumes "path_request st m c a kvs" "module_of st m c md" "\<not> throws st"
    and "g_directory (rt_g (as_rt st)) = Some dir"
    and "class_find (as_rt st) (zend_str_tolower (class_word (rt_g (as_rt st)) (controller_form c) ''Controller'')) = Some ce"
    and "map_of (cl_methods ce) ''init'' = None"
    and "map_of (cl_methods ce) (zend_str_tolower a @ ''action'') = Some names"
    and "run_executor uc \<lparr>ex_class = ce, ex_name = ZString (controller_form c), ex_controller = None\<rparr>
      (zend_str_tolower a @ ''action'') names (ZString (zend_str_tolower a)) (action_entry uc dir md key ro st) = r"
  shows "yaf_dispatcher_handle uc (dispatched_request uc key ro st) = Some r"
proof -
  let ?d = "dispatched_request uc key ro st"
  note names = dispatched_request_names [OF assms(1,2), of uc key ro]
  have seg: "c \<noteq> []" "NUL \<notin> set a"
    using assms(1) by (auto simp: path_request_def mca_segs_def dest: path_segD)
  have md: "md \<noteq> []" "yaf_application_is_module_name (as_rt ?d) md"
    using assms(2) by (simp_all add: module_of_def)
  have h: "yaf_dispatcher_handle uc ?d = Some (handle_action uc dir (dp_module (as_dp ?d) = ZString md) ce
      (on_rq (yaf_request_set_dispatched True) ?d))"
    by (rule handle_known [OF _ names(1) md names(2)]) (use seg assms(3-6) in simp_all)
  have "zend_str_tolower (cstr (zend_str_tolower a) @ ''action'') = zend_str_tolower a @ ''action''"
  proof -
    have "NUL \<notin> set (zend_str_tolower a)" using seg(2) by (auto simp: zend_str_tolower_def)
    moreover have "zend_str_tolower ''action'' = ''action''" by code_simp
    ultimately show ?thesis by simp
  qed
  then have "handle_method uc app k d (ZString (controller_form c)) ce (action_entry uc dir md key ro st) = r" for app k d
    using assms(7,8) names(3) by (simp add: handle_method_def action_entry_def Let_def)
  moreover have "mvc_directory dir [] True ''views'' = mvc_directory dir md True ''views''"
    by (simp add: mvc_directory_def)
  ultimately show ?thesis
    unfolding h handle_action_def directory_module_def
    by (cases "dp_module (as_dp st) = ZString md") (simp_all add: names(1,2) action_entry_def)
qed

definition servable ::
    "app_state \<Rightarrow> string option \<Rightarrow> string \<Rightarrow> string \<Rightarrow> (string \<times> string) list \<Rightarrow> string \<Rightarrow> php_class \<Rightarrow> string list \<Rightarrow> bool" where
  \<comment> \<open>an application that was set up and not run yet, with no plugins and the default route as the
      one added last, gets a request for that path; the class of the controller is there, has no
      \<open>init\<close>, and has the action as a method with these parameters, all of them in the path\<close>
  "servable st m c a kvs md ce names \<longleftrightarrow>
     (\<exists>ap. rt_app (as_rt st) = Some ap \<and> \<not> app_running ap) \<and> g_directory (rt_g (as_rt st)) \<noteq> None \<and>
     dp_has_request (as_dp st) \<and> dp_plugins (as_dp st) = [] \<and> dp_view (as_dp st) \<noteq> None \<and>
     (\<exists>ro older key. dp_router (as_dp st) = BuiltinRouter ro \<and> ro_routes ro = older @ [(key, RStatic)]) \<and>
     \<not> throws st \<and> \<not> rq_routed (as_rq st) \<and> path_request st m c a kvs \<and> module_of st m c md \<and>
     class_find (as_rt st) (zend_str_tolower (class_word (rt_g (as_rt st)) (controller_form c) ''Controller'')) = Some ce \<and>
     map_of (cl_methods ce) ''init'' = None \<and>
     map_of (cl_methods ce) (zend_str_tolower a @ ''action'') = Some names \<and> set names \<subseteq> fst ` set kvs"

definition entered :: "user_code \<Rightarrow> app_state \<Rightarrow> string \<Rightarrow> string \<Rightarrow> string \<Rightarrow> (string \<times> string) list \<Rightarrow> app_state \<Rightarrow> bool" where
  \<comment> \<open>a state an action is called in: the names and the values of the path are in the request, the
      response has no body, the application runs, nothing was written or thrown, templates are
      looked for in the directory of the module\<close>
  "entered uc st md c a kvs s \<longleftrightarrow>
     rq_module (as_rq s) = ZString md \<and> rq_controller (as_rq s) = ZString (controller_form c) \<and>
     rq_action (as_rq s) = ZString (zend_str_tolower a) \<and>
     (\<forall>k. yaf_request_get_param (as_rq s) k =
        (case map_of (rev kvs) k of Some v \<Rightarrow> Some (ZString v) | None \<Rightarrow> yaf_request_get_param (as_rq st) k)) \<and>
     as_rp s = yaf_response_instance (uc_sapi uc) \<and> running_of s = Some True \<and>
     rt_output (as_rt s) = rt_output (as_rt st) \<and> dp_view (as_dp s) = dp_view (as_dp st) \<and>
     dp_auto_render (as_dp s) = dp_auto_render (as_dp st) \<and>
     dp_instantly_flush (as_dp s) = dp_instantly_flush (as_dp st) \<and>
     dp_return_response (as_dp s) = dp_return_response (as_dp st) \<and>
     g_view_ext (rt_g (as_rt s)) = g_view_ext (rt_g (as_rt st)) \<and>
     g_view_directory (rt_g (as_rt s)) =
       Some (mvc_directory (the (g_directory (rt_g (as_rt st)))) md (dp_module (as_dp st) = ZString md) ''views'') \<and>
     \<not> throws s \<and> yaf_request_is_dispatched (as_rq s) \<and> dp_plugins (as_dp s) = []"

definition path_args :: "(string \<times> string) list \<Rightarrow> string list \<Rightarrow> zval list" where
  \<comment> \<open>the value the path has for each parameter, the last one if there are more\<close>
  "path_args kvs names = map (\<lambda>n. ZString (the (map_of (rev kvs) n))) names"

definition page_executor :: "php_class \<Rightarrow> string \<Rightarrow> executor" where
  "page_executor ce c = \<lparr>ex_class = ce, ex_name = ZString (controller_form c), ex_controller = None\<rparr>"

lemma run_path:
  assumes "servable st m c a kvs md ce names"
  obtains s where "entered uc st md c a kvs s"
    and "\<And>ret st1 st2. uc_call uc ce (zend_str_tolower a @ ''action'') (path_args kvs names) s = (ret, st1) \<Longrightarrow>
      performed uc (page_executor ce c) (ZString (zend_str_tolower a)) ret st1 st2 \<Longrightarrow>
      application_run uc st = Some (Inr (RunResponse, served uc st2))"
proof -
  obtain ap dir v ro older key where st: "rt_app (as_rt st) = Some ap" "\<not> app_running ap"
    "g_directory (rt_g (as_rt st)) = Some dir" "dp_has_request (as_dp st)" "dp_plugins (as_dp st) = []"
    "dp_view (as_dp st) = Some v" "dp_router (as_dp st) = BuiltinRouter ro" "ro_routes ro = older @ [(key, RStatic)]"
    "\<not> throws st" "\<not> rq_routed (as_rq st)" and path: "path_request st m c a kvs" "module_of st m c md"
    and cls: "class_find (as_rt st) (zend_str_tolower (class_word (rt_g (as_rt st)) (controller_form c) ''Controller'')) = Some ce"
    "map_of (cl_methods ce) ''init'' = None" "map_of (cl_methods ce) (zend_str_tolower a @ ''action'') = Some names"
    "set names \<subseteq> fst ` set kvs"
    using assms by (auto simp: servable_def)
  let ?s = "action_entry uc dir md key ro st"
  note names = dispatched_request_names [OF path, of uc key ro]
  have found: "\<exists>v. map_of (rev kvs) n = Some v" if "n \<in> set names" for n
  proof -
    from that cls(4) have "n \<in> fst ` set (rev kvs)" by auto
    then show ?thesis using map_of_eq_None_iff [of "rev kvs" n] by auto
  qed
  have "hfind (rq_params (as_rq ?s)) (KStr n) = Some (ZString (the (map_of (rev kvs) n)))" if "n \<in> set names" for n
    using found [OF that] names(4) [of n] by (auto simp: action_entry_def yaf_request_get_param_def)
  then have args: "call_args (rq_params (as_rq ?s)) names = Inr (path_args kvs names)"
    unfolding path_args_def by (intro call_args_all) simp
  have quiet: "\<not> throws ?s" using st(9) by (simp add: action_entry_def throws_def)
  show thesis
  proof
    show "entered uc st md c a kvs ?s"
      using names st(1,3,5) quiet
      by (simp add: entered_def action_entry_def yaf_request_get_param_def running_of_def rt_running_def set_running_def)
  next
    fix ret st1 st2
    assume call: "uc_call uc ce (zend_str_tolower a @ ''action'') (path_args kvs names) ?s = (ret, st1)"
      and through: "performed uc (page_executor ce c) (ZString (zend_str_tolower a)) ret st1 st2"
    have "run_executor uc (page_executor ce c) (zend_str_tolower a @ ''action'') names (ZString (zend_str_tolower a)) ?s = Inr (True, st2)"
      by (rule run_executor_performed [OF args quiet _ through]) (use call in \<open>simp add: page_executor_def\<close>)
    from handle_served [OF path st(9,3) cls(1-3) this [unfolded page_executor_def]]
    have "yaf_dispatcher_dispatch uc (on_rt (set_running True) st) = Some (Inr (True, served uc st2))"
      using through by (intro dispatch_served [OF st(4,7,8,9,5,10,6)]) (simp_all add: performed_def)
    with st(1,2) show "application_run uc st = Some (Inr (RunResponse, served uc st2))"
      by (simp add: application_run_def)
  qed
qed

text \<open>
  C3: A request for a path of a module, a controller and an action, or of the last two, is
  answered by the method of that name of the controller's class: the method is called with the
  values the path has for its parameters, in a state with the names of the path in their normal
  form; if it returns and neither throws nor forwards, what it leaves is the answer of the
  application.
\<close>

theorem run_serves_path:
  assumes "servable st m c a kvs md ce names"
  shows "\<exists>s. entered uc st md c a kvs s \<and>
    (\<forall>ret st1 st2.
       uc_call uc ce (zend_str_tolower a @ ''action'') (path_args kvs names) s = (ret, st1)
       \<and> performed uc (page_executor ce c) (ZString (zend_str_tolower a)) ret st1 st2
       \<longrightarrow> application_run uc st = Some (Inr (RunResponse, served uc st2)))"
  using run_path [OF assms, of uc] by metis

section \<open>The template of an action\<close>

definition builtin_rendering :: "user_code \<Rightarrow> tpl_engine \<Rightarrow> bool" where
  \<comment> \<open>controllers keep the \<open>render\<close> of the base class, the view is the built-in one, and no controller
      turns its rendering off\<close>
  "builtin_rendering uc eng \<longleftrightarrow>
     (\<forall>ex st. uc_auto_render uc ex st = None) \<and>
     (\<forall>ex vw act st. dp_view (as_dp st) = Some vw \<longrightarrow>
        (case yaf_controller_render (\<lambda>tpl vars rt. case view_render eng True vw tpl vars rt of
                 Inr r \<Rightarrow> r | Inl _ \<Rightarrow> (ZUndef, rt))
               \<lparr>ct_name = ex_name ex, ct_module = rq_module (as_rq st), ct_args = ZNull\<rparr> act None (as_rt st) of
           Inr (Some page, rt') \<Rightarrow> uc_view uc ex ''render'' (ZString act) st = (ZString page, st\<lparr>as_rt := rt'\<rparr>)
         | _ \<Rightarrow> True))"

definition template_of :: "app_state \<Rightarrow> string \<Rightarrow> string \<Rightarrow> zval" where
  "template_of st c a = ZString (controller_template (rt_g (as_rt st)) (controller_form c) (zend_str_tolower a))"

text \<open>
  C4: An action that returns nothing is answered by its template: the built-in view renders
  \<open>controller/action\<close> with its extension from the variables assigned so far, and the text is
  appended to the body of the response.
\<close>

theorem run_renders_template:
  assumes "servable st m c a kvs md ce names" "builtin_rendering uc eng"
  shows "\<exists>s. entered uc st md c a kvs s \<and>
    (\<forall>st1 vw page rt'.
       uc_call uc ce (zend_str_tolower a @ ''action'') (path_args kvs names) s = (ZNull, st1)
       \<and> \<not> throws st1 \<and> yaf_request_is_dispatched (as_rq st1) \<and> dp_plugins (as_dp st1) = []
       \<and> dp_auto_render (as_dp st1) \<and> \<not> dp_instantly_flush (as_dp st1) \<and> dp_view (as_dp st1) = Some vw
       \<and> view_render eng True vw (template_of st1 c a) None (as_rt st1) = Inr (ZString page, rt')
       \<and> rt_exception rt' = None
       \<longrightarrow> application_run uc st = Some (Inr (RunResponse, served uc
             (st1\<lparr>as_rt := rt', as_rp := yaf_response_alter_body (as_rp st1) None page RESPONSE_APPEND\<rparr>))))"
proof -
  obtain s where s: "entered uc st md c a kvs s"
    and run: "\<And>ret st1 st2. uc_call uc ce (zend_str_tolower a @ ''action'') (path_args kvs names) s = (ret, st1) \<Longrightarrow>
      performed uc (page_executor ce c) (ZString (zend_str_tolower a)) ret st1 st2 \<Longrightarrow>
      application_run uc st = Some (Inr (RunResponse, served uc st2))"
    using run_path [OF assms(1), of uc] by metis
  have "performed uc (page_executor ce c) (ZString (zend_str_tolower a)) ZNull st1
      (st1\<lparr>as_rt := rt', as_rp := yaf_response_alter_body (as_rp st1) None page RESPONSE_APPEND\<rparr>)"
    if st1: "\<not> throws st1" "yaf_request_is_dispatched (as_rq st1)" "dp_plugins (as_dp st1) = []"
      "dp_auto_render (as_dp st1)" "\<not> dp_instantly_flush (as_dp st1)" "dp_view (as_dp st1) = Some vw"
      and page: "view_render eng True vw (template_of st1 c a) None (as_rt st1) = Inr (ZString page, rt')"
      "rt_exception rt' = None" for st1 vw page rt'
  proof -
    have "uc_view uc (page_executor ce c) ''render'' (ZString (zend_str_tolower a)) st1 = (ZString page, st1\<lparr>as_rt := rt'\<rparr>)"
      using assms(2) st1(6) page
      unfolding builtin_rendering_def template_of_def yaf_controller_render_def page_executor_def
      by (elim conjE allE [of _ "\<lparr>ex_class = ce, ex_name = ZString (controller_form c), ex_controller = None\<rparr>"]
          allE [of _ vw] allE [of _ "zend_str_tolower a"] allE [of _ st1]) simp
    moreover have "auto_render uc (page_executor ce c) st1"
      using assms(2) st1(4) by (simp add: auto_render_def builtin_rendering_def)
    ultimately show ?thesis
      using st1 page(2) by (simp add: performed_def handle_render_def user_call_def throws_def)
  qed
  with s run show ?thesis by (intro exI [of _ s]) blast
qed

section \<open>Two requests served\<close>

definition page_class :: php_class where
  "page_class =
     \<lparr>cl_name = ''User_PageController'', cl_ancestors = [''Yaf_Controller_Abstract''],
      cl_methods = [(''showaction'', [''id''])]\<rparr>"

definition page_state :: app_state where
  "page_state =
     (sample_state ZNull ZNull None)\<lparr>as_rq := yaf_request_init\<lparr>rq_uri := ''/user_page/Show/id/7''\<rparr>,
      as_rt := (as_rt (sample_state ZNull ZNull None))\<lparr>rt_classes := [(''user_pagecontroller'', page_class)]\<rparr>\<rparr>"

lemma page_servable: "servable page_state None ''user_page'' ''Show'' [(''id'', ''7'')] ''Index'' page_class [''id'']"
proof -
  let ?ro = "fst (yaf_router_instance sample_rt)"
  have "dp_router (as_dp page_state) = BuiltinRouter ?ro" "ro_routes ?ro = [] @ [(default_key, RStatic)]"
    by code_simp+
  moreover have "rt_app (as_rt page_state) = Some sample_app" "\<not> app_running sample_app"
    "g_directory (rt_g (as_rt page_state)) = Some ''/app''" "dp_has_request (as_dp page_state)"
    "dp_plugins (as_dp page_state) = []" "dp_view (as_dp page_state) = Some sample_view" "\<not> throws page_state"
    "\<not> rq_routed (as_rq page_state)" "map_of (cl_methods page_class) ''init'' = None"
    "path_request page_state None ''user_page'' ''Show'' [(''id'', ''7'')]"
    "module_of page_state None ''user_page'' ''Index''"
    "class_find (as_rt page_state) (zend_str_tolower (class_word (rt_g (as_rt page_state))
      (controller_form ''user_page'') ''Controller'')) = Some page_class"
    "map_of (cl_methods page_class) (zend_str_tolower ''Show'' @ ''action'') = Some [''id'']"
    "set [''id''] \<subseteq> fst ` set [(''id'', ''7'')]"
    by code_simp+
  ultimately show ?thesis
    unfolding servable_def by blast
qed

lemma page_args: "path_args [(''id'', ''7'')] [''id''] = [ZString ''7'']"
  by (simp add: path_args_def)

lemma page_start:
  "rt_output (as_rt page_state) = []" "dp_view (as_dp page_state) = Some sample_view"
  "dp_auto_render (as_dp page_state)" "\<not> dp_instantly_flush (as_dp page_state)"
  "\<not> dp_return_response (as_dp page_state)" "g_view_ext (rt_g (as_rt page_state)) = ''phtml''"
  "mvc_directory (the (g_directory (rt_g (as_rt page_state)))) ''Index'' (dp_module (as_dp page_state) = ZString ''Index'') ''views''
     = ''/app/views''"
  by code_simp+

lemma served_cli:
  assumes "rp_class (as_rp st) = ResponseCli" "\<not> dp_return_response (as_dp st)"
  shows "rt_output (as_rt (served uc st)) = rt_output (write_parts (rp_body (as_rp st)) (as_rt st))"
  using assms by (simp add: served_def send_response_def send_out_def fix_default_st_def yaf_response_send_def
      on_rt_def on_rq_def Let_def)

lemma page_response: "yaf_response_instance ''cli'' = \<lparr>rp_class = ResponseCli, rp_header = [], rp_body = [], rp_response_code = 0\<rparr>"
  by code_simp

definition echo_user :: user_code where
  \<comment> \<open>the action writes its first argument\<close>
  "echo_user = sample_user\<lparr>uc_call := (\<lambda>ce f args st. (ZFalse, on_rt (php_write (zval_get_string (hd args))) st))\<rparr>"

lemma run_serves_path_witness:
  "\<exists>st'. application_run echo_user page_state = Some (Inr (RunResponse, st')) \<and> rt_output (as_rt st') = ''7''"
proof -
  obtain s where s: "entered echo_user page_state ''Index'' ''user_page'' ''Show'' [(''id'', ''7'')] s"
    and run: "\<And>ret st1 st2. uc_call echo_user page_class (zend_str_tolower ''Show'' @ ''action'') [ZString ''7''] s = (ret, st1)
        \<and> performed echo_user (page_executor page_class ''user_page'') (ZString (zend_str_tolower ''Show'')) ret st1 st2
        \<Longrightarrow> application_run echo_user page_state = Some (Inr (RunResponse, served echo_user st2))"
    using run_serves_path [OF page_servable, of echo_user] unfolding page_args by blast
  let ?st = "on_rt (php_write ''7'') s"
  have start: "rt_output (as_rt s) = []" "as_rp s = yaf_response_instance ''cli''" "\<not> dp_return_response (as_dp s)"
    "\<not> throws s" "yaf_request_is_dispatched (as_rq s)" "dp_plugins (as_dp s) = []"
    using s by (simp_all add: entered_def page_start echo_user_def sample_user_def)
  have "application_run echo_user page_state = Some (Inr (RunResponse, served echo_user ?st))"
    by (rule run [of ZFalse ?st]) (use start in \<open>simp add: echo_user_def performed_def throws_def php_write_def\<close>)
  moreover have "rt_output (as_rt (served echo_user ?st)) = ''7''"
    using start by (subst served_cli) (simp_all add: page_response php_write_def)
  ultimately show ?thesis by blast
qed

definition path_engine :: tpl_engine where
  \<comment> \<open>every template prints its own path\<close>
  "path_engine = \<lparr>tpl_realpath = (\<lambda>_ _. True), tpl_compile = (\<lambda>s rt.
     (\<lparr>cp_run = Some (\<lambda>tab. php_write s), cp_handle = True, cp_opened = None\<rparr>, rt))\<rparr>"

definition view_user :: user_code where
  \<comment> \<open>actions return nothing, controllers render with the built-in view\<close>
  "view_user = sample_user\<lparr>uc_call := (\<lambda>ce f args st. (ZNull, st)),
     uc_view := (\<lambda>ex f act st.
       case (dp_view (as_dp st), act) of
         (Some vw, ZString a) \<Rightarrow>
           (case yaf_controller_render (\<lambda>tpl vars rt. case view_render path_engine True vw tpl vars rt of
                 Inr r \<Rightarrow> r | Inl _ \<Rightarrow> (ZUndef, rt))
               \<lparr>ct_name = ex_name ex, ct_module = rq_module (as_rq st), ct_args = ZNull\<rparr> a None (as_rt st) of
              Inr (Some page, rt') \<Rightarrow> (ZString page, st\<lparr>as_rt := rt'\<rparr>)
            | _ \<Rightarrow> (ZFalse, st))
       | _ \<Rightarrow> (ZFalse, st))\<rparr>"

lemma view_user_builtin: "builtin_rendering view_user path_engine"
  by (auto simp: builtin_rendering_def view_user_def sample_user_def split: sum.split prod.split option.split)

lemma run_renders_template_witness:
  "\<exists>st'. application_run view_user page_state = Some (Inr (RunResponse, st')) \<and>
    rt_output (as_rt st') = ''/app/views/user/page/show.phtml''"
proof -
  let ?page = "''/app/views/user/page/show.phtml''"
  let ?done = "\<lambda>s. s\<lparr>as_rt := add_included ?page (as_rt s), as_rp := yaf_response_alter_body (as_rp s) None ?page RESPONSE_APPEND\<rparr>"
  obtain s where s: "entered view_user page_state ''Index'' ''user_page'' ''Show'' [(''id'', ''7'')] s"
    and run: "\<And>st1 vw page rt'. uc_call view_user page_class (zend_str_tolower ''Show'' @ ''action'') [ZString ''7''] s = (ZNull, st1)
       \<and> \<not> throws st1 \<and> yaf_request_is_dispatched (as_rq st1) \<and> dp_plugins (as_dp st1) = []
       \<and> dp_auto_render (as_dp st1) \<and> \<not> dp_instantly_flush (as_dp st1) \<and> dp_view (as_dp st1) = Some vw
       \<and> view_render path_engine True vw (template_of st1 ''user_page'' ''Show'') None (as_rt st1) = Inr (ZString page, rt')
       \<and> rt_exception rt' = None
       \<Longrightarrow> application_run view_user page_state = Some (Inr (RunResponse, served view_user
             (st1\<lparr>as_rt := rt', as_rp := yaf_response_alter_body (as_rp st1) None page RESPONSE_APPEND\<rparr>)))"
    using run_renders_template [OF page_servable view_user_builtin] unfolding page_args by blast
  have start: "rt_output (as_rt s) = []" "as_rp s = yaf_response_instance ''cli''" "\<not> dp_return_response (as_dp s)"
    "\<not> throws s" "yaf_request_is_dispatched (as_rq s)" "dp_plugins (as_dp s) = []" "dp_auto_render (as_dp s)"
    "\<not> dp_instantly_flush (as_dp s)" "dp_view (as_dp s) = Some sample_view" "g_view_ext (rt_g (as_rt s)) = ''phtml''"
    "g_view_directory (rt_g (as_rt s)) = Some ''/app/views''"
    using s by (simp_all add: entered_def page_start view_user_def sample_user_def)
  have form: "underscores_to_slashes (cstr (zend_str_tolower (controller_form ''user_page''))) = ''user/page''"
    "underscores_to_slashes (cstr (zend_str_tolower ''Show'')) = ''show''" "cstr ''phtml'' = ''phtml''"
    "\<not> is_absolute_path ''user/page/show.phtml''"
    "cstr ''/app/views'' @ SLASH # cstr ''user/page/show.phtml'' = ?page" "cstr ?page = ?page"
    by code_simp+
  have "template_of s ''user_page'' ''Show'' = ZString ''user/page/show.phtml''"
    by (simp add: template_of_def controller_template_def form start)
  then have "view_render path_engine True sample_view (template_of s ''user_page'' ''Show'') None (as_rt s)
      = Inr (ZString ?page, add_included ?page (as_rt s))"
    using start form(5,6)
    by (simp add: view_render_def yaf_view_simple_render_def sample_view_def yaf_view_build_symtable_def
        tpl_script_def form(4) yaf_view_render_tpl_def path_engine_def yaf_view_exec_tpl_def note_opened_def
        add_included_def php_write_def throws_def)
  then have "application_run view_user page_state = Some (Inr (RunResponse, served view_user (?done s)))"
    using start by (intro run [of s sample_view]) (simp add: view_user_def throws_def add_included_def)
  moreover have "rt_output (as_rt (served view_user (?done s))) = ?page"
    using start by (subst served_cli) (simp_all add: page_response yaf_response_alter_body_def hfind_def
        php_write_def)
  ultimately show ?thesis by blast
qed

end
