(* ===== verification/Yaf_Config_Share.thy ===== *)
theory Yaf_Config_Share
  imports Yaf_Config_Read
begin

text \<open>
  The arrays two sections share: the tree the reader of \<open>configs/yaf_config_ini.c\<close> builds stays
  well-formed, whatever it reads, and what an array entry does to an array a section has from
  the section it inherits from.
\<close>

section \<open>Well-formed trees\<close>

text \<open>Keys are distinct, and no array holds itself.\<close>

primrec sound :: "cfg \<Rightarrow> bool" where
  "sound (CLeaf v) = True"
| "sound (CArr t h) = (t \<notin> inner_tags h \<and> hwf h \<and> list_all (\<lambda>e. snd e) (map (map_prod id sound) h))"

definition sound_tab :: "cfg_tab \<Rightarrow> bool" where
  "sound_tab h \<longleftrightarrow> hwf h \<and> (\<forall>(k, c) \<in> set h. sound c)"

lemma sound_CArr: "sound (CArr t h) \<longleftrightarrow> t \<notin> inner_tags h \<and> sound_tab h"
  by (auto simp: sound_tab_def list_all_iff)

declare sound.simps(2) [simp del]

lemma sound_tab_Nil [simp]: "sound_tab []"
  by (simp add: sound_tab_def)

lemma sound_tab_Cons: "sound_tab ((k, c) # h) \<longleftrightarrow> sound c \<and> sound_tab h \<and> hfind h k = None"
  by (auto simp: sound_tab_def hwf_def hfind_def map_of_eq_None_iff)

lemma sound_tab_hupdate: "sound_tab h \<Longrightarrow> sound c \<Longrightarrow> sound_tab (hupdate k c h)"
  using set_hupdate [of k c h] by (fastforce simp: sound_tab_def)

lemma sound_tab_happend: "sound_tab h \<Longrightarrow> sound c \<Longrightarrow> sound_tab (happend c h)"
  using hwf_happend [of h c] by (auto simp: sound_tab_def happend_def Let_def)

lemma sound_hfind: "sound_tab h \<Longrightarrow> hfind h k = Some c \<Longrightarrow> sound c"
  by (auto simp: sound_tab_def hfind_def dest: map_of_SomeD)

lemma hwf_map_snd [simp]: "hwf (map (map_prod id f) h) = hwf h"
  by (simp add: hwf_def comp_def)

lemma in_place_sound:
  assumes f: "\<And>h. inner_tags (f h) \<subseteq> inner_tags h \<union> X" "\<And>h. sound_tab h \<Longrightarrow> sound_tab (f h)"
  shows "sound c \<Longrightarrow> tags c \<inter> X = {} \<Longrightarrow> sound (in_place t f c)"
proof (induction c)
  case (CArr u h)
  have u: "u \<notin> inner_tags h" "u \<notin> X" "inner_tags h \<inter> X = {}" "sound_tab h"
    using CArr.prems by (auto simp: tags_CArr sound_CArr)
  have "sound (in_place t f c)" if "(k, c) \<in> set h" for k c
    using CArr.IH [OF that, of c] that u(3,4) by (fastforce simp: sound_tab_def inner_tags_def)
  then have "sound_tab (map (map_prod id (in_place t f)) h)"
    using u(4) by (auto simp: sound_tab_def)
  with u f(1) [of h] f(2) [OF u(4)] in_place_inner_tags [of f X t h, OF f(1)] show ?case
    by (auto simp: sound_CArr)
qed simp

lemma entry_assign_sound:
  "sound_tab h \<Longrightarrow> \<forall>t \<in> inner_tags h. t < n \<Longrightarrow> sound_tab (fst (entry_assign segs v n h))"
proof (induction segs v n h rule: entry_assign.induct)
  case (2 k v n h)
  show ?case
  proof (cases "hfind h (symkey k)")
    case None
    with 2 show ?thesis by (simp add: sound_tab_hupdate)
  next
    case (Some c)
    note c = sound_hfind [OF 2(1) Some] inner_tags_hfind [OF Some]
    with Some 2 show ?thesis
      by (cases c) (auto simp: sound_tab_hupdate sound_CArr tags_CArr intro!: sound_tab_hupdate)
  qed
next
  case (3 k k' ks v n h)
  let ?c = "case hfind h (symkey k) of Some (CArr u c) \<Rightarrow> c | _ \<Rightarrow> []"
  obtain c' n' where e: "entry_assign (k' # ks) v (n + 1) ?c = (c', n')" by fastforce
  have c: "sound_tab ?c \<and> inner_tags ?c \<subseteq> inner_tags h"
    using sound_hfind [OF "3.prems"(1), of "symkey k"] inner_tags_hfind [of h "symkey k"]
    by (auto simp: sound_CArr tags_CArr split: option.split cfg.split)
  then have "sound_tab (fst (entry_assign (k' # ks) v (n + 1) ?c))"
    using "3.IH" [OF refl] "3.prems"(2) by (meson less_SucI subsetD add.commute less_add_one less_trans)
  moreover have "n \<notin> inner_tags c'"
  proof
    assume n: "n \<in> inner_tags c'"
    have "inner_tags c' \<subseteq> inner_tags ?c \<union> {n + 1..<n'}"
      using entry_assign_tags [where segs = "k' # ks" and v = v and n = "n + 1" and h = ?c]
      unfolding e prod.case by blast
    with n c have "n \<in> inner_tags h \<or> n \<in> {n + 1..<n'}" by blast
    with "3.prems"(2) show False by auto
  qed
  ultimately have "sound (CArr n c')" unfolding sound_CArr e fst_conv by blast
  with "3.prems"(1) show ?case
    unfolding entry_assign.simps Let_def e prod.case fst_conv by (intro sound_tab_hupdate)
qed simp

lemma fresh_below: "inner_tags h \<subseteq> {..<n} \<Longrightarrow> n \<notin> inner_tags h"
  by auto

lemma deep_copy_sound:
  "sound_tab dst \<Longrightarrow> sound_tab src \<Longrightarrow> inner_tags dst \<union> inner_tags src \<subseteq> {..<n} \<Longrightarrow>
     sound_tab (fst (yaf_deep_copy_section n dst src))"
proof (induction n dst src rule: deep_copy_induct)
  case (2 n dst k v src)
  then show ?case
    using inner_tags_hupdate [of k "CLeaf v" dst] by (auto simp: sound_tab_Cons sound_tab_hupdate)
next
  case (3 n dst k t sc src u dc h n')
  have d: "sound_tab dc" "inner_tags dc \<subseteq> {..<n}"
    using sound_hfind [OF "3.prems"(1) "3.hyps"(1)] inner_tags_hfind [OF "3.hyps"(1)] "3.prems"(3)
    by (auto simp: sound_CArr tags_CArr)
  then have copy: "hcopy [] dc = dc" by (simp add: hcopy_Nil sound_tab_def)
  have s: "sound_tab sc" "sound_tab src" "inner_tags sc \<subseteq> {..<n}" "inner_tags src \<subseteq> {..<n}"
    using "3.prems"(2,3) by (auto simp: sound_tab_Cons sound_CArr tags_CArr)
  have h: "h = fst (yaf_deep_copy_section (n + 1) dc sc)" "n' = snd (yaf_deep_copy_section (n + 1) dc sc)"
    using "3.hyps"(2) by (simp_all add: copy)
  have tags: "n + 1 \<le> n'" "inner_tags h \<subseteq> {..<n} \<union> {n + 1..<n'}"
    using deep_copy_tags [of "n + 1" dc sc] d(2) s(3) unfolding h by auto
  have "{..<n} \<subseteq> {..<n + 1}" by auto
  then have "sound_tab h"
    using "3.IH"(1) d s unfolding copy h by (meson Un_least subset_trans)
  moreover have "n \<notin> inner_tags h" using tags(2) by auto
  ultimately have "sound_tab (hupdate k (CArr n h) dst)"
    using "3.prems"(1) by (intro sound_tab_hupdate) (simp_all add: sound_CArr)
  moreover have "inner_tags (hupdate k (CArr n h) dst) \<union> inner_tags src \<subseteq> {..<n'}"
    using inner_tags_hupdate [of k "CArr n h" dst] tags s(4) "3.prems"(3) by (fastforce simp: tags_CArr)
  ultimately show ?case
    unfolding deep_copy_merge [OF "3.hyps"(1,2)] using "3.IH"(2) s(2) by blast
next
  case (4 n dst k t sc src)
  then have "inner_tags (hupdate k (CArr t sc) dst) \<union> inner_tags src \<subseteq> {..<n}"
    using inner_tags_hupdate [of k "CArr t sc" dst] by (force simp: tags_CArr)
  with 4 show ?case
    unfolding deep_copy_share [OF "4.hyps"(1)] by (simp add: sound_tab_Cons sound_tab_hupdate)
qed simp

lemma copy_parents_sound:
  "copy_parents arr ps n active = Inr (h, n') \<Longrightarrow> sound_tab arr \<Longrightarrow> sound_tab active \<Longrightarrow>
     inner_tags arr \<union> inner_tags active \<subseteq> {..<n} \<Longrightarrow> sound_tab h"
proof (induction arr ps n active rule: copy_parents.induct)
  case (2 arr p ps n active)
  show ?case
  proof (cases "hfind arr (symkey p)")
    case None
    with 2 show ?thesis by simp
  next
    case (Some c)
    with 2 obtain t g where c: "c = CArr t g" by (cases c) auto
    obtain a m where a: "yaf_deep_copy_section n active g = (a, m)" by fastforce
    have g: "sound_tab g" "inner_tags g \<subseteq> {..<n}"
      using sound_hfind [OF 2(4) Some] inner_tags_hfind [OF Some] 2(6) by (auto simp: c sound_CArr tags_CArr)
    have below: "inner_tags arr \<subseteq> {..<n}" "inner_tags active \<subseteq> {..<n}" using 2(6) by simp_all
    have m: "n \<le> m" "inner_tags a \<subseteq> inner_tags active \<union> inner_tags g \<union> {n..<m}"
      using deep_copy_tags [of n active g] by (simp_all add: a)
    then have up: "{..<n} \<subseteq> {..<m}" "{n..<m} \<subseteq> {..<m}" by auto
    have "inner_tags arr \<union> inner_tags a \<subseteq> {..<m}"
      using below g(2) m(2) up by (meson Un_least subset_trans)
    moreover have "sound_tab a" using deep_copy_sound [of active g n] 2(5) below g by (simp add: a)
    ultimately show ?thesis
      using "2.IH"(2) [OF Some c a [symmetric]] 2(3,4) by (simp add: Some c a)
  qed
qed simp


section \<open>The reader keeps them\<close>

definition ini_sound :: "ini_state \<Rightarrow> bool" where
  "ini_sound s \<longleftrightarrow> ini_inv s \<and> sound (is_root s)"

lemma ini_sound_root:
  assumes "ini_sound s"
  shows "\<exists>h. is_root s = CArr 0 h \<and> sections s = h \<and> sound_tab h \<and> inner_tags h \<subseteq> {0<..<is_next s} \<and> 0 < is_next s"
proof -
  obtain h where h: "is_root s = CArr 0 h" "0 \<notin> inner_tags h" "\<forall>t \<in> inner_tags h. t < is_next s" "0 < is_next s"
    using assms by (auto simp: ini_sound_def ini_inv_def numbered_def)
  have "inner_tags h \<subseteq> {0<..<is_next s}"
  proof
    fix t assume "t \<in> inner_tags h"
    with h(2,3) show "t \<in> {0<..<is_next s}" by (cases t) auto
  qed
  with h assms sections_root [OF h(1)] show ?thesis by (simp add: ini_sound_def sound_CArr)
qed

lemma sound_mid: "sound_tab (l @ (k, c) # r) \<Longrightarrow> sound c' \<Longrightarrow> sound_tab (l @ (k, c') # r)"
  by (auto simp: sound_tab_def hwf_def)

lemma ini_entry_sound:
  assumes "ini_sound s" "ini_inv (ini_entry key v s)"
  shows "ini_sound (ini_entry key v s)"
proof -
  let ?A = "is_active s"
  obtain h where h: "is_root s = CArr 0 h" "sound_tab h" "inner_tags h \<subseteq> {0<..<is_next s}"
    using ini_sound_root [OF assms(1)] by blast
  define e where "e = fst (entry_assign (strtok_all ''.'' (Some (cstr key))) v (is_next s) (cfg_table ?A (is_root s)))"
  have root: "is_root (ini_entry key v s) = in_place ?A (\<lambda>_. e) (is_root s)"
    by (simp add: ini_entry_def e_def Let_def split_beta)
  have zero: "0 \<notin> inner_tags g" if "is_root (ini_entry key v s) = CArr 0 g" for g
    using assms(2) that by (auto simp: ini_inv_def numbered_def)
  consider "?A = 0" | k where "section_alone k s" using assms(1) by (auto simp: ini_sound_def ini_inv_def)
  then have "sound (is_root (ini_entry key v s))"
  proof cases
    case 1
    then have "sound_tab e"
      unfolding e_def using h by (intro entry_assign_sound) (auto simp: cfg_table_def)
    moreover have new: "is_root (ini_entry key v s) = CArr 0 e" using 1 h root by simp
    ultimately show ?thesis using zero [OF new] by (simp add: sound_CArr)
  next
    case 2
    then obtain l a r where A: "is_root s = CArr 0 (l @ (k, CArr ?A a) # r)" "?A \<noteq> 0" "?A < is_next s"
      "?A \<notin> inner_tags l" "?A \<notin> inner_tags a" "?A \<notin> inner_tags r"
      by (auto simp: section_alone_def)
    then have hs: "h = l @ (k, CArr ?A a) # r" using h(1) by simp
    then have a: "sound_tab a" "inner_tags a \<subseteq> {0<..<is_next s}"
      using h(2,3) by (auto simp: sound_tab_def sound_CArr tags_CArr)
    have tab: "cfg_table ?A (is_root s) = a" unfolding A(1) using A(2,4) by (rule cfg_table_alone)
    then have e: "sound_tab e"
      unfolding e_def using a by (intro entry_assign_sound) auto
    have "?A \<notin> inner_tags e"
      using entry_assign_tags [where segs = "strtok_all ''.'' (Some (cstr key))" and v = v and n = "is_next s" and h = a]
        A(3,5) unfolding e_def tab by (auto simp: split_beta)
    with e have "sound (CArr ?A e)" by (simp add: sound_CArr)
    with h(2) have "sound_tab (l @ (k, CArr ?A e) # r)" unfolding hs by (rule sound_mid)
    moreover have new: "is_root (ini_entry key v s) = CArr 0 (l @ (k, CArr ?A e) # r)"
      unfolding root A(1) using A(2,4,6) by (simp add: in_place_list)
    ultimately show ?thesis using zero [OF new] by (simp add: sound_CArr)
  qed
  with assms(2) show ?thesis by (simp add: ini_sound_def)
qed

lemma ini_section_sound:
  assumes "ini_sound s" "ini_section key s = Inr s'" "is_flag s \<noteq> PARSING_PROCESS"
  shows "ini_sound s'"
proof -
  obtain h where h: "is_root s = CArr 0 h" "sound_tab h" "inner_tags h \<subseteq> {0<..<is_next s}"
    using ini_sound_root [OF assms(1)] by blast
  have "numbered s" using assms(1) by (simp add: ini_sound_def ini_inv_def)
  note inv = ini_section_alone [OF this assms(2,3)]
  obtain name ps g n' where c: "copy_parents h ps (is_next s + 1) [] = Inr (g, n')"
    and new: "is_root s' = CArr 0 (hupdate (symkey name) (CArr (is_next s) g) h)"
    using assms(2,3) h(1)
    by (auto simp: ini_section_def cfg_table_def Let_def split: sum.splits prod.splits)
  have "sound_tab g"
  proof -
    have "inner_tags h \<subseteq> {..<is_next s + 1}" using h(3) by fastforce
    with copy_parents_sound [OF c h(2)] show ?thesis by simp
  qed
  moreover have "is_next s \<notin> inner_tags g"
  proof
    assume "is_next s \<in> inner_tags g"
    then have "is_next s \<in> inner_tags h \<or> is_next s \<in> {is_next s + 1..<n'}"
      using copy_parents_tags [OF c] by auto
    with h(3) show False by auto
  qed
  ultimately have "sound_tab (hupdate (symkey name) (CArr (is_next s) g) h)"
    using h(2) by (intro sound_tab_hupdate) (simp_all add: sound_CArr)
  moreover have "0 \<notin> inner_tags (hupdate (symkey name) (CArr (is_next s) g) h)"
    using inv new by (auto simp: numbered_def)
  ultimately have "sound (is_root s')" by (simp add: new sound_CArr)
  with inv show ?thesis by (auto simp: ini_sound_def ini_inv_def)
qed


lemma new_array_sound:
  assumes "sound (is_root s)" "\<forall>t \<in> tags (is_root s). t < is_next s"
  shows "sound (is_root (snd (new_array t k s)))"
    "\<forall>x \<in> tags (is_root (snd (new_array t k s))). x < is_next (snd (new_array t k s))"
proof -
  let ?f = "hupdate k (CArr (is_next s) [])"
  have f: "inner_tags (?f h) \<subseteq> inner_tags h \<union> {is_next s}" for h
    using inner_tags_hupdate [of k "CArr (is_next s) []" h] by (auto simp: tags_CArr)
  have "sound_tab (?f h)" if "sound_tab h" for h
    using that by (intro sound_tab_hupdate) (simp_all add: sound_CArr)
  from in_place_sound [OF f this assms(1)] assms(2)
  show "sound (is_root (snd (new_array t k s)))" by (auto simp: new_array_def)
  show "\<forall>x \<in> tags (is_root (snd (new_array t k s))). x < is_next (snd (new_array t k s))"
  proof
    fix x assume "x \<in> tags (is_root (snd (new_array t k s)))"
    then have "x \<in> tags (is_root s) \<or> x = is_next s"
      using in_place_tags [of ?f "{is_next s}" t "is_root s", OF f] by (auto simp: new_array_def)
    with assms(2) show "x < is_next (snd (new_array t k s))" by (auto simp: new_array_def)
  qed
qed

lemma pop_walk_sound:
  "pop_walk ks t s = Inr (t', s') \<Longrightarrow> sound (is_root s) \<Longrightarrow> \<forall>t \<in> tags (is_root s). t < is_next s \<Longrightarrow>
     sound (is_root s')"
proof (induction ks t s rule: pop_walk.induct)
  case (2 k ks t s)
  obtain u s1 where n: "new_array t k s = (u, s1)" by fastforce
  note new = new_array_sound [OF 2(4,5), of t k, unfolded n snd_conv]
  show ?case
  proof (cases "hfind (cfg_table t (is_root s)) k")
    case None
    with 2 new n show ?thesis by auto
  next
    case (Some c)
    with 2 new n show ?thesis by (cases c) (auto split: if_splits)
  qed
qed simp

lemma ini_pop_sound:
  assumes "ini_sound s" "ini_pop key v index s = Inr s'"
  shows "ini_sound s'"
proof -
  define put where "put = (case index of
      Some i \<Rightarrow> if i \<noteq> [] then hupdate (symkey i) (CLeaf v) else happend (CLeaf v) | None \<Rightarrow> happend (CLeaf v))"
  have put: "sound_tab h \<Longrightarrow> sound_tab (put h)" for h
    by (auto simp: put_def sound_tab_hupdate sound_tab_happend split: option.split)
  have tags: "inner_tags (put h) \<subseteq> inner_tags h \<union> {}" for h
    using inner_tags_hupdate [of _ "CLeaf v" h] by (auto simp: put_def happend_def Let_def split: option.split)
  obtain t s1 where t: "pop_walk (pop_path key) (is_active s) s = Inr (t, s1)"
    and s': "s' = s1\<lparr>is_root := in_place t put (is_root s1)\<rparr>"
    using assms(2) unfolding put_def by (auto simp: ini_pop_def Let_def split: if_splits sum.splits)
  have "\<forall>t \<in> tags (is_root s). t < is_next s"
    using ini_sound_root [OF assms(1)] by (auto simp: tags_CArr)
  with pop_walk_sound [OF t] assms(1) have "sound (is_root s1)" by (simp add: ini_sound_def)
  then have "sound (is_root s')"
    using in_place_sound [of put "{}", OF tags put] by (simp add: s')
  with ini_pop_inv [OF _ assms(2)] assms(1) show ?thesis by (simp add: ini_sound_def)
qed


lemma ini_cb_sound:
  assumes "ini_sound s" "yaf_config_ini_parser_cb ev s = Inr s'"
  shows "ini_sound s'"
proof (cases ev)
  case (IniEntry key v)
  have "ini_inv s'" using ini_cb_inv [OF _ assms(2)] assms(1) by (simp add: IniEntry ini_sound_def)
  with assms IniEntry ini_entry_sound [OF assms(1)] show ?thesis
    by (auto simp: yaf_config_ini_parser_cb_def split: if_splits option.splits)
next
  case (IniSection key)
  show ?thesis
  proof (cases "is_flag s = PARSING_START")
    case True
    with assms IniSection ini_section_sound [OF assms(1)] show ?thesis
      by (auto simp: yaf_config_ini_parser_cb_def)
  next
    case False
    then have "s' = s \<or> s' = s\<lparr>is_flag := PARSING_END\<rparr>"
      using assms(2) IniSection
      by (cases "is_flag s") (auto simp: yaf_config_ini_parser_cb_def ini_section_def)
    then have "ini_sound s' = ini_sound s"
      by (elim disjE) (simp_all add: ini_sound_def ini_inv_def numbered_def section_alone_def)
    with assms(1) show ?thesis by simp
  qed
next
  case (IniPop key v index)
  with assms ini_pop_sound [OF assms(1)] show ?thesis
    by (auto simp: yaf_config_ini_parser_cb_def split: if_splits option.splits)
qed

lemma ini_parse_sound: "ini_sound s \<Longrightarrow> ini_parse evs s = Inr s' \<Longrightarrow> ini_sound s'"
proof (induction evs arbitrary: s)
  case (Cons ev evs)
  then obtain s1 where "yaf_config_ini_parser_cb ev s = Inr s1" "ini_parse evs s1 = Inr s'"
    by (auto split: sum.splits)
  with Cons show ?case using ini_cb_sound [of s ev s1] by simp
qed simp

lemma ini_start_sound: "ini_sound (ini_start w)"
  using ini_start_inv [of w] by (simp add: ini_sound_def ini_start_def sound_CArr)

section \<open>An array entry\<close>

lemma deep_copy_fresh:
  "hwf (dst @ src) \<Longrightarrow> yaf_deep_copy_section n dst src = (dst @ src, n)"
proof (induction src arbitrary: dst)
  case (Cons e src)
  obtain k c where e: "e = (k, c)" by fastforce
  have "hfind dst k = None" "hwf ((dst @ [(k, c)]) @ src)"
    using Cons.prems by (auto simp: e hwf_def hfind_def map_of_eq_None_iff)
  with Cons.IH [of "dst @ [(k, c)]"] show ?case
    by (cases c) (simp_all add: e hupdate_fresh deep_copy_share)
qed simp

lemma hfind_map_snd: "hfind (map (map_prod id f) h) k = map_option f (hfind h k)"
  by (induction h) auto

text \<open>
  C29: A section shares the arrays of the section it inherits from, and an array entry does not
  separate them: behind a header that makes a section of one parent, an element pushed to an
  array of the parent's is pushed for the parent as well, whatever was read before.
\<close>

theorem pop_changes_parent:
  assumes "ini_parse evs (ini_start w) = Inr s0" "is_flag s0 = PARSING_START"
    and "section_trim key = Inr t" "section_split t = (name, [parent])" "symkey name \<noteq> symkey parent"
    and "hfind (sections s0) (symkey parent) = Some (CArr b base)" "pop_path a = [k]"
    and "hfind base k = Some (CArr u h)"
  shows "\<exists>s base' c child'. ini_parse [IniSection key, IniPop a (Some v) None] s0 = Inr s
    \<and> hfind (sections s) (symkey parent) = Some (CArr b base') \<and> hfind base' k = Some (CArr u (happend (CLeaf v) h))
    \<and> hfind (sections s) (symkey name) = Some (CArr c child') \<and> hfind child' k = Some (CArr u (happend (CLeaf v) h))"
proof -
  let ?n = "is_next s0" and ?f = "happend (CLeaf v)"
  obtain r where r: "is_root s0 = CArr 0 r" "sections s0 = r" "sound_tab r" "inner_tags r \<subseteq> {0<..<?n}"
    using ini_sound_root [OF ini_parse_sound [OF ini_start_sound assms(1)]] by blast
  have base: "sound (CArr b base)" "tags (CArr b base) \<subseteq> {0<..<?n}" "tags (CArr u h) \<subseteq> inner_tags base"
    using assms(6,8) r sound_hfind [OF r(3)] inner_tags_hfind by fastforce+
  then have u: "u \<noteq> 0" "u \<noteq> b" "u \<noteq> ?n" by (auto simp: tags_CArr sound_CArr)
  define s1 where "s1 = s0\<lparr>is_root := CArr 0 (hupdate (symkey name) (CArr ?n base) r), is_active := ?n,
    is_next := ?n + 1, is_flag := (if (case is_wanted s0 of
        Some w \<Rightarrow> length w = length name \<and> strncasecmp0 w name (length name) | None \<Rightarrow> False)
      then PARSING_PROCESS else is_flag s0)\<rparr>"
  have "yaf_deep_copy_section (?n + 1) [] base = (base, ?n + 1)"
    using base(1) by (subst deep_copy_fresh) (simp_all add: sound_CArr sound_tab_def)
  then have sec: "yaf_config_ini_parser_cb (IniSection key) s0 = Inr s1"
    using assms(2-4,6) r(1,2)
    by (simp add: yaf_config_ini_parser_cb_def ini_section_def cfg_table_def s1_def Let_def)
  obtain l l' where split: "hupdate (symkey name) (CArr ?n base) r = l @ (symkey name, CArr ?n base) # l'"
    "inner_tags l \<union> inner_tags l' \<subseteq> inner_tags r"
    using hupdate_split by blast
  then have "?n \<noteq> 0" "?n \<notin> inner_tags l" using r(4) base(2) by (auto simp: tags_CArr)
  then have "cfg_table ?n (is_root s1) = base" by (simp add: s1_def split(1) cfg_table_alone)
  then have "pop_walk [k] ?n s1 = Inr (u, s1)" using assms(8) by simp
  then have pop: "yaf_config_ini_parser_cb (IniPop a (Some v) None) s1 = Inr (s1\<lparr>is_root := in_place u ?f (is_root s1)\<rparr>)"
    using assms(2,7) by (simp add: yaf_config_ini_parser_cb_def ini_pop_def s1_def)
  let ?s = "s1\<lparr>is_root := in_place u ?f (is_root s1)\<rparr>"
  have "sections ?s = map (map_prod id (in_place u ?f)) (hupdate (symkey name) (CArr ?n base) r)"
    using u(1) by (simp add: s1_def sections_def cfg_table_def)
  then have "hfind (sections ?s) (symkey parent) = Some (in_place u ?f (CArr b base))"
    "hfind (sections ?s) (symkey name) = Some (in_place u ?f (CArr ?n base))"
    using assms(5,6) r(2) by (simp_all add: hfind_map_snd)
  moreover have "hfind (map (map_prod id (in_place u ?f)) base) k = Some (CArr u (?f h))"
    using assms(8) by (simp add: hfind_map_snd)
  ultimately show ?thesis
    using sec pop u(2,3) by (intro exI [of _ ?s]) (simp add: in_place_CArr)
qed

lemma pop_changes_parent_witness:
  "\<exists>s b x c y. ini_parse [IniSection ''base'', IniPop ''a'' (Some ZTrue) None, IniSection ''child : base'',
        IniPop ''a'' (Some ZFalse) None] (ini_start None) = Inr s
     \<and> hfind (sections s) (KStr ''base'') = Some (CArr b x) \<and> hfind (sections s) (KStr ''child'') = Some (CArr c y)
     \<and> hfind x (KStr ''a'') = hfind y (KStr ''a'')
     \<and> map_option erase (hfind x (KStr ''a'')) = Some (ZArray [(KInt 0, ZTrue), (KInt 1, ZFalse)])"
proof -
  let ?evs = "[IniSection ''base'', IniPop ''a'' (Some ZTrue) None]"
  have "case ini_parse ?evs (ini_start None) of
      Inl e \<Rightarrow> False
    | Inr s \<Rightarrow> is_flag s = PARSING_START
        \<and> hfind (sections s) (KStr ''base'') = Some (CArr 1 [(KStr ''a'', CArr 2 [(KInt 0, CLeaf ZTrue)])])"
    by code_simp
  then obtain s0 where s0: "ini_parse ?evs (ini_start None) = Inr s0" "is_flag s0 = PARSING_START"
    "hfind (sections s0) (KStr ''base'') = Some (CArr 1 [(KStr ''a'', CArr 2 [(KInt 0, CLeaf ZTrue)])])"
    by (auto split: sum.splits)
  have k: "symkey ''base'' = KStr ''base''" "symkey ''child'' = KStr ''child''" "pop_path ''a'' = [KStr ''a'']"
    "section_trim ''child : base'' = Inr ''child : base''" "section_split ''child : base'' = (''child'', [''base''])"
    by code_simp+
  let ?a = "CArr 2 (happend (CLeaf ZFalse) [(KInt 0, CLeaf ZTrue)])"
  have a: "erase ?a = ZArray [(KInt 0, ZTrue), (KInt 1, ZFalse)]"
    by code_simp
  obtain s base c child where s: "ini_parse [IniSection ''child : base'', IniPop ''a'' (Some ZFalse) None] s0 = Inr s"
    "hfind (sections s) (KStr ''base'') = Some (CArr 1 base)" "hfind base (KStr ''a'') = Some ?a"
    "hfind (sections s) (KStr ''child'') = Some (CArr c child)" "hfind child (KStr ''a'') = Some ?a"
    using pop_changes_parent [OF s0(1,2) k(4,5), of 1 "[(KStr ''a'', CArr 2 [(KInt 0, CLeaf ZTrue)])]" "''a''" "KStr ''a''"
        2 "[(KInt 0, CLeaf ZTrue)]" ZFalse] s0(3) unfolding k by auto
  have "ini_parse (?evs @ [IniSection ''child : base'', IniPop ''a'' (Some ZFalse) None]) (ini_start None) = Inr s"
    unfolding ini_parse_append s0(1) sum.case by (rule s(1))
  then show ?thesis
    using s(2-5) a unfolding append.simps by (intro exI conjI) (assumption | simp)+
qed

end
