(* ===== verification/Yaf_Config_Inherit.thy ===== *)
theory Yaf_Config_Inherit
  imports Yaf_Config_Read
begin

text \<open>
  Sections of a configuration file that inherit: what a section holds once its header and its
  entries are read, in terms of the sections it names as its parents.
\<close>

section \<open>Tables without duplicate keys\<close>

definition tab_wf :: "cfg_tab \<Rightarrow> bool" where
  "tab_wf h \<longleftrightarrow> hwf h \<and> (\<forall>(k, c) \<in> set h. cfg_wf c)"

lemma cfg_wf_tab [simp]: "cfg_wf (CArr t h) = tab_wf h"
  by (simp add: cfg_wf_arr tab_wf_def)

lemma tab_wf_Nil [simp]: "tab_wf []"
  by (simp add: tab_wf_def)

lemma tab_wf_hfind: "tab_wf h \<Longrightarrow> hfind h k = Some c \<Longrightarrow> cfg_wf c"
  using cfg_wf_hfind [of 0 h k c] by simp

lemma tab_wf_hupdate [intro]: "tab_wf h \<Longrightarrow> cfg_wf c \<Longrightarrow> tab_wf (hupdate k c h)"
  using cfg_wf_hupdate [of 0 h c k] by simp

lemma hwf_map_values [simp]: "hwf (map (map_prod id f) h) = hwf h"
  by (simp add: hwf_def comp_def)

lemma in_place_wf:
  assumes "\<And>h. tab_wf h \<Longrightarrow> tab_wf (f h)"
  shows "cfg_wf c \<Longrightarrow> cfg_wf (in_place t f c)"
proof (induction c)
  case (CArr u h)
  have "cfg_wf (in_place t f (snd e))" if "e \<in> set h" for e
    using CArr that by (cases e) (fastforce simp: tab_wf_def)
  with CArr.prems have "tab_wf (map (map_prod id (in_place t f)) h)"
    by (auto simp: tab_wf_def)
  with assms [of h] CArr.prems show ?case by simp
qed simp

lemma find_table_wf: "find_table t c = Some g \<Longrightarrow> cfg_wf c \<Longrightarrow> tab_wf g"
proof (induction c)
  case (CArr u h)
  show ?case
  proof (cases "u = t")
    case True
    with CArr.prems show ?thesis by (auto intro: cfg_wf_tag)
  next
    case False
    with CArr.prems obtain x xs where "filter (\<lambda>e. snd e \<noteq> None) (map (map_prod id (find_table t)) h) = x # xs"
      and x: "snd x = Some g" by (auto split: list.splits)
    then have "x \<in> set (map (map_prod id (find_table t)) h)"
      by (metis filter_is_subset list.set_intros(1) subsetD)
    with x obtain a b where e: "(a, b) \<in> set h" "find_table t b = Some g" by auto
    with CArr.prems(2) have "cfg_wf b" by (auto simp: tab_wf_def)
    with CArr.IH [OF e(1), of b] e(2) show ?thesis by simp
  qed
qed simp

lemma cfg_table_wf: "cfg_wf c \<Longrightarrow> tab_wf (cfg_table t c)"
  using find_table_wf [of t c] by (auto simp: cfg_table_def split: option.split)

lemma entry_assign_wf: "tab_wf h \<Longrightarrow> tab_wf (fst (entry_assign segs v n h))"
proof (induction segs v n h rule: entry_assign.induct)
  case (2 k v n h)
  then show ?case
    using tab_wf_hfind [OF 2, of "symkey k"] by (auto split: option.split cfg.split)
next
  case (3 k k' ks v n h)
  let ?c = "case hfind h (symkey k) of Some (CArr u c) \<Rightarrow> c | _ \<Rightarrow> []"
  have "tab_wf ?c"
    using tab_wf_hfind [OF "3.prems", of "symkey k"] by (auto split: option.split cfg.split)
  from "3.IH" [OF refl this] "3.prems" show ?case
    by (auto simp: Let_def split_beta)
qed simp

lemma happend_wf [intro]: "tab_wf h \<Longrightarrow> tab_wf (happend (CLeaf v) h)"
  using hwf_happend [of h "CLeaf v"] by (auto simp: tab_wf_def happend_def Let_def)

lemma deep_copy_tab: "tab_wf dst \<Longrightarrow> tab_wf src \<Longrightarrow> yaf_deep_copy_section n dst src = (h, n') \<Longrightarrow> tab_wf h"
  using deep_copy_wf [of dst src n] by simp

lemma copy_parents_wf:
  "copy_parents arr ps n active = Inr (h, n') \<Longrightarrow> tab_wf arr \<Longrightarrow> tab_wf active \<Longrightarrow> tab_wf h"
proof (induction arr ps n active rule: copy_parents.induct)
  case (2 arr p ps n active)
  show ?case
  proof (cases "hfind arr (symkey p)")
    case (Some c)
    with 2(3) obtain t g where c: "c = CArr t g" by (cases c) auto
    obtain a m where a: "yaf_deep_copy_section n active g = (a, m)" by fastforce
    have "tab_wf a"
      using deep_copy_tab [OF "2.prems"(3) _ a] tab_wf_hfind [OF "2.prems"(2) Some] c by simp
    with "2.IH"(2) [OF Some c a [symmetric]] 2(3) "2.prems"(2) show ?thesis by (simp add: Some c a)
  qed (use 2 in simp)
qed simp

lemma pop_walk_wf: "pop_walk ks t s = Inr (t', s') \<Longrightarrow> cfg_wf (is_root s) \<Longrightarrow> cfg_wf (is_root s')"
proof (induction ks t s rule: pop_walk.induct)
  case (2 k ks t s)
  have "cfg_wf (is_root (snd (new_array t k s)))"
    using 2(4) by (auto simp: new_array_def intro!: in_place_wf)
  with 2 show ?case
    by (cases "new_array t k s") (auto split: option.splits cfg.splits if_splits)
qed simp

lemma ini_pop_wf:
  assumes "ini_pop key v index s = Inr s'" "cfg_wf (is_root s)"
  shows "cfg_wf (is_root s')"
proof -
  obtain t s1 where w: "pop_walk (pop_path key) (is_active s) s = Inr (t, s1)"
    using assms(1) by (auto simp: ini_pop_def Let_def split: if_splits sum.splits)
  then show ?thesis
    using assms(1) pop_walk_wf [OF w assms(2)]
    by (cases index) (auto simp: ini_pop_def Let_def w intro!: in_place_wf tab_wf_hupdate split: if_splits)
qed

lemma ini_section_wf:
  assumes "ini_section key s = Inr s'" "cfg_wf (is_root s)"
  shows "cfg_wf (is_root s')"
proof (cases "is_flag s = PARSING_PROCESS")
  case False
  then obtain t name ps h n' where "section_trim key = Inr t" "section_split t = (name, ps)"
    and copy: "copy_parents (cfg_table 0 (is_root s)) ps (is_next s + 1) [] = Inr (h, n')"
    and s': "is_root s' = in_place 0 (hupdate (symkey name) (CArr (is_next s) h)) (is_root s)"
    using assms(1) by (auto simp: ini_section_def Let_def split: sum.splits prod.splits)
  have "tab_wf h"
    using copy_parents_wf [OF copy] cfg_table_wf [OF assms(2)] by simp
  then show ?thesis
    unfolding s' by (intro in_place_wf tab_wf_hupdate assms(2)) simp_all
qed (use assms in \<open>auto simp: ini_section_def\<close>)

lemma ini_cb_wf:
  assumes "yaf_config_ini_parser_cb ev s = Inr s'" "cfg_wf (is_root s)"
  shows "cfg_wf (is_root s')"
proof -
  have "cfg_wf (is_root (ini_entry key v s))" for key v
    using assms(2) cfg_table_wf [OF assms(2)]
    by (auto simp: ini_entry_def Let_def split_beta intro!: in_place_wf entry_assign_wf)
  then show ?thesis
    using assms ini_pop_wf [of _ _ _ s s'] ini_section_wf [of _ s s']
    by (auto simp: yaf_config_ini_parser_cb_def split: if_splits ini_event.splits option.splits)
qed

lemma ini_parse_wf: "ini_parse evs s = Inr s' \<Longrightarrow> cfg_wf (is_root s) \<Longrightarrow> cfg_wf (is_root s')"
  by (induction evs arbitrary: s) (auto dest: ini_cb_wf split: sum.splits)

section \<open>What the parents give\<close>

definition inherited_at :: "cfg_tab \<Rightarrow> string list \<Rightarrow> zkey list \<Rightarrow> zval option" where
  \<comment> \<open>the value behind a path: that of the last of the sections which says anything there\<close>
  "inherited_at arr parents ks =
     fold (\<lambda>p v. case hfind arr (symkey p) of
         Some c \<Rightarrow> if silent_at ks c then v else leaf_at ks c
       | None \<Rightarrow> v) parents None"

lemma copy_parents_leaf:
  "copy_parents arr ps n active = Inr (h, n') \<Longrightarrow> tab_wf arr \<Longrightarrow> tab_wf active \<Longrightarrow>
     leaf_at ks (CArr t h) =
       fold (\<lambda>p v. case hfind arr (symkey p) of
           Some c \<Rightarrow> if silent_at ks c then v else leaf_at ks c
         | None \<Rightarrow> v) ps (leaf_at ks (CArr t active))"
proof (induction arr ps n active rule: copy_parents.induct)
  case (2 arr p ps n active)
  show ?case
  proof (cases "hfind arr (symkey p)")
    case (Some c)
    with 2(3) obtain u g where c: "c = CArr u g" by (cases c) auto
    obtain a m where a: "yaf_deep_copy_section n active g = (a, m)" by fastforce
    have g: "tab_wf g" using tab_wf_hfind [OF "2.prems"(2) Some] c by simp
    have "leaf_at ks (CArr t a) = (if silent_at ks c then leaf_at ks (CArr t active) else leaf_at ks c)"
      using deep_copy_inherits [of active g ks t n] "2.prems"(3) g a
      by (cases ks) (simp_all add: c)
    moreover have "copy_parents arr ps m a = Inr (h, n')" using 2(3) by (simp add: Some c a)
    ultimately show ?thesis
      using "2.IH"(2) [OF Some c a [symmetric]] "2.prems"(2) deep_copy_tab [OF "2.prems"(3) g a]
      by (simp add: Some)
  qed (use 2 in simp)
qed simp

lemma array_at_leaf [simp]: "\<not> array_at ks (CLeaf v)"
  by (cases ks) simp_all

lemma deep_copy_array:
  "array_at ks (CArr t (fst (yaf_deep_copy_section n dst src))) \<Longrightarrow> tab_wf dst \<Longrightarrow> tab_wf src \<Longrightarrow>
     array_at ks (CArr t dst) \<or> array_at ks (CArr t src)"
proof (induction n dst src arbitrary: ks t rule: deep_copy_induct)
  case (2 n dst k v src)
  have "tab_wf src" "hfind src k = None" using "2.prems"(3) cfg_wf_Cons [of 0 k "CLeaf v" src] by simp_all
  moreover have "array_at ks (CArr t (hupdate k (CLeaf v) dst)) \<Longrightarrow> array_at ks (CArr t dst)"
    by (cases ks) (auto split: option.splits if_splits)
  ultimately have "array_at ks (CArr t dst) \<or> array_at ks (CArr t src)"
    using "2.IH" [of ks t] "2.prems"(1,2) tab_wf_hupdate [OF "2.prems"(2), of "CLeaf v" k] by auto
  then show ?case
    using \<open>hfind src k = None\<close> by (cases ks) (auto split: option.splits)
next
  case (3 n dst k u' sc src u dc h n')
  have w: "tab_wf dc" "tab_wf sc" "tab_wf src" "hfind src k = None"
    using tab_wf_hfind [OF "3.prems"(2) "3.hyps"(1)] "3.prems"(3) cfg_wf_Cons [of 0 k "CArr u' sc" src] by simp_all
  then have copy: "hcopy [] dc = dc" by (simp add: tab_wf_def hcopy_Nil)
  have h: "tab_wf h" using deep_copy_tab [OF _ w(2) "3.hyps"(2)] w(1) by (simp add: copy)
  have inner: "array_at js (CArr n h) \<Longrightarrow> array_at js (CArr u dc) \<or> array_at js (CArr u' sc)" for js
    using "3.IH"(1) [of js n] w(1,2) unfolding copy "3.hyps"(2) [unfolded copy] fst_conv by (metis array_at_tag)
  have "array_at ks (CArr t (hupdate k (CArr n h) dst)) \<or> array_at ks (CArr t src)"
    using "3.IH"(2) [of ks t] "3.prems"(1,2) w(3) tab_wf_hupdate [OF "3.prems"(2), of "CArr n h" k] h
    unfolding deep_copy_merge [OF "3.hyps"(1,2)] by auto
  then show ?case
    using inner "3.hyps"(1) w(4) by (cases ks) (auto split: option.splits if_splits)
next
  case (4 n dst k u' sc src)
  have w: "tab_wf sc" "tab_wf src" "hfind src k = None"
    using "4.prems"(3) cfg_wf_Cons [of 0 k "CArr u' sc" src] by simp_all
  have "array_at ks (CArr t (hupdate k (CArr u' sc) dst)) \<or> array_at ks (CArr t src)"
    using "4.IH" [of ks t] "4.prems"(1,2) w tab_wf_hupdate [OF "4.prems"(2), of "CArr u' sc" k] unfolding deep_copy_share [OF "4.hyps"(1)] by auto
  then show ?case
    using w(3) by (cases ks) (auto split: option.splits if_splits)
qed simp

lemma copy_parents_array:
  "copy_parents arr ps n active = Inr (h, n') \<Longrightarrow> tab_wf arr \<Longrightarrow> tab_wf active \<Longrightarrow> array_at ks (CArr t h) \<Longrightarrow>
     array_at ks (CArr t active) \<or> (\<exists>p \<in> set ps. \<exists>c. hfind arr (symkey p) = Some c \<and> array_at ks c)"
proof (induction arr ps n active rule: copy_parents.induct)
  case (2 arr p ps n active)
  show ?case
  proof (cases "hfind arr (symkey p)")
    case (Some c)
    with 2(3) obtain u g where c: "c = CArr u g" by (cases c) auto
    obtain a m where a: "yaf_deep_copy_section n active g = (a, m)" by fastforce
    have g: "tab_wf g" using tab_wf_hfind [OF "2.prems"(2) Some] c by simp
    have "copy_parents arr ps m a = Inr (h, n')" using 2(3) by (simp add: Some c a)
    then have "array_at ks (CArr t a) \<or> (\<exists>p \<in> set ps. \<exists>c. hfind arr (symkey p) = Some c \<and> array_at ks c)"
      using "2.IH"(2) [OF Some c a [symmetric]] "2.prems"(2,4) deep_copy_tab [OF "2.prems"(3) g a] by simp
    moreover have "array_at ks (CArr t a) \<Longrightarrow> array_at ks (CArr t active) \<or> array_at ks c"
      using deep_copy_array [of ks t n active g] "2.prems"(3) g a by (metis array_at_tag c fst_conv)
    ultimately show ?thesis using Some by auto
  qed (use 2 in simp)
qed simp

section \<open>What the entries of the section add\<close>

definition entry_path :: "string \<Rightarrow> zkey list" where
  "entry_path key = map symkey (name_segments key)"

definition overlaps :: "zkey list \<Rightarrow> zkey list \<Rightarrow> bool" where
  \<comment> \<open>the same path, or one through the other\<close>
  "overlaps p q \<longleftrightarrow> prefix p q \<or> prefix q p"

lemma entry_assign_array:
  "array_at ks (CArr t (fst (entry_assign segs v n h))) \<Longrightarrow>
     array_at ks (CArr t h) \<or> strict_prefix ks (map symkey segs)"
proof (induction segs v n h arbitrary: ks t rule: entry_assign.induct)
  case (2 k v n h)
  then show ?case
    by (cases ks) (auto split: option.splits cfg.splits if_splits, (metis array_at_tag)+)
next
  case (3 k k' segs v n h)
  let ?c = "case hfind h (symkey k) of Some (CArr u c) \<Rightarrow> c | _ \<Rightarrow> []"
  show ?case
  proof (cases ks)
    case (Cons j js)
    have "array_at js (CArr n ?c) \<or> strict_prefix js (map symkey (k' # segs))"
      if "j = symkey k"
      using "3.IH" [OF refl, of js n] "3.prems" that by (simp add: Cons Let_def split_beta)
    moreover have "array_at js (CArr n ?c) \<Longrightarrow> js = [] \<or> array_at (symkey k # js) (CArr t h)"
      by (auto simp: array_at_tag [of js n] split: option.splits cfg.splits) (metis array_at_tag)+
    ultimately show ?thesis
      using "3.prems" by (auto simp: Cons Let_def split_beta split: if_splits option.splits)
  qed simp
qed simp

definition content :: "ini_state \<Rightarrow> cfg_tab" where
  \<comment> \<open>the array the entries go to\<close>
  "content s = cfg_table (is_active s) (is_root s)"

lemma alone_content:
  assumes "section_alone k s" "cfg_wf (is_root s)"
  shows "hfind (sections s) k = Some (CArr (is_active s) (content s))"
proof -
  obtain l a r where root: "is_root s = CArr 0 (l @ (k, CArr (is_active s) a) # r)" "is_active s \<noteq> 0"
    "is_active s \<notin> inner_tags l \<union> inner_tags a \<union> inner_tags r"
    using assms(1) by (auto simp: section_alone_def)
  have "hwf (l @ (k, CArr (is_active s) a) # r)" using assms(2) unfolding root(1) by (simp add: tab_wf_def)
  then have "k \<notin> fst ` set l" by (auto simp: hwf_def)
  then have "hfind (l @ (k, CArr (is_active s) a) # r) k = Some (CArr (is_active s) a)"
    by (induction l) auto
  moreover have "content s = a"
    using root cfg_table_alone [of "is_active s" l k a r] unfolding content_def by simp
  ultimately show ?thesis by (simp add: sections_root [OF root(1)])
qed

lemma entry_content:
  assumes "section_alone k s"
  shows "content (ini_entry key v s) = fst (entry_assign (name_segments key) v (is_next s) (content s))"
proof -
  let ?A = "is_active s"
  obtain l a r where root: "is_root s = CArr 0 (l @ (k, CArr ?A a) # r)" "?A \<noteq> 0"
    "?A \<notin> inner_tags l" "?A \<notin> inner_tags a" "?A \<notin> inner_tags r"
    using assms by (auto simp: section_alone_def)
  then show ?thesis
    using cfg_table_alone [of ?A l k a r]
      cfg_table_alone [of ?A l k "fst (entry_assign (name_segments key) v (is_next s) a)" r]
    by (simp add: content_def ini_entry_def Let_def split_beta in_place_list name_segments_def)
qed

definition entry_event :: "string \<times> zval \<Rightarrow> ini_event" where
  "entry_event e = IniEntry (fst e) (Some (snd e))"

lemma entries_read:
  assumes "is_flag s \<noteq> PARSING_END"
  shows "ini_parse (map entry_event own) s = Inr (fold (\<lambda>(n, v). ini_entry n v) own s)"
  using assms
proof (induction own arbitrary: s)
  case (Cons e own)
  have "is_flag (ini_entry n v s) = is_flag s" for n v
    by (simp add: ini_entry_def Let_def split_beta)
  with Cons show ?case
    by (cases e) (simp add: entry_event_def yaf_config_ini_parser_cb_def)
qed simp

lemma entry_alone: "section_alone k s \<Longrightarrow> section_alone k (ini_entry n v s)"
  using ini_entry_section by blast

lemma entries_alone: "section_alone k s \<Longrightarrow> section_alone k (fold (\<lambda>(n, v). ini_entry n v) own s)"
  by (induction own arbitrary: s) (auto intro: entry_alone)

lemma entries_leaf:
  "section_alone k s \<Longrightarrow> \<forall>(n, v) \<in> set own. \<not> overlaps (entry_path n) ks \<Longrightarrow>
     leaf_at ks (CArr t (content (fold (\<lambda>(n, v). ini_entry n v) own s))) = leaf_at ks (CArr t (content s))"
proof (induction own arbitrary: s)
  case (Cons e own)
  obtain n v where e: "e = (n, v)" by (cases e)
  have no: "\<not> prefix (entry_path n) ks" "\<not> prefix ks (entry_path n)"
    using Cons.prems(2) by (simp_all add: e overlaps_def)
  then have "name_segments n \<noteq> []" by (auto simp: entry_path_def)
  then have "leaf_at ks (CArr t (content (ini_entry n v s))) = leaf_at ks (CArr t (content s))"
    using no unfolding entry_content [OF Cons.prems(1)]
    by (auto simp: entry_assign_paths entry_paths_def entry_path_def)
  with Cons.IH [of "ini_entry n v s"] Cons.prems show ?case
    by (simp add: e entry_alone)
qed simp

lemma entries_array:
  "section_alone k s \<Longrightarrow> array_at ks (CArr t (content (fold (\<lambda>(n, v). ini_entry n v) own s))) \<Longrightarrow>
     array_at ks (CArr t (content s)) \<or> (\<exists>(n, v) \<in> set own. strict_prefix ks (entry_path n))"
proof (induction own arbitrary: s)
  case (Cons e own)
  obtain n v where e: "e = (n, v)" by (cases e)
  have "array_at ks (CArr t (content (ini_entry n v s))) \<or> (\<exists>(n, v) \<in> set own. strict_prefix ks (entry_path n))"
    using Cons.IH [of "ini_entry n v s"] Cons.prems by (simp add: e entry_alone)
  then show ?case
    using entry_assign_array [of ks t "name_segments n" v "is_next s" "content s"]
    unfolding entry_content [OF Cons.prems(1)] by (auto simp: e entry_path_def)
qed simp

section \<open>A section with its parents\<close>

lemma section_start:
  assumes "numbered s0" "is_flag s0 = PARSING_START" "section_trim key = Inr t" "section_split t = (name, parents)"
    and "yaf_config_ini_parser_cb (IniSection key) s0 = Inr s" "cfg_wf (is_root s0)"
  shows "section_alone (symkey name) s \<and> is_flag s \<noteq> PARSING_END
    \<and> (\<exists>n n'. copy_parents (sections s0) parents n [] = Inr (content s, n'))"
proof -
  have cb: "ini_section key s0 = Inr s" using assms(2,5) by (simp add: yaf_config_ini_parser_cb_def)
  have key: "section_key key = symkey name" by (simp add: section_key_def assms(3,4))
  have alone: "section_alone (symkey name) s"
    using ini_section_alone [OF assms(1) cb] assms(2) key by simp
  obtain r where root: "is_root s0 = CArr 0 r" using assms(1) by (auto simp: numbered_def)
  obtain h n' where copy: "copy_parents (sections s0) parents (is_next s0 + 1) [] = Inr (h, n')"
    and new: "is_root s = CArr 0 (hupdate (symkey name) (CArr (is_next s0) h) r)" "is_active s = is_next s0"
      "is_flag s \<noteq> PARSING_END"
    using cb assms(2-4) by (auto simp: ini_section_def sections_def Let_def root split: sum.splits)
  have "cfg_wf (is_root s)" using ini_cb_wf [OF assms(5,6)] .
  then have "hfind (sections s) (symkey name) = Some (CArr (is_active s) (content s))"
    by (rule alone_content [OF alone])
  then have "content s = h" by (simp add: sections_root [OF new(1)] new(2))
  with copy alone new(3) show ?thesis by blast
qed

text \<open>
  C9: A section has its own values and else those of the sections it inherits from, at every
  depth and whatever the file holds above it: a path that no entry of the section touches leads
  to what the parents say there (of several parents the one that is named first goes before the
  others), and a path an entry of the section assigns leads to the value of its last assignment,
  whatever the parents say; only where a parent or an earlier entry put an array in that place
  does the value not take its place.
\<close>

theorem section_own_over_inherited:
  assumes "ini_parse evs (ini_start w) = Inr s0" "is_flag s0 = PARSING_START"
    and "section_trim key = Inr t" "section_split t = (name, parents)"
    and "ini_parse (IniSection key # map entry_event own) s0 = Inr s'"
  shows "\<exists>c. hfind (sections s') (symkey name) = Some c
    \<and> (\<forall>ks. (\<forall>(n, v) \<in> set own. \<not> overlaps (entry_path n) ks) \<longrightarrow>
         leaf_at ks c = inherited_at (sections s0) parents ks)
    \<and> (\<forall>own1 n v own2. own = own1 @ (n, v) # own2 \<and> name_segments n \<noteq> []
         \<and> (\<forall>(m, u) \<in> set own1. \<not> strict_prefix (entry_path n) (entry_path m))
         \<and> (\<forall>(m, u) \<in> set own2. \<not> overlaps (entry_path m) (entry_path n))
         \<and> (\<forall>p \<in> set parents. \<forall>d. hfind (sections s0) (symkey p) = Some d \<longrightarrow> \<not> array_at (entry_path n) d)
         \<longrightarrow> leaf_at (entry_path n) c = Some v)"
proof -
  have s0: "numbered s0" "cfg_wf (is_root s0)"
    using ini_parse_inv [OF ini_start_inv assms(1)] ini_parse_wf [OF assms(1)]
    by (simp_all add: ini_inv_def ini_start_def)
  obtain s where s: "yaf_config_ini_parser_cb (IniSection key) s0 = Inr s" "ini_parse (map entry_event own) s = Inr s'"
    using assms(5) by (auto split: sum.splits)
  obtain n0 n' where start: "section_alone (symkey name) s" "is_flag s \<noteq> PARSING_END"
    and copy: "copy_parents (sections s0) parents n0 [] = Inr (content s, n')"
    using section_start [OF s0(1) assms(2-4) s(1) s0(2)] by blast
  have s': "s' = fold (\<lambda>(n, v). ini_entry n v) own s"
    using s(2) entries_read [OF start(2)] by simp
  have arr: "tab_wf (sections s0)" using cfg_table_wf [OF s0(2)] by (simp add: sections_def)
  have found: "hfind (sections s') (symkey name) = Some (CArr (is_active s') (content s'))"
    using alone_content entries_alone [OF start(1)] ini_parse_wf [OF assms(5) s0(2)] by (simp add: s')
  moreover have "leaf_at ks (CArr (is_active s') (content s')) = inherited_at (sections s0) parents ks"
    if "\<forall>(n, v) \<in> set own. \<not> overlaps (entry_path n) ks" for ks
    using entries_leaf [OF start(1) that] copy_parents_leaf [OF copy arr, of ks]
    by (simp add: s' inherited_at_def)
  moreover have "leaf_at (entry_path n) (CArr (is_active s') (content s')) = Some v"
    if own: "own = own1 @ (n, v) # own2" and n: "name_segments n \<noteq> []"
      and before: "\<forall>(m, u) \<in> set own1. \<not> strict_prefix (entry_path n) (entry_path m)"
      and behind: "\<forall>(m, u) \<in> set own2. \<not> overlaps (entry_path m) (entry_path n)"
      and above: "\<forall>p \<in> set parents. \<forall>d. hfind (sections s0) (symkey p) = Some d \<longrightarrow> \<not> array_at (entry_path n) d"
    for own1 n v own2
  proof -
    define s1 where "s1 = fold (\<lambda>(n, v). ini_entry n v) own1 s"
    have s1: "section_alone (symkey name) s1" unfolding s1_def by (rule entries_alone [OF start(1)])
    have "\<not> array_at (entry_path n) (CArr 0 (content s))"
      using copy_parents_array [OF copy arr, of "entry_path n" 0] above n by (auto simp: entry_path_def)
    then have "\<not> array_at (entry_path n) (CArr 0 (content s1))"
      using entries_array [OF start(1), of "entry_path n" 0 own1] before unfolding s1_def by auto
    then have "leaf_at (entry_path n) (CArr 0 (content (ini_entry n v s1))) = Some v"
      using entry_assign_paths [OF n, of "entry_path n" 0 v "is_next s1" "content s1"]
      unfolding entry_content [OF s1] by (simp add: entry_paths_def entry_path_def)
    then show ?thesis
      using entries_leaf [OF entry_alone [OF s1] behind, of 0] leaf_at_tag [of "entry_path n" "is_active s'" _ 0]
      by (simp add: s' own s1_def)
  qed
  ultimately show ?thesis by blast
qed

lemma section_own_over_inherited_witness:
  "\<exists>s0 s' c. ini_parse [IniSection ''base'', IniEntry ''db.host'' (Some (ZString ''a'')), IniEntry ''db.port'' (Some (ZLong 1))]
        (ini_start None) = Inr s0
     \<and> ini_parse [IniSection ''child : base'', IniEntry ''db.host'' (Some (ZString ''b''))] s0 = Inr s'
     \<and> hfind (sections s') (KStr ''child'') = Some c
     \<and> leaf_at [KStr ''db'', KStr ''host''] c = Some (ZString ''b'')
     \<and> leaf_at [KStr ''db'', KStr ''port''] c = Some (ZLong 1)"
proof -
  let ?evs = "[IniSection ''base'', IniEntry ''db.host'' (Some (ZString ''a'')), IniEntry ''db.port'' (Some (ZLong 1))]"
  let ?own = "[(''db.host'', ZString ''b'')]"
  let ?port = "[KStr ''db'', KStr ''port'']" and ?host = "[KStr ''db'', KStr ''host'']"
  have "case ini_parse ?evs (ini_start None) of Inl e \<Rightarrow> False
    | Inr s \<Rightarrow> is_flag s = PARSING_START \<and> inherited_at (sections s) [''base''] ?port = Some (ZLong 1)
        \<and> (case hfind (sections s) (KStr ''base'') of None \<Rightarrow> False | Some d \<Rightarrow> \<not> array_at ?host d)
        \<and> \<not> isl (ini_parse (IniSection ''child : base'' # map entry_event ?own) s)"
    by code_simp
  then obtain s0 d s' where s0: "ini_parse ?evs (ini_start None) = Inr s0" "is_flag s0 = PARSING_START"
    "inherited_at (sections s0) [''base''] ?port = Some (ZLong 1)"
    "hfind (sections s0) (KStr ''base'') = Some d" "\<not> array_at ?host d"
    "ini_parse (IniSection ''child : base'' # map entry_event ?own) s0 = Inr s'"
    by (auto split: sum.split_asm option.split_asm simp: isl_def)
  have names: "section_trim ''child : base'' = Inr ''child : base''" "section_split ''child : base'' = (''child'', [''base''])"
    "symkey ''child'' = KStr ''child''" "symkey ''base'' = KStr ''base''"
    "entry_path ''db.host'' = ?host" "name_segments ''db.host'' \<noteq> []" "\<not> overlaps ?host ?port"
    by code_simp+
  from section_own_over_inherited [OF s0(1,2) names(1,2) s0(6)] obtain c where
    c: "hfind (sections s') (KStr ''child'') = Some c"
      "(\<forall>(n, v) \<in> set ?own. \<not> overlaps (entry_path n) ?port) \<Longrightarrow> leaf_at ?port c = inherited_at (sections s0) [''base''] ?port"
      "\<And>own1 n v own2. ?own = own1 @ (n, v) # own2 \<and> name_segments n \<noteq> []
         \<and> (\<forall>(m, u) \<in> set own1. \<not> strict_prefix (entry_path n) (entry_path m))
         \<and> (\<forall>(m, u) \<in> set own2. \<not> overlaps (entry_path m) (entry_path n))
         \<and> (\<forall>p \<in> set [''base'']. \<forall>d. hfind (sections s0) (symkey p) = Some d \<longrightarrow> \<not> array_at (entry_path n) d)
         \<Longrightarrow> leaf_at (entry_path n) c = Some v"
    unfolding names(3) by blast
  have "leaf_at ?port c = Some (ZLong 1)"
    using c(2) s0(3) names(5,7) by simp
  moreover have "leaf_at ?host c = Some (ZString ''b'')"
    using c(3) [of "[]" "''db.host''" "ZString ''b''" "[]"] s0(4,5) names(4-6) by simp
  ultimately show ?thesis
    using s0(1,6) c(1) by (intro exI conjI) (simp_all add: entry_event_def)
qed

end
