(* ===== verification/Yaf_Import.thy ===== *)
theory Yaf_Import
  imports Yaf_Loader
begin

text \<open>
  Running a file (\<open>yaf_loader_import\<close> of \<open>yaf_loader.c\<close>), and the methods of the loader a script
  calls.  What the engine makes of a path is the parameter \<open>php_files\<close>: whether the path can be
  resolved, and what compiling it gives.  The property is the one a script relies on when it
  imports a library: the file runs once.
\<close>

section \<open>Running a file\<close>

record php_files =
  pf_realpath :: "string \<Rightarrow> php_rt \<Rightarrow> bool" \<comment> \<open>\<open>VCWD_REALPATH\<close>\<close>
  pf_compile :: "string \<Rightarrow> php_rt \<Rightarrow> (php_rt \<Rightarrow> php_rt) compiled \<times> php_rt" \<comment> \<open>\<open>zend_compile_file\<close>\<close>

definition yaf_loader_import :: "php_files \<Rightarrow> string \<Rightarrow> php_rt \<Rightarrow> bool \<times> php_rt" where
  "yaf_loader_import files path rt =
     (if \<not> pf_realpath files (cstr path) rt then (False, rt)
      else
        (let (c, rt) = pf_compile files (cstr path) rt;
             rt = note_opened path c rt
         in case cp_run c of Some run \<Rightarrow> (True, run rt) | None \<Rightarrow> (False, rt)))"

section \<open>Methods of the loader\<close>

definition yaf_loader_register :: "(php_rt \<Rightarrow> bool \<times> php_rt) \<Rightarrow> php_rt \<Rightarrow> bool \<times> php_rt" where
  \<comment> \<open>the parameter calls \<open>spl_autoload_register\<close> with the method \<open>autoload\<close> of the loader\<close>
  "yaf_loader_register spl_register rt =
     (case spl_register rt of
        (True, rt') \<Rightarrow> (True, rt')
      | (False, rt') \<Rightarrow> (False, php_error_docref (EWarning ''Unable to register autoload function autoload'') rt'))"

definition loader_getInstance ::
    "(php_rt \<Rightarrow> bool \<times> php_rt) \<Rightarrow> yaf_loader option \<Rightarrow> string option \<Rightarrow> string option \<Rightarrow> php_rt
      \<Rightarrow> yaf_loader option \<times> php_rt" where
  \<comment> \<open>\<^const>\<open>None\<close> is \<open>false\<close>; a loader that is new is registered\<close>
  "loader_getInstance spl_register inst library global rt =
     (case (inst, yaf_loader_instance inst library global rt) of
        (None, Some l, rt') \<Rightarrow>
          (Some l,
           case yaf_loader_register spl_register rt' of
             (True, rt'') \<Rightarrow> rt''
           | (False, rt'') \<Rightarrow> php_error_docref (EWarning ''Failed to register autoload function'') rt'')
      | (_, r) \<Rightarrow> r)"

definition loader_getLocalNamespace :: "yaf_globals \<Rightarrow> zval" where
  "loader_getLocalNamespace g = (case g_local_namespaces g of Some s \<Rightarrow> ZString s | None \<Rightarrow> ZNull)"

definition loader_isLocalName :: "yaf_globals \<Rightarrow> zval \<Rightarrow> bool option" where
  "loader_isLocalName g name =
     (case name of ZString s \<Rightarrow> yaf_loader_is_local_namespace g s | _ \<Rightarrow> Some False)"

section \<open>Once\<close>

definition keeps_included :: "(php_rt \<Rightarrow> php_rt) \<Rightarrow> bool" where
  "keeps_included f \<longleftrightarrow> (\<forall>rt. set (rt_included rt) \<subseteq> set (rt_included (f rt)))"

definition opens_as :: "php_files \<Rightarrow> string \<Rightarrow> string \<Rightarrow> bool" where
  \<comment> \<open>the engine opens the file of that name as a stream, gives it that path, and never takes a
      path from the table of the included files\<close>
  "opens_as files path opened \<longleftrightarrow>
     (\<forall>rt c rt' run. pf_compile files (cstr path) rt = (c, rt') \<and> cp_run c = Some run \<longrightarrow>
        cp_handle c \<and> (case cp_opened c of Some p \<Rightarrow> p | None \<Rightarrow> path) = opened \<and> keeps_included run \<and>
        set (rt_included rt) \<subseteq> set (rt_included rt'))"

lemma import_notes:
  assumes "opens_as files path opened" "yaf_loader_import files path rt = (True, rt')"
  shows "insert opened (set (rt_included rt)) \<subseteq> set (rt_included rt')"
proof -
  obtain c rt1 run where c: "pf_compile files (cstr path) rt = (c, rt1)" "cp_run c = Some run"
    "rt' = run (note_opened path c rt1)"
    using assms(2) by (auto simp: yaf_loader_import_def Let_def split: if_splits prod.splits option.splits)
  with assms(1) have o: "cp_handle c" "(case cp_opened c of Some p \<Rightarrow> p | None \<Rightarrow> path) = opened"
    "keeps_included run" "set (rt_included rt) \<subseteq> set (rt_included rt1)"
    unfolding opens_as_def by blast+
  have "note_opened path c rt1 = add_included opened rt1"
    using o(1,2) c(2) by (simp add: note_opened_def)
  then have "insert opened (set (rt_included rt1)) \<subseteq> set (rt_included rt')"
    using o(3) unfolding c(3) keeps_included_def add_included_set [symmetric] by metis
  with o(4) show ?thesis by blast
qed

definition import_path :: "yaf_loader option \<Rightarrow> string \<Rightarrow> string" where
  \<comment> \<open>the path \<open>import\<close> looks for: an absolute one, or one below the library of the loader\<close>
  "import_path inst file =
     (if chd file = SLASH then file
      else case inst of Some l \<Rightarrow> cstr (ld_library l) @ SLASH # cstr file | None \<Rightarrow> [])"

lemma loader_import_path:
  "file \<noteq> [] \<Longrightarrow> chd file = SLASH \<or> inst \<noteq> None \<Longrightarrow>
     loader_import imp inst file rt =
       (if import_path inst file \<in> set (rt_included rt) then (True, rt) else imp (import_path inst file) rt)"
  by (auto simp: loader_import_def import_path_def split: option.splits)

lemma loader_import_notes:
  assumes "file \<noteq> []" "chd file = SLASH \<or> inst \<noteq> None"
    and "opens_as files (import_path inst file) opened" "opened = import_path inst file"
    and "loader_import (yaf_loader_import files) inst file rt = (True, rt')"
  shows "insert (import_path inst file) (set (rt_included rt)) \<subseteq> set (rt_included rt')"
  using assms import_notes [OF assms(3), of rt rt'] by (auto simp: loader_import_path split: if_splits)

text \<open>
  C31: A file that \<open>Yaf_Loader::import\<close> ran is not run a second time, as long as nothing takes a
  path out of the table of the included files, provided the engine gives the file the path it was
  asked for.  A file the engine opened under another path, as through a link, is run by every
  call.
\<close>

theorem import_once:
  assumes "file \<noteq> []" "chd file = SLASH \<or> inst \<noteq> None" "opens_as files (import_path inst file) opened"
    and "loader_import (yaf_loader_import files) inst file rt = (True, rt1)"
    and "set (rt_included rt1) \<subseteq> set (rt_included rt2)"
  shows "loader_import (yaf_loader_import files) inst file rt2 =
    (if opened = import_path inst file \<or> import_path inst file \<in> set (rt_included rt2) then (True, rt2)
     else yaf_loader_import files (import_path inst file) rt2)"
  using assms loader_import_notes [OF assms(1-3) _ assms(4)]
  by (auto simp: loader_import_path)

definition sample_files :: php_files where
  \<comment> \<open>every file is there and writes its path, below \<open>/link\<close> it is opened below \<open>/real\<close>\<close>
  "sample_files =
     \<lparr>pf_realpath = (\<lambda>_ _. True),
      pf_compile = (\<lambda>p rt. (\<lparr>cp_run = Some (\<lambda>rt. rt\<lparr>rt_output := rt_output rt @ p\<rparr>), cp_handle = True,
        cp_opened = (if take 5 p = ''/link'' then Some (''/real'' @ drop 5 p) else None)\<rparr>, rt))\<rparr>"

lemma sample_files_open:
  "opens_as sample_files ''/lib/a.php'' ''/lib/a.php''" "opens_as sample_files ''/link/a.php'' ''/real/a.php''"
  by (auto simp: opens_as_def sample_files_def keeps_included_def cstr_def split: option.splits)

lemma import_once_witness:
  "let imp = (\<lambda>f rt. snd (loader_import (yaf_loader_import sample_files) (Some \<lparr>ld_library = ''/lib'', ld_global = ''/lib''\<rparr>) f rt))
   in rt_output (imp ''a.php'' (imp ''a.php'' sample_rt)) = ''/lib/a.php''
    \<and> rt_output (imp ''/link/a.php'' (imp ''/link/a.php'' sample_rt)) = ''/link/a.php/link/a.php''"
proof -
  let ?l = "Some \<lparr>ld_library = ''/lib'', ld_global = ''/lib''\<rparr>"
  let ?imp = "\<lambda>f rt. loader_import (yaf_loader_import sample_files) ?l f rt"
  define r1 where "r1 = snd (?imp ''a.php'' sample_rt)"
  define r2 where "r2 = snd (?imp ''/link/a.php'' sample_rt)"
  have path: "import_path ?l ''a.php'' = ''/lib/a.php''" "import_path ?l ''/link/a.php'' = ''/link/a.php''"
    by code_simp+
  have "fst (?imp ''a.php'' sample_rt)" "fst (?imp ''/link/a.php'' sample_rt)"
    by code_simp+
  then have run: "?imp ''a.php'' sample_rt = (True, r1)" "?imp ''/link/a.php'' sample_rt = (True, r2)"
    by (simp_all add: r1_def r2_def prod_eq_iff)
  have out: "rt_output r1 = ''/lib/a.php''" "rt_output r2 = ''/link/a.php''" "rt_included r2 = [''/real/a.php'']"
    unfolding r1_def r2_def by code_simp+
  have "?imp ''a.php'' r1 = (True, r1)"
    using import_once [of "''a.php''" ?l sample_files "''/lib/a.php''" sample_rt r1 r1] run(1) path(1)
    by (simp add: sample_files_open)
  moreover have "?imp ''/link/a.php'' r2 = yaf_loader_import sample_files ''/link/a.php'' r2"
    using import_once [of "''/link/a.php''" ?l sample_files "''/real/a.php''" sample_rt r2 r2] run(2) out(3) path(2)
    by (simp add: sample_files_open)
  moreover have "cstr ''/link/a.php'' = ''/link/a.php''" by code_simp
  then have "rt_output (snd (yaf_loader_import sample_files ''/link/a.php'' r2)) = ''/link/a.php/link/a.php''"
    using out by (simp add: yaf_loader_import_def sample_files_def note_opened_def add_included_def)
  ultimately show ?thesis
    using run out by (simp add: Let_def r1_def [symmetric] r2_def [symmetric])
qed

end
