(* ===== verification/Yaf_Startup.thy ===== *)
theory Yaf_Startup
  imports Yaf_Lifecycle
begin

text \<open>
  Module startup (\<open>yaf.c\<close> and the \<open>YAF_STARTUP_FUNCTION\<close> of every component): the constants
  and the classes a script finds.  A startup function works on the variables the extension keeps
  its class entries in; it is a step on the store of these variables, and the order of the steps
  matters: a class registered before its parent has none, and gets none of the constants and
  properties its parent is given later.  The methods of a class, and which of them are abstract,
  are not part of an entry.
\<close>

section \<open>Class entries\<close>

datatype class_flag = AccFinal | AccExplicitAbstract | AccImplicitAbstract | AccInterface

datatype access = AccPublic | AccProtected

record class_member =
  cm_name :: string
  cm_access :: access
  cm_static :: bool
  cm_default :: zval

record class_entry =
  ce_name :: string
  ce_ancestors :: "string list" \<comment> \<open>the parent, its parent, and so on\<close>
  ce_interfaces :: "string list"
  ce_flags :: "class_flag list"
  ce_members :: "class_member list" \<comment> \<open>the inherited ones first\<close>
  ce_constants :: "(string \<times> string) list"

datatype ce_var =
    Zend_ce_exception | Zend_ce_iterator | Zend_ce_arrayaccess | Spl_ce_Countable
  | Application_ce | Bootstrap_ce | Dispatcher_ce | Loader_ce
  | Request_ce | Request_http_ce | Request_simple_ce
  | Response_ce | Response_http_ce | Response_cli_ce | Controller_ce | Action_ce
  | Config_ce | Config_ini_ce | Config_simple_ce | View_interface_ce | View_simple_ce
  | Router_ce | Route_ce | Route_static_ce | Route_simple_ce | Route_supervar_ce
  | Route_rewrite_ce | Route_regex_ce | Route_map_ce
  | Plugin_ce | Registry_ce | Session_ce | Exception_ce
  | Buildin_exception nat \<comment> \<open>a slot of \<open>yaf_buildin_exceptions\<close>\<close>

text \<open>A variable that was not written is a null pointer, \<^const>\<open>None\<close> in the store.\<close>

type_synonym ce_store = "ce_var \<Rightarrow> class_entry option"

type_synonym startup = "ce_store \<Rightarrow> mem_error + ce_store"

fun in_order :: "startup list \<Rightarrow> startup" where
  "in_order [] st = Inr st"
| "in_order (f # fs) st = (case f st of Inl e \<Rightarrow> Inl e | Inr st' \<Rightarrow> in_order fs st')"

section \<open>Registering\<close>

fun join_parts :: "string \<Rightarrow> string list \<Rightarrow> string" where
  "join_parts sep [] = []"
| "join_parts sep [s] = s"
| "join_parts sep (s # ss) = s @ sep @ join_parts sep ss"

definition ns_name :: "string list \<Rightarrow> string" where
  "ns_name parts = join_parts [CHR 0x5C] parts"

definition class_names :: "bool \<Rightarrow> string \<Rightarrow> string list \<Rightarrow> string" where
  \<comment> \<open>\<open>YAF_INIT_CLASS_ENTRY\<close>; the flag is \<open>YAF_G(use_namespace)\<close>\<close>
  "class_names ns plain parts = (if ns then ns_name (''Yaf'' # parts) else plain)"

definition new_entry :: "string \<Rightarrow> class_entry option \<Rightarrow> class_entry" where
  \<comment> \<open>\<open>zend_do_inheritance\<close> copies what the parent has so far\<close>
  "new_entry name parent =
     (case parent of
        None \<Rightarrow> \<lparr>ce_name = name, ce_ancestors = [], ce_interfaces = [], ce_flags = [], ce_members = [], ce_constants = []\<rparr>
      | Some p \<Rightarrow> \<lparr>ce_name = name, ce_ancestors = ce_name p # ce_ancestors p, ce_interfaces = ce_interfaces p,
          ce_flags = [], ce_members = ce_members p, ce_constants = ce_constants p\<rparr>)"

definition zend_register_internal_class_ex :: "ce_var \<Rightarrow> string \<Rightarrow> ce_var option \<Rightarrow> startup" where
  \<comment> \<open>a parent whose variable is null is no parent\<close>
  "zend_register_internal_class_ex var name parent st =
     Inr (st(var \<mapsto> new_entry name (Option.bind parent st)))"

definition on_class :: "ce_var \<Rightarrow> (class_entry \<Rightarrow> class_entry) \<Rightarrow> startup" where
  "on_class var f st = (case st var of None \<Rightarrow> Inl NullDeref | Some ce \<Rightarrow> Inr (st(var \<mapsto> f ce)))"

definition set_flag :: "class_flag \<Rightarrow> ce_var \<Rightarrow> startup" where
  "set_flag fl var = on_class var (\<lambda>ce. ce\<lparr>ce_flags := fl # ce_flags ce\<rparr>)"

definition zend_register_internal_interface :: "ce_var \<Rightarrow> string \<Rightarrow> startup" where
  "zend_register_internal_interface var name =
     in_order [zend_register_internal_class_ex var name None, set_flag AccInterface var]"

definition zend_class_implements :: "ce_var \<Rightarrow> ce_var \<Rightarrow> startup" where
  "zend_class_implements var iface st =
     (case st iface of
        None \<Rightarrow> Inl NullDeref
      | Some i \<Rightarrow> on_class var (\<lambda>ce. ce\<lparr>ce_interfaces := ce_interfaces ce @ [ce_name i]\<rparr>) st)"

definition declare_member :: "class_member \<Rightarrow> class_member list \<Rightarrow> class_member list" where
  \<comment> \<open>a property the parent has keeps its place\<close>
  "declare_member m ms =
     (if cm_name m \<in> set (map cm_name ms) then map (\<lambda>m'. if cm_name m' = cm_name m then m else m') ms
      else ms @ [m])"

definition zend_declare_property :: "ce_var \<Rightarrow> access \<Rightarrow> string \<Rightarrow> zval \<Rightarrow> startup" where
  "zend_declare_property var acc name v =
     on_class var (\<lambda>ce. ce\<lparr>ce_members :=
       declare_member \<lparr>cm_name = name, cm_access = acc, cm_static = False, cm_default = v\<rparr> (ce_members ce)\<rparr>)"

definition declare_nulls :: "ce_var \<Rightarrow> access \<Rightarrow> string list \<Rightarrow> startup" where
  \<comment> \<open>one call of \<open>zend_declare_property_null\<close> for each name\<close>
  "declare_nulls var acc names = in_order (map (\<lambda>n. zend_declare_property var acc n ZNull) names)"

definition declare_static :: "ce_var \<Rightarrow> string \<Rightarrow> startup" where
  \<comment> \<open>a protected static property that is null\<close>
  "declare_static var name =
     on_class var (\<lambda>ce. ce\<lparr>ce_members :=
       declare_member \<lparr>cm_name = name, cm_access = AccProtected, cm_static = True, cm_default = ZNull\<rparr> (ce_members ce)\<rparr>)"

definition zend_declare_class_constant_string :: "ce_var \<Rightarrow> string \<Rightarrow> string \<Rightarrow> startup" where
  "zend_declare_class_constant_string var name v =
     on_class var (\<lambda>ce. ce\<lparr>ce_constants := ce_constants ce @ [(name, v)]\<rparr>)"

definition implements_all :: "ce_var \<Rightarrow> ce_var list \<Rightarrow> startup" where
  "implements_all var ifaces = in_order (map (zend_class_implements var) ifaces)"

definition array_interfaces :: "ce_var list" where
  \<comment> \<open>with the SPL, which PHP 7 always has\<close>
  "array_interfaces = [Zend_ce_iterator, Zend_ce_arrayaccess, Spl_ce_Countable]"

section \<open>The startup functions\<close>

definition startup_application :: "bool \<Rightarrow> string \<Rightarrow> startup" where
  "startup_application ns environ = in_order
     [zend_register_internal_class_ex Application_ce (class_names ns ''Yaf_Application'' [''Application'']) None,
      set_flag AccFinal Application_ce,
      declare_nulls Application_ce AccProtected [''config'', ''dispatcher''],
      declare_static Application_ce ''_app'',
      declare_nulls Application_ce AccProtected [''_modules''],
      zend_declare_property Application_ce AccProtected ''_running'' ZFalse,
      zend_declare_property Application_ce AccProtected ''_environ'' (ZString (cstr environ)),
      zend_declare_property Application_ce AccProtected ''_err_no'' (ZLong 0),
      zend_declare_property Application_ce AccProtected ''_err_msg'' (ZString [])]"

definition startup_bootstrap :: "bool \<Rightarrow> startup" where
  "startup_bootstrap ns = in_order
     [zend_register_internal_class_ex Bootstrap_ce (class_names ns ''Yaf_Bootstrap_Abstract'' [''Bootstrap_Abstract'']) None,
      set_flag AccExplicitAbstract Bootstrap_ce]"

definition startup_dispatcher :: "bool \<Rightarrow> startup" where
  "startup_dispatcher ns = in_order
     [zend_register_internal_class_ex Dispatcher_ce (class_names ns ''Yaf_Dispatcher'' [''Dispatcher'']) None,
      set_flag AccFinal Dispatcher_ce,
      declare_nulls Dispatcher_ce AccProtected [''_router'', ''_view'', ''_request'', ''_plugins''],
      declare_static Dispatcher_ce ''_instance'',
      zend_declare_property Dispatcher_ce AccProtected ''_auto_render'' ZTrue,
      zend_declare_property Dispatcher_ce AccProtected ''_return_response'' ZFalse,
      zend_declare_property Dispatcher_ce AccProtected ''_instantly_flush'' ZFalse,
      declare_nulls Dispatcher_ce AccProtected [''_default_module'', ''_default_controller'', ''_default_action'']]"

definition startup_loader :: "bool \<Rightarrow> startup" where
  "startup_loader ns = in_order
     [zend_register_internal_class_ex Loader_ce (class_names ns ''Yaf_Loader'' [''Loader'']) None,
      set_flag AccFinal Loader_ce,
      declare_nulls Loader_ce AccProtected [''_library'', ''_global_library''],
      declare_static Loader_ce ''_instance'']"

definition startup_request_http :: "bool \<Rightarrow> startup" where
  \<comment> \<open>the constants go to the parent\<close>
  "startup_request_http ns = in_order
     [zend_register_internal_class_ex Request_http_ce (class_names ns ''Yaf_Request_Http'' [''Request'', ''Http'']) (Some Request_ce),
      zend_declare_class_constant_string Request_ce ''SCHEME_HTTP'' ''http'',
      zend_declare_class_constant_string Request_ce ''SCHEME_HTTPS'' ''https'']"

definition startup_request_simple :: "bool \<Rightarrow> startup" where
  "startup_request_simple ns = in_order
     [zend_register_internal_class_ex Request_simple_ce (class_names ns ''Yaf_Request_Simple'' [''Request'', ''Simple'']) (Some Request_ce),
      set_flag AccFinal Request_simple_ce]"

definition startup_request :: "bool \<Rightarrow> startup" where
  "startup_request ns = in_order
     [zend_register_internal_class_ex Request_ce (class_names ns ''Yaf_Request_Abstract'' [''Request_Abstract'']) None,
      set_flag AccExplicitAbstract Request_ce,
      declare_nulls Request_ce AccPublic [''module'', ''controller'', ''action'', ''method''],
      declare_nulls Request_ce AccProtected [''params'', ''language'', ''_exception''],
      zend_declare_property Request_ce AccProtected ''_base_uri'' (ZString []),
      zend_declare_property Request_ce AccProtected ''uri'' (ZString []),
      zend_declare_property Request_ce AccProtected ''dispatched'' ZFalse,
      zend_declare_property Request_ce AccProtected ''routed'' ZFalse,
      startup_request_http ns,
      startup_request_simple ns]"

definition startup_response_http :: "bool \<Rightarrow> startup" where
  "startup_response_http ns = in_order
     [zend_register_internal_class_ex Response_http_ce (class_names ns ''Yaf_Response_Http'' [''Response'', ''Http'']) (Some Response_ce),
      zend_declare_property Response_http_ce AccProtected ''_sendheader'' ZTrue,
      zend_declare_property Response_http_ce AccProtected ''_response_code'' (ZLong 0)]"

definition startup_response_cli :: "bool \<Rightarrow> startup" where
  "startup_response_cli ns = in_order
     [zend_register_internal_class_ex Response_cli_ce (class_names ns ''Yaf_Response_Cli'' [''Response'', ''Cli'']) (Some Response_ce)]"

definition startup_response :: "bool \<Rightarrow> startup" where
  "startup_response ns = in_order
     [zend_register_internal_class_ex Response_ce (class_names ns ''Yaf_Response_Abstract'' [''Response_Abstract'']) None,
      set_flag AccExplicitAbstract Response_ce,
      declare_nulls Response_ce AccProtected [''_header'', ''_body''],
      zend_declare_property Response_ce AccProtected ''_sendheader'' ZFalse,
      zend_declare_class_constant_string Response_ce ''DEFAULT_BODY'' ''content'',
      startup_response_http ns,
      startup_response_cli ns]"

definition startup_controller :: "bool \<Rightarrow> startup" where
  "startup_controller ns = in_order
     [zend_register_internal_class_ex Controller_ce (class_names ns ''Yaf_Controller_Abstract'' [''Controller_Abstract'']) None,
      set_flag AccExplicitAbstract Controller_ce,
      declare_nulls Controller_ce AccPublic [''actions''],
      declare_nulls Controller_ce AccProtected [''_module'', ''_name'', ''_request'', ''_response'', ''_invoke_args'', ''_view'']]"

definition startup_action :: "bool \<Rightarrow> startup" where
  "startup_action ns = in_order
     [zend_register_internal_class_ex Action_ce (class_names ns ''Yaf_Action_Abstract'' [''Action_Abstract'']) (Some Controller_ce),
      set_flag AccImplicitAbstract Action_ce,
      declare_nulls Action_ce AccProtected [''_controller'']]"

definition startup_config_ini :: "bool \<Rightarrow> startup" where
  "startup_config_ini ns = in_order
     [zend_register_internal_class_ex Config_ini_ce (class_names ns ''Yaf_Config_Ini'' [''Config'', ''Ini'']) (Some Config_ce),
      implements_all Config_ini_ce array_interfaces,
      set_flag AccFinal Config_ini_ce]"

definition startup_config_simple :: "bool \<Rightarrow> startup" where
  "startup_config_simple ns = in_order
     [zend_register_internal_class_ex Config_simple_ce (class_names ns ''Yaf_Config_Simple'' [''Config'', ''Simple'']) (Some Config_ce),
      implements_all Config_simple_ce array_interfaces,
      zend_declare_property Config_simple_ce AccProtected ''_readonly'' ZFalse,
      set_flag AccFinal Config_simple_ce]"

definition startup_config :: "bool \<Rightarrow> startup" where
  "startup_config ns = in_order
     [zend_register_internal_class_ex Config_ce (class_names ns ''Yaf_Config_Abstract'' [''Config_Abstract'']) None,
      set_flag AccExplicitAbstract Config_ce,
      declare_nulls Config_ce AccProtected [''_config''],
      zend_declare_property Config_ce AccProtected ''_readonly'' ZTrue,
      startup_config_ini ns,
      startup_config_simple ns]"

definition startup_view_interface :: "bool \<Rightarrow> startup" where
  "startup_view_interface ns = in_order
     [zend_register_internal_interface View_interface_ce (class_names ns ''Yaf_View_Interface'' [''View_Interface''])]"

definition startup_view_simple :: "bool \<Rightarrow> startup" where
  "startup_view_simple ns = in_order
     [zend_register_internal_class_ex View_simple_ce (class_names ns ''Yaf_View_Simple'' [''View'', ''Simple'']) None,
      declare_nulls View_simple_ce AccProtected [''_tpl_vars'', ''_tpl_dir'', ''_options''],
      zend_class_implements View_simple_ce View_interface_ce]"

definition startup_view :: "bool \<Rightarrow> startup" where
  "startup_view ns = in_order
     [startup_view_interface ns,
      startup_view_simple ns]"

definition startup_route :: "bool \<Rightarrow> startup" where
  "startup_route ns = in_order
     [zend_register_internal_interface Route_ce (class_names ns ''Yaf_Route_Interface'' [''Route_Interface''])]"

definition startup_route_static :: "bool \<Rightarrow> startup" where
  \<comment> \<open>its name in the namespace is not like that of the other routes\<close>
  "startup_route_static ns = in_order
     [zend_register_internal_class_ex Route_static_ce (class_names ns ''Yaf_Route_Static'' [''Route_Static'']) None,
      zend_class_implements Route_static_ce Route_ce]"

definition startup_route_simple :: "bool \<Rightarrow> startup" where
  "startup_route_simple ns = in_order
     [zend_register_internal_class_ex Route_simple_ce (class_names ns ''Yaf_Route_Simple'' [''Route'', ''Simple'']) None,
      zend_class_implements Route_simple_ce Route_ce,
      set_flag AccFinal Route_simple_ce,
      declare_nulls Route_simple_ce AccProtected [''controller'', ''module'', ''action'']]"

definition startup_route_supervar :: "bool \<Rightarrow> startup" where
  "startup_route_supervar ns = in_order
     [zend_register_internal_class_ex Route_supervar_ce (class_names ns ''Yaf_Route_Supervar'' [''Route'', ''Supervar'']) None,
      zend_class_implements Route_supervar_ce Route_ce,
      set_flag AccFinal Route_supervar_ce,
      declare_nulls Route_supervar_ce AccProtected [''_var_name'']]"

definition startup_route_rewrite :: "bool \<Rightarrow> startup" where
  "startup_route_rewrite ns = in_order
     [zend_register_internal_class_ex Route_rewrite_ce (class_names ns ''Yaf_Route_Rewrite'' [''Route'', ''Rewrite'']) None,
      zend_class_implements Route_rewrite_ce Route_ce,
      set_flag AccFinal Route_rewrite_ce,
      declare_nulls Route_rewrite_ce AccProtected [''_route'', ''_default'', ''_verify'']]"

definition startup_route_regex :: "bool \<Rightarrow> startup" where
  "startup_route_regex ns = in_order
     [zend_register_internal_class_ex Route_regex_ce (class_names ns ''Yaf_Route_Regex'' [''Route'', ''Regex'']) None,
      zend_class_implements Route_regex_ce Route_ce,
      set_flag AccFinal Route_regex_ce,
      declare_nulls Route_regex_ce AccProtected [''_route'', ''_default'', ''_maps'', ''_verify'', ''_reverse'']]"

definition startup_route_map :: "bool \<Rightarrow> startup" where
  "startup_route_map ns = in_order
     [zend_register_internal_class_ex Route_map_ce (class_names ns ''Yaf_Route_Map'' [''Route'', ''Map'']) None,
      zend_class_implements Route_map_ce Route_ce,
      set_flag AccFinal Route_map_ce,
      zend_declare_property Route_map_ce AccProtected ''_ctl_router'' ZFalse,
      declare_nulls Route_map_ce AccProtected [''_delimiter'']]"

definition startup_router :: "bool \<Rightarrow> startup" where
  "startup_router ns = in_order
     [zend_register_internal_class_ex Router_ce (class_names ns ''Yaf_Router'' [''Router'']) None,
      set_flag AccFinal Router_ce,
      declare_nulls Router_ce AccProtected [''_routes'', ''_current''],
      startup_route ns,
      startup_route_static ns,
      startup_route_simple ns,
      startup_route_supervar ns,
      startup_route_rewrite ns,
      startup_route_regex ns,
      startup_route_map ns]"

definition startup_plugin :: "bool \<Rightarrow> startup" where
  "startup_plugin ns = in_order
     [zend_register_internal_class_ex Plugin_ce (class_names ns ''Yaf_Plugin_Abstract'' [''Plugin_Abstract'']) None,
      set_flag AccExplicitAbstract Plugin_ce]"

definition startup_registry :: "bool \<Rightarrow> startup" where
  "startup_registry ns = in_order
     [zend_register_internal_class_ex Registry_ce (class_names ns ''Yaf_Registry'' [''Registry'']) None,
      set_flag AccFinal Registry_ce,
      declare_static Registry_ce ''_instance'',
      declare_nulls Registry_ce AccProtected [''_entries'']]"

definition startup_session :: "bool \<Rightarrow> startup" where
  "startup_session ns = in_order
     [zend_register_internal_class_ex Session_ce (class_names ns ''Yaf_Session'' [''Session'']) None,
      set_flag AccFinal Session_ce,
      implements_all Session_ce array_interfaces,
      declare_static Session_ce ''_instance'',
      declare_nulls Session_ce AccProtected [''_session''],
      zend_declare_property Session_ce AccProtected ''_started'' ZFalse]"

definition exception_slot :: "yaf_err \<Rightarrow> ce_var" where
  "exception_slot e = Buildin_exception (yaf_exception_offset (err_code e))"

definition startup_exception :: "bool \<Rightarrow> startup" where
  "startup_exception ns = in_order
     [zend_register_internal_class_ex Exception_ce (class_names ns ''Yaf_Exception'' [''Exception'']) (Some Zend_ce_exception),
      declare_nulls Exception_ce AccProtected [''message''],
      zend_declare_property Exception_ce AccProtected ''code'' (ZLong 0),
      declare_nulls Exception_ce AccProtected [''previous''],
      zend_register_internal_class_ex (exception_slot ERR_STARTUP_FAILED)
        (class_names ns ''Yaf_Exception_StartupError'' [''Exception'', ''StartupError'']) (Some Exception_ce),
      zend_register_internal_class_ex (exception_slot ERR_ROUTE_FAILED)
        (class_names ns ''Yaf_Exception_RouterFailed'' [''Exception'', ''RouterFailed'']) (Some Exception_ce),
      zend_register_internal_class_ex (exception_slot ERR_DISPATCH_FAILED)
        (class_names ns ''Yaf_Exception_DispatchFailed'' [''Exception'', ''DispatchFailed'']) (Some Exception_ce),
      zend_register_internal_class_ex (exception_slot ERR_AUTOLOAD_FAILED)
        (class_names ns ''Yaf_Exception_LoadFailed'' [''Exception'', ''LoadFailed'']) (Some Exception_ce),
      zend_register_internal_class_ex (exception_slot ERR_NOTFOUND_MODULE)
        (class_names ns ''Yaf_Exception_LoadFailed_Module'' [''Exception'', ''LoadFailed'', ''Module'']) (Some (exception_slot ERR_AUTOLOAD_FAILED)),
      zend_register_internal_class_ex (exception_slot ERR_NOTFOUND_CONTROLLER)
        (class_names ns ''Yaf_Exception_LoadFailed_Controller'' [''Exception'', ''LoadFailed'', ''Controller'']) (Some (exception_slot ERR_AUTOLOAD_FAILED)),
      zend_register_internal_class_ex (exception_slot ERR_NOTFOUND_ACTION)
        (class_names ns ''Yaf_Exception_LoadFailed_Action'' [''Exception'', ''LoadFailed'', ''Action'']) (Some (exception_slot ERR_AUTOLOAD_FAILED)),
      zend_register_internal_class_ex (exception_slot ERR_NOTFOUND_VIEW)
        (class_names ns ''Yaf_Exception_LoadFailed_View'' [''Exception'', ''LoadFailed'', ''View'']) (Some (exception_slot ERR_AUTOLOAD_FAILED)),
      zend_register_internal_class_ex (exception_slot ERR_TYPE_ERROR)
        (class_names ns ''Yaf_Exception_TypeError'' [''Exception'', ''TypeError'']) (Some Exception_ce)]"

definition yaf_startup :: "bool \<Rightarrow> string \<Rightarrow> startup" where
  "yaf_startup ns environ = in_order
     [startup_application ns environ,
      startup_bootstrap ns,
      startup_dispatcher ns,
      startup_loader ns,
      startup_request ns,
      startup_response ns,
      startup_controller ns,
      startup_action ns,
      startup_config ns,
      startup_view ns,
      startup_router ns,
      startup_plugin ns,
      startup_registry ns,
      startup_session ns,
      startup_exception ns]"

section \<open>The constants\<close>

definition version :: string where
  "version = ''3.0.5-dev''"

definition error_constants :: "(yaf_err \<times> string list) list" where
  "error_constants =
     [(ERR_STARTUP_FAILED, [''STARTUP_FAILED'']), (ERR_ROUTE_FAILED, [''ROUTE_FAILED'']),
      (ERR_DISPATCH_FAILED, [''DISPATCH_FAILED'']), (ERR_AUTOLOAD_FAILED, [''AUTOLOAD_FAILED'']),
      (ERR_NOTFOUND_MODULE, [''NOTFOUND'', ''MODULE'']), (ERR_NOTFOUND_CONTROLLER, [''NOTFOUND'', ''CONTROLLER'']),
      (ERR_NOTFOUND_ACTION, [''NOTFOUND'', ''ACTION'']), (ERR_NOTFOUND_VIEW, [''NOTFOUND'', ''VIEW'']),
      (ERR_CALL_FAILED, [''CALL_FAILED'']), (ERR_TYPE_ERROR, [''TYPE_ERROR''])]"

definition constant_name :: "bool \<Rightarrow> string list \<Rightarrow> string" where
  "constant_name ns parts = join_parts (if ns then [CHR 0x5C] else ''_'') (''YAF'' # parts)"

definition constant_key :: "string \<Rightarrow> string" where
  \<comment> \<open>\<open>zend_register_constant\<close> lowers the namespace of a name, up to the last backslash\<close>
  "constant_key name =
     (let tail = rev (takeWhile (\<lambda>c. c \<noteq> CHR 0x5C) (rev name))
      in zend_str_tolower (take (length name - length tail) name) @ tail)"

definition minit_constants :: "bool \<Rightarrow> string \<Rightarrow> (string \<times> zval) list" where
  \<comment> \<open>the key and the value of each constant, in the order they are registered\<close>
  "minit_constants ns environ =
     map (map_prod (\<lambda>parts. constant_key (constant_name ns parts)) id)
       ([([''VERSION''], ZString version), ([''ENVIRON''], ZString (cstr environ))] @ map (\<lambda>(e, parts). (''ERR'' # parts, ZLong (err_code e))) error_constants)"

section \<open>What startup leaves\<close>

subsection \<open>Order\<close>

definition step_ok :: "ce_var set \<Rightarrow> ce_var set \<Rightarrow> startup \<Rightarrow> bool" where
  \<comment> \<open>with the variables of the first set written, the step succeeds, and writes those of the
      second set and no others\<close>
  "step_ok R W f \<longleftrightarrow> (\<forall>st. R \<subseteq> dom st \<longrightarrow>
     (\<exists>st'. f st = Inr st' \<and> W \<subseteq> dom st' \<and> (\<forall>v. v \<notin> W \<longrightarrow> st' v = st v)))"

lemma step_ok_register: "step_ok {} {v} (zend_register_internal_class_ex v n None)"
  "step_ok {p} {v} (zend_register_internal_class_ex v n (Some p))"
  by (simp_all add: step_ok_def zend_register_internal_class_ex_def)

lemma step_ok_on_class: "step_ok {v} {v} (on_class v f)"
  by (auto simp: step_ok_def on_class_def split: option.split)

lemma step_ok_implements: "step_ok {v, i} {v} (zend_class_implements v i)"
  by (auto simp: step_ok_def zend_class_implements_def on_class_def split: option.split)

lemma step_ok_Nil: "step_ok {} {} (in_order [])"
  by (simp add: step_ok_def)

lemma step_ok_Cons:
  assumes "step_ok R1 W1 f" "step_ok R2 W2 (in_order fs)"
  shows "step_ok (R1 \<union> (R2 - W1)) (W1 \<union> W2) (in_order (f # fs))"
  unfolding step_ok_def
proof (intro allI impI)
  fix st :: ce_store
  assume r: "R1 \<union> (R2 - W1) \<subseteq> dom st"
  with assms(1) obtain st1 where 1: "f st = Inr st1" "W1 \<subseteq> dom st1" "\<forall>v. v \<notin> W1 \<longrightarrow> st1 v = st v"
    unfolding step_ok_def by blast
  have "R2 \<subseteq> dom st1"
  proof
    fix v assume "v \<in> R2"
    with r 1 show "v \<in> dom st1" by (cases "v \<in> W1") (auto simp: domIff)
  qed
  with assms(2) obtain st2 where 2: "in_order fs st1 = Inr st2" "W2 \<subseteq> dom st2" "\<forall>v. v \<notin> W2 \<longrightarrow> st2 v = st1 v"
    unfolding step_ok_def by blast
  have "W1 \<subseteq> dom st2"
  proof
    fix v assume "v \<in> W1"
    with 1 2 show "v \<in> dom st2" by (cases "v \<in> W2") (auto simp: domIff)
  qed
  with 1 2 show "\<exists>st'. in_order (f # fs) st = Inr st' \<and> W1 \<union> W2 \<subseteq> dom st' \<and> (\<forall>v. v \<notin> W1 \<union> W2 \<longrightarrow> st' v = st v)"
    by simp
qed

lemma step_ok_is: "step_ok R W f \<Longrightarrow> R = R' \<Longrightarrow> W = W' \<Longrightarrow> step_ok R' W' f"
  by simp

lemma step_ok_member: "step_ok {v} {v} (zend_declare_property v a n x)" "step_ok {v} {v} (declare_static v n)"
  "step_ok {v} {v} (set_flag fl v)" "step_ok {v} {v} (zend_declare_class_constant_string v n s)"
  by (simp_all add: step_ok_on_class zend_declare_property_def declare_static_def set_flag_def
      zend_declare_class_constant_string_def)

lemma step_ok_nulls: "step_ok {v} {v} (declare_nulls v a (n # ns))"
  unfolding declare_nulls_def
proof (induction ns arbitrary: n)
  case Nil
  from step_ok_Cons [OF step_ok_member(1) step_ok_Nil, of v a n ZNull] show ?case by (simp del: in_order.simps)
next
  case (Cons m ns)
  from step_ok_Cons [OF step_ok_member(1) Cons.IH, of v a n ZNull] show ?case by (simp del: in_order.simps)
qed

lemma step_ok_array: "step_ok {v, Zend_ce_iterator, Zend_ce_arrayaccess, Spl_ce_Countable} {v} (implements_all v array_interfaces)"
  unfolding implements_all_def array_interfaces_def list.map
  by (rule step_ok_is, (rule step_ok_Cons step_ok_implements step_ok_Nil)+) auto

lemma step_ok_interface: "step_ok {} {v} (zend_register_internal_interface v n)"
  unfolding zend_register_internal_interface_def
  by (rule step_ok_is, (rule step_ok_Cons step_ok_register step_ok_member step_ok_Nil)+) auto

lemmas step_ok_rules = step_ok_Cons step_ok_register step_ok_implements step_ok_member step_ok_nulls
  step_ok_array step_ok_interface step_ok_Nil

lemma startup_leaf_ok:
  "step_ok {} {Application_ce} (startup_application ns environ)"
  "step_ok {} {Bootstrap_ce} (startup_bootstrap ns)"
  "step_ok {} {Dispatcher_ce} (startup_dispatcher ns)"
  "step_ok {} {Loader_ce} (startup_loader ns)"
  "step_ok {Request_ce} {Request_ce, Request_http_ce} (startup_request_http ns)"
  "step_ok {Request_ce} {Request_simple_ce} (startup_request_simple ns)"
  "step_ok {Response_ce} {Response_http_ce} (startup_response_http ns)"
  "step_ok {Response_ce} {Response_cli_ce} (startup_response_cli ns)"
  "step_ok {} {Controller_ce} (startup_controller ns)"
  "step_ok {Controller_ce} {Action_ce} (startup_action ns)"
  unfolding startup_application_def startup_bootstrap_def startup_dispatcher_def startup_loader_def
    startup_request_http_def startup_request_simple_def startup_response_http_def startup_response_cli_def
    startup_controller_def startup_action_def
  by (rule step_ok_is, (rule step_ok_rules)+, auto)+

lemma startup_more_ok:
  "step_ok {Config_ce, Zend_ce_iterator, Zend_ce_arrayaccess, Spl_ce_Countable} {Config_ini_ce} (startup_config_ini ns)"
  "step_ok {Config_ce, Zend_ce_iterator, Zend_ce_arrayaccess, Spl_ce_Countable} {Config_simple_ce} (startup_config_simple ns)"
  "step_ok {} {View_interface_ce} (startup_view_interface ns)"
  "step_ok {View_interface_ce} {View_simple_ce} (startup_view_simple ns)"
  "step_ok {} {Route_ce} (startup_route ns)"
  "step_ok {Route_ce} {Route_static_ce} (startup_route_static ns)"
  "step_ok {Route_ce} {Route_simple_ce} (startup_route_simple ns)"
  "step_ok {Route_ce} {Route_supervar_ce} (startup_route_supervar ns)"
  "step_ok {Route_ce} {Route_rewrite_ce} (startup_route_rewrite ns)"
  "step_ok {Route_ce} {Route_regex_ce} (startup_route_regex ns)"
  "step_ok {Route_ce} {Route_map_ce} (startup_route_map ns)"
  "step_ok {} {Plugin_ce} (startup_plugin ns)"
  "step_ok {} {Registry_ce} (startup_registry ns)"
  "step_ok {Zend_ce_iterator, Zend_ce_arrayaccess, Spl_ce_Countable} {Session_ce} (startup_session ns)"
  unfolding startup_config_ini_def startup_config_simple_def startup_view_interface_def startup_view_simple_def
    startup_route_def startup_route_static_def startup_route_simple_def startup_route_supervar_def
    startup_route_rewrite_def startup_route_regex_def startup_route_map_def startup_plugin_def
    startup_registry_def startup_session_def
  by (rule step_ok_is, (rule step_ok_rules)+, auto)+

definition exception_vars :: "ce_var set" where
  "exception_vars = insert Exception_ce (exception_slot ` {ERR_STARTUP_FAILED, ERR_ROUTE_FAILED, ERR_DISPATCH_FAILED,
     ERR_AUTOLOAD_FAILED, ERR_NOTFOUND_MODULE, ERR_NOTFOUND_CONTROLLER, ERR_NOTFOUND_ACTION, ERR_NOTFOUND_VIEW, ERR_TYPE_ERROR})"

lemma startup_group_ok:
  "step_ok {} {Request_ce, Request_http_ce, Request_simple_ce} (startup_request ns)"
  "step_ok {} {Response_ce, Response_http_ce, Response_cli_ce} (startup_response ns)"
  "step_ok {Zend_ce_iterator, Zend_ce_arrayaccess, Spl_ce_Countable} {Config_ce, Config_ini_ce, Config_simple_ce} (startup_config ns)"
  "step_ok {} {View_interface_ce, View_simple_ce} (startup_view ns)"
  "step_ok {} {Router_ce, Route_ce, Route_static_ce, Route_simple_ce, Route_supervar_ce, Route_rewrite_ce, Route_regex_ce,
     Route_map_ce} (startup_router ns)"
  "step_ok {Zend_ce_exception} exception_vars (startup_exception ns)"
  unfolding startup_request_def startup_response_def startup_config_def startup_view_def startup_router_def
    startup_exception_def exception_vars_def
  by (rule step_ok_is, (rule startup_leaf_ok startup_more_ok step_ok_rules)+, auto)+

definition yaf_vars :: "ce_var set" where
  \<comment> \<open>the variables of the extension\<close>
  "yaf_vars = exception_vars \<union>
     {Application_ce, Bootstrap_ce, Dispatcher_ce, Loader_ce, Request_ce, Request_http_ce, Request_simple_ce,
      Response_ce, Response_http_ce, Response_cli_ce, Controller_ce, Action_ce, Config_ce, Config_ini_ce,
      Config_simple_ce, View_interface_ce, View_simple_ce, Router_ce, Route_ce, Route_static_ce, Route_simple_ce,
      Route_supervar_ce, Route_rewrite_ce, Route_regex_ce, Route_map_ce, Plugin_ce, Registry_ce, Session_ce}"

text \<open>
  Startup succeeds once the engine has its four classes, writes every variable of the extension
  and no other, and no step reads a variable of the extension before it was written.
\<close>

lemma startup_order:
  "step_ok {Zend_ce_exception, Zend_ce_iterator, Zend_ce_arrayaccess, Spl_ce_Countable} yaf_vars (yaf_startup ns environ)"
  unfolding yaf_startup_def yaf_vars_def
  by (rule step_ok_is, (rule startup_leaf_ok startup_more_ok startup_group_ok step_ok_rules)+) auto

subsection \<open>The classes\<close>

lemmas register_simps = zend_register_internal_class_ex_def new_entry_def on_class_def set_flag_def
  zend_class_implements_def zend_declare_property_def declare_nulls_def declare_static_def declare_member_def
  zend_declare_class_constant_string_def implements_all_def array_interfaces_def zend_register_internal_interface_def

definition defaults :: "class_entry \<Rightarrow> (string \<times> zval) list" where
  "defaults ce = map (\<lambda>m. (cm_name m, cm_default m)) (ce_members ce)"

definition bool_zval :: "bool \<Rightarrow> zval" where
  "bool_zval b = (if b then ZTrue else ZFalse)"

definition request_defaults :: "yaf_request \<Rightarrow> (string \<times> zval) list" where
  "request_defaults rq =
     [(''module'', rq_module rq), (''controller'', rq_controller rq), (''action'', rq_action rq), (''method'', rq_method rq),
      (''params'', ZNull), (''language'', rq_lang rq), (''_exception'', rq_exception rq), (''_base_uri'', rq_base_uri rq),
      (''uri'', ZString (rq_uri rq)), (''dispatched'', bool_zval (rq_dispatched rq)), (''routed'', bool_zval (rq_routed rq))]"

lemma request_classes:
  assumes "startup_request ns st = Inr st'"
  shows "\<exists>a h s. st' Request_ce = Some a \<and> st' Request_http_ce = Some h \<and> st' Request_simple_ce = Some s \<and>
    ce_ancestors a = [] \<and> ce_ancestors h = [ce_name a] \<and> ce_ancestors s = [ce_name a] \<and>
    ce_constants a = [(''SCHEME_HTTP'', ''http''), (''SCHEME_HTTPS'', ''https'')] \<and>
    ce_constants h = [] \<and> ce_constants s = ce_constants a \<and>
    defaults a = request_defaults yaf_request_init \<and> ce_members h = ce_members a \<and> ce_members s = ce_members a"
  using assms by (simp add: startup_request_def startup_request_http_def startup_request_simple_def register_simps
      defaults_def request_defaults_def yaf_request_init_def bool_zval_def)
    (auto simp: fun_upd_def)

lemma dispatcher_class:
  assumes "startup_dispatcher ns st = Inr st'"
  shows "\<exists>d. st' Dispatcher_ce = Some d \<and> ce_ancestors d = [] \<and> AccFinal \<in> set (ce_flags d) \<and>
    (let dp = fst (yaf_dispatcher_new rt); df = map_of (defaults d)
     in df ''_auto_render'' = Some (bool_zval (dp_auto_render dp)) \<and>
        df ''_return_response'' = Some (bool_zval (dp_return_response dp)) \<and>
        df ''_instantly_flush'' = Some (bool_zval (dp_instantly_flush dp)) \<and> df ''_view'' = Some ZNull)"
  using assms by (simp add: startup_dispatcher_def register_simps)
    (auto simp: fun_upd_def defaults_def bool_zval_def yaf_dispatcher_new_def Let_def split: prod.split)

lemma response_classes:
  assumes "startup_response ns st = Inr st'"
  shows "\<exists>a h c. st' Response_ce = Some a \<and> st' Response_http_ce = Some h \<and> st' Response_cli_ce = Some c \<and>
    ce_ancestors h = [ce_name a] \<and> ce_ancestors c = [ce_name a] \<and>
    ce_constants a = [(''DEFAULT_BODY'', default_body)] \<and> ce_constants h = ce_constants a \<and> ce_constants c = ce_constants a \<and>
    map_of (defaults h) ''_sendheader'' = Some ZTrue \<and> map_of (defaults c) ''_sendheader'' = Some ZFalse \<and>
    map_of (defaults h) ''_response_code'' = Some (ZLong (rp_response_code (yaf_response_instance sapi))) \<and>
    map_of (defaults c) ''_response_code'' = None"
  using assms by (simp add: startup_response_def startup_response_http_def startup_response_cli_def register_simps)
    (auto simp: fun_upd_def defaults_def default_body_def yaf_response_instance_def)

lemma controller_classes:
  assumes "in_order [startup_controller ns, startup_action ns] st = Inr st'"
  shows "\<exists>c a. st' Controller_ce = Some c \<and> st' Action_ce = Some a \<and> ce_ancestors c = [] \<and> ce_ancestors a = [ce_name c] \<and>
    defaults a = defaults c @ [(''_controller'', ZNull)]"
  using assms by (simp add: startup_controller_def startup_action_def register_simps)
    (auto simp: fun_upd_def defaults_def)

text \<open>Without the controller before it, the class of the actions would be no controller.\<close>

lemma action_before_controller:
  assumes "st Controller_ce = None" "startup_action ns st = Inr st'"
  shows "\<exists>a. st' Action_ce = Some a \<and> ce_ancestors a = []"
  using assms by (auto simp: startup_action_def register_simps)

lemma config_classes:
  assumes "startup_config ns st = Inr st'"
  shows "\<exists>a i s. st' Config_ce = Some a \<and> st' Config_ini_ce = Some i \<and> st' Config_simple_ce = Some s \<and>
    ce_ancestors i = [ce_name a] \<and> ce_ancestors s = [ce_name a] \<and> ce_interfaces i = ce_interfaces s \<and>
    map_of (defaults i) ''_readonly'' = Some ZTrue \<and>
    (\<forall>h rt cf rt'. yaf_config_simple_instance (ZArray h) None rt = (Some cf, rt') \<longrightarrow>
       map_of (defaults s) ''_readonly'' = Some (bool_zval (cf_readonly cf)))"
  using assms by (simp add: startup_config_def startup_config_ini_def startup_config_simple_def register_simps split: option.splits)
    (auto simp: fun_upd_def defaults_def yaf_config_simple_instance_def bool_zval_def)

text \<open>
  The names a class is known under: its own and those of its ancestors.  Registering extends
  them from the parent, and no other step changes them.
\<close>

definition lineage :: "ce_store \<Rightarrow> ce_var \<Rightarrow> string list option" where
  "lineage st v = map_option (\<lambda>ce. ce_name ce # ce_ancestors ce) (st v)"

lemma lineage_register:
  "zend_register_internal_class_ex v n p st = Inr st' \<Longrightarrow>
     lineage st' = (lineage st)(v \<mapsto> n # (case Option.bind p (lineage st) of None \<Rightarrow> [] | Some l \<Rightarrow> l))"
  by (cases p) (auto simp: zend_register_internal_class_ex_def new_entry_def lineage_def intro!: ext split: option.split)

lemma lineage_property: "zend_declare_property v a n x st = Inr st' \<Longrightarrow> lineage st' = lineage st"
  by (auto simp: zend_declare_property_def on_class_def lineage_def intro!: ext split: option.splits)

lemma in_order_Cons: "in_order (f # fs) st = Inr st' \<longleftrightarrow> (\<exists>s. f st = Inr s \<and> in_order fs s = Inr st')"
  by (simp split: sum.split)

lemma lineage_nulls: "declare_nulls v a ns st = Inr st' \<Longrightarrow> lineage st' = lineage st"
  unfolding declare_nulls_def
proof (induction ns arbitrary: st)
  case (Cons n ns)
  then show ?case by (auto simp: in_order_Cons simp del: in_order.simps(2) dest!: lineage_property)
qed simp

text \<open>
  The table the errors are thrown from holds the classes startup registers.
\<close>

lemma exception_classes:
  assumes "startup_exception False st = Inr st'" "lineage st Zend_ce_exception = Some [exception_default_ce]"
    "lineage st (exception_slot ERR_CALL_FAILED) = None" "e \<noteq> E_ERROR"
  shows "lineage st' Exception_ce = Some yaf_exception_ce"
    and "yaf_buildin_exceptions ! yaf_exception_offset (err_code e) = lineage st' (exception_slot e)"
proof -
  have off: "yaf_exception_offset 512 = 0" "yaf_exception_offset 513 = 1" "yaf_exception_offset 514 = 2"
    "yaf_exception_offset 515 = 3" "yaf_exception_offset 516 = 4" "yaf_exception_offset 517 = 5"
    "yaf_exception_offset 518 = 6" "yaf_exception_offset 519 = 7" "yaf_exception_offset 520 = 8"
    "yaf_exception_offset 521 = 9"
    by code_simp+
  have l: "lineage st' Exception_ce = Some yaf_exception_ce \<and>
      map (\<lambda>i. lineage st' (Buildin_exception i)) [0, 1, 2, 3, 4, 5, 6, 7, 8, 9] = yaf_buildin_exceptions"
    by (insert assms(1-3), simp only: startup_exception_def in_order_Cons ex_simps(1) [symmetric], elim exE conjE,
        (drule lineage_register lineage_property lineage_nulls)+,
        simp add: exception_slot_def off class_names_def yaf_buildin_exceptions_def yaf_exception_ce_def load_failed_ce_def)
  then show "lineage st' Exception_ce = Some yaf_exception_ce" ..
  show "yaf_buildin_exceptions ! yaf_exception_offset (err_code e) = lineage st' (exception_slot e)"
    using l assms(4) by (cases e) (simp_all add: off exception_slot_def flip: conjunct2 [OF l])
qed

subsection \<open>The whole startup\<close>

text \<open>What a group of steps leaves in its variables is there at the end, if no later step writes them.\<close>

lemma step_ok_split:
  assumes "step_ok R1 W1 (in_order fs)" "step_ok R2 W2 f" "step_ok R3 W3 (in_order gs)"
    and "R1 \<union> (R2 - W1) \<union> (R3 - W1 - W2) \<subseteq> dom st"
  shows "\<exists>s s1 s'. in_order (fs @ f # gs) st = Inr s' \<and> f s = Inr s1 \<and> (\<forall>v. v \<notin> W3 \<longrightarrow> s' v = s1 v) \<and>
    (\<forall>v. v \<notin> W1 \<longrightarrow> s v = st v)"
proof -
  from assms(1,4) obtain s where s: "in_order fs st = Inr s" "W1 \<subseteq> dom s" "\<forall>v. v \<notin> W1 \<longrightarrow> s v = st v"
    unfolding step_ok_def by blast
  have "R2 \<subseteq> dom s"
  proof
    fix v assume "v \<in> R2"
    with assms(4) s show "v \<in> dom s" by (cases "v \<in> W1") (auto simp: domIff)
  qed
  with assms(2) obtain s1 where s1: "f s = Inr s1" "W2 \<subseteq> dom s1" "\<forall>v. v \<notin> W2 \<longrightarrow> s1 v = s v"
    unfolding step_ok_def by blast
  have "R3 \<subseteq> dom s1"
  proof
    fix v assume "v \<in> R3"
    with assms(4) s s1 show "v \<in> dom s1" by (cases "v \<in> W2"; cases "v \<in> W1") (auto simp: domIff)
  qed
  with assms(3) obtain s' where s': "in_order gs s1 = Inr s'" "\<forall>v. v \<notin> W3 \<longrightarrow> s' v = s1 v"
    unfolding step_ok_def by blast
  have "in_order (fs @ hs) st = in_order hs s" for hs
    using s(1) by (induction fs arbitrary: st) (auto split: sum.splits)
  with s s1 s' show ?thesis by (intro exI [of _ s] exI [of _ s1] exI [of _ s']) simp
qed

lemma startup_rest_ok:
  "step_ok {} {Application_ce, Bootstrap_ce, Dispatcher_ce, Loader_ce}
     (in_order [startup_application ns environ, startup_bootstrap ns, startup_dispatcher ns, startup_loader ns])"
  "step_ok {Zend_ce_exception, Zend_ce_iterator, Zend_ce_arrayaccess, Spl_ce_Countable}
     (yaf_vars - {Application_ce, Bootstrap_ce, Dispatcher_ce, Loader_ce, Request_ce, Request_http_ce, Request_simple_ce})
     (in_order [startup_response ns, startup_controller ns, startup_action ns, startup_config ns, startup_view ns,
        startup_router ns, startup_plugin ns, startup_registry ns, startup_session ns, startup_exception ns])"
  unfolding yaf_vars_def
  by (rule step_ok_is, (rule startup_leaf_ok startup_more_ok startup_group_ok step_ok_rules)+,
      auto simp: exception_vars_def exception_slot_def)+

text \<open>
  After startup the class of the HTTP request has none of the constants of the scheme, which its
  parent and its sibling have: they are declared in the parent once the class was registered.
\<close>

theorem startup_scheme_constants:
  assumes "{Zend_ce_exception, Zend_ce_iterator, Zend_ce_arrayaccess, Spl_ce_Countable} \<subseteq> dom st"
  shows "\<exists>st' a h s. yaf_startup ns environ st = Inr st' \<and>
    st' Request_ce = Some a \<and> st' Request_http_ce = Some h \<and> st' Request_simple_ce = Some s \<and>
    ce_ancestors h = [ce_name a] \<and> ce_ancestors s = [ce_name a] \<and>
    map_of (ce_constants a) ''SCHEME_HTTP'' = Some ''http'' \<and> ce_constants h = [] \<and> ce_constants s = ce_constants a"
proof -
  obtain s0 s1 s' where s: "yaf_startup ns environ st = Inr s'" "startup_request ns s0 = Inr s1"
    "\<forall>v. v \<notin> yaf_vars - {Application_ce, Bootstrap_ce, Dispatcher_ce, Loader_ce, Request_ce, Request_http_ce, Request_simple_ce}
       \<longrightarrow> s' v = s1 v"
    using step_ok_split [OF startup_rest_ok(1) startup_group_ok(1) startup_rest_ok(2), of st ns environ ns ns] assms
    by (auto simp: yaf_startup_def)
  from request_classes [OF s(2)] s(3) show ?thesis
    by (intro exI [of _ s']) (auto simp: s(1))
qed

section \<open>Facts on the constants\<close>

text \<open>
  No two constants have the same key, and each error has its code.
\<close>

lemma constants_distinct: "distinct (map fst (minit_constants ns environ))"
proof -
  have "distinct (map fst (minit_constants True environ))" "distinct (map fst (minit_constants False environ))"
    by code_simp+
  then show ?thesis by (cases ns) simp_all
qed

lemma constants_errors:
  "(e, parts) \<in> set error_constants \<Longrightarrow>
     map_of (minit_constants ns environ) (constant_key (constant_name ns (''ERR'' # parts))) = Some (ZLong (err_code e))"
  using constants_distinct [of ns environ]
  by (intro map_of_is_SomeI) (force simp: minit_constants_def)+

lemma error_constants_all: "e \<noteq> E_ERROR \<Longrightarrow> e \<in> fst ` set error_constants"
  by (cases e) (simp_all add: error_constants_def)

end
