(* ===== verification/Spec2Isabelle.thy ===== *)
theory Spec2Isabelle
  imports Yaf_Running Yaf_Methods Yaf_Serve Yaf_Config_Share Yaf_Config_Inherit Yaf_Import Yaf_Startup
begin

text \<open>
  A model of yaf, an MVC framework for PHP written as a C extension.

  \<^bold>\<open>The program.\<close>  A request goes through these parts.  The application
  (\<open>yaf_application.c\<close>) reads the configuration (\<open>yaf_config.c\<close>, \<open>configs/\<close>), keeps the names of the
  modules, runs the bootstrap class and then, once, the dispatcher.  The dispatcher
  (\<open>yaf_dispatcher.c\<close>) asks the router (\<open>yaf_router.c\<close>) to turn the URI of the request
  (\<open>yaf_request.c\<close>, \<open>requests/\<close>) into a module, a controller, an action and parameters; the router
  asks its routes (\<open>routes/\<close>), the one added last first.  Then, in a loop bounded by
  \<open>yaf.forward_limit\<close>, the dispatcher has the loader (\<open>yaf_loader.c\<close>) bring the classes, constructs
  the controller (\<open>yaf_controller.c\<close>), calls the action, and has the view
  (\<open>views/yaf_view_simple.c\<close>) render into the response (\<open>yaf_response.c\<close>, \<open>responses/\<close>), which is sent
  behind the loop.  Plugins are called between the steps; exceptions are turned to the \<open>Error\<close>
  controller.  The registry (\<open>yaf_registry.c\<close>) and the session (\<open>yaf_session.c\<close>) keep values for the
  code of the user.

  \<^bold>\<open>Conventions.\<close>  A string is the list of its bytes, which may contain NUL; where the code treats
  it as a C string the model goes through \<open>cstr\<close>.  A value of PHP is a \<open>zval\<close>, a hash table an
  ordered association list, an integer a 64-bit word.  A read out of bounds, a null pointer or a
  wild read is a value \<open>Inl e\<close> of the result; an error the code reports is in the state, where
  \<open>yaf_trigger_error\<close> puts an exception or a PHP error, as \<open>yaf.throw_exception\<close> says.  A function that
  may not return is a \<open>partial_function (option)\<close>, and \<open>None\<close> is that it does not.  What is not under
  \<open>src/\<close> or does not belong to the extension is a parameter: the code of the user (\<open>user_code\<close>: the
  methods of controllers, actions, plugins, views, routes and the class loader), PCRE, files,
  the INI scanner, \<open>strtod\<close>, the parser of URLs and the server.

  \<^bold>\<open>Theories.\<close>
  \<^item> \<open>Yaf_Prelude\<close>: bytes, C strings, the tokenizer, replacing text, the lemmas on them.
  \<^item> \<open>Zend_Values\<close>: values and hash tables of PHP, with the locales \<open>store\<close> and \<open>symtab\<close>: what a
    lookup returns after updates and deletions.
  \<^item> \<open>Yaf_Runtime\<close>: the module globals (\<open>yaf.c\<close>), classes, exceptions and errors
    (\<open>yaf_exception.c\<close>), the module names of the application.
  \<^item> \<open>Yaf_Request\<close>: the request, its constructors, parameters, flags and base URI; \<open>Yaf_Methods\<close>: its
    other methods, and the entry points of the dispatcher, the router and the action.
  \<^item> \<open>Yaf_Route_Base\<close>, \<open>Yaf_Route_Static\<close>, \<open>Yaf_Route_Query\<close> (simple and supervar), \<open>Yaf_Route_Map\<close>,
    \<open>Yaf_Route_Pattern\<close> (rewrite and regex): one route each, with its assembling of URIs; the
    locale \<open>routing\<close> says what every route promises the router.
  \<^item> \<open>Yaf_Router\<close>: the route factory and the router, with the locale \<open>route_table\<close>.
  \<^item> \<open>Yaf_Response\<close>, \<open>Yaf_Loader\<close>, \<open>Yaf_View\<close>, \<open>Yaf_Controller\<close>: the components of these names;
    \<open>Yaf_Import\<close>: running a file, and the methods of the loader.
  \<^item> \<open>Yaf_Dispatcher\<close>: the dispatcher, one definition for each step of the code; \<open>Yaf_Dispatch\<close>: its
    properties.
  \<^item> \<open>Yaf_Config\<close>: numbers in strings, the callbacks of the INI reader, configuration objects;
    \<open>Yaf_Config_Read\<close>: the properties of reading and looking up; \<open>Yaf_Config_Share\<close>: what an array
    entry does to the section its section inherits from; \<open>Yaf_Config_Inherit\<close>: what a section has
    from its own entries and from its parents.
  \<^item> \<open>Yaf_Store\<close>: registry, session and the iteration over tables, with the locale \<open>iterator\<close>.
  \<^item> \<open>Yaf_Application\<close>: options, construction, bootstrapping, running; \<open>Yaf_Lifecycle\<close>: their
    properties; \<open>Yaf_Running\<close>: the calls of an application as a step relation.
  \<^item> \<open>Yaf_Startup\<close>: module startup, a step for each component that registers its classes in the
    variables of the extension, and the constants.
  \<^item> \<open>Yaf_Serve\<close>: the components together, from the URI of a request to the answer.

  \<^bold>\<open>What is shown.\<close>  For the routes: which URIs match and what they set, that routing what was
  assembled gives the parts back, that a route that fails leaves no trace.  For the router: the
  last route that matches decides.  For the dispatcher: the loop against a specification over
  counted turns, the arguments of an action, refusal of a request that is not complete,
  exceptions and the error controller, no answer with an exception that was pending before the
  sending, a page that is lost because a header was refused, and a controller whose \<open>init\<close> forwards
  to itself as a run that never ends.  For the application: at most one construction, at most one
  dispatch in any history of calls, those out of the user's code included, the modules of the
  configuration, the bootstrap methods, and that running comes back if no \<open>init\<close> forwards.
  For a request as a whole: a path of the default route is answered by the method of
  that name of that controller, called with the values of the path, and an action that returns
  nothing by its template.  For the configuration: what an entry sets, that a section's own entries
  go before what it inherits, at every depth, that entries do not reach through shared arrays and
  that array entries do, and that a lookup finds what was read.  For the rest: the response against a string buffer, the paths and names of the loader,
  that an imported file runs once, the variables of a template, the histories of registry and
  session, iteration.  For startup: no step reads a variable before it was written, objects start
  with the values the constructors of the model give them, errors are thrown as the classes that were
  registered, and which request classes have the constants of the scheme.

  \<^bold>\<open>Bounds and fuel.\<close>  There is no fuel in the program's model: loops are structural or come with a
  measure, and the two that may not end, the search for a local namespace and the handling of
  a request with the loop around it, are partial functions.  \<open>dispatch_iter\<close> of \<open>Yaf_Dispatch\<close> and
  \<open>foreach\<close> of \<open>Yaf_Store\<close> count turns in specifications: the first is given \<open>loop_turns\<close>, which is
  the forward limit, or \<open>2 ^ 32\<close> where it is 0 and wraps around; the second any number above the
  size of the table.

  \<^bold>\<open>Not modelled.\<close>  The tables of methods and of argument information, and the information
  page; reference counts, except where sharing of arrays shows in the result of the
  configuration reader; the vendored sources of PHP, apart from the functions of strings, numbers
  and hash tables the extension calls on its own data; getters that only return a property;
  the branches for Windows and for a debug build; a base URI that contains NUL and is longer than
  the URI of the request, of which the code would take a negative rest; class names and namespaces
  behind a NUL byte; \<open>run\<close> called on an application object that is not the static instance;
  \<open>assignRef\<close> of the view, which stores as \<open>assign\<close> does; the user's handler of PHP errors and the
  callbacks of output buffers, except that the server's taking of a header may leave an exception; methods that are not in the table of
  their class; a table that is enlarged while plugins are called from it; the notes in \<open>phoenix_yafapplication_analysis.c\<close>.
\<close>

end
